(* ===== verification/Prelude.thy ===== *)
theory Prelude
  imports Main "HOL-Library.Word"
begin

text \<open>
  Shared vocabulary of the development of \<^verbatim>\<open>src/webhook.go\<close>.
  Go strings are byte sequences; they are modelled as \<^typ>\<open>string\<close>
  (a list of 8-bit \<^typ>\<open>char\<close>s), so \<open>s != ""\<close> is \<open>s \<noteq> []\<close> and
  \<open>s += t\<close> is \<open>s @ t\<close>.  This theory holds
  \<^item> the comma-join step that \<^verbatim>\<open>webhook.go\<close> writes out inline at every
    place where it assembles a fragment list
    (\<open>if f != "" { if acc != "" { acc += "," }; acc += f }\<close>), and the
    reference join it is equivalent to;
  \<^item> the renderings of Go's \<^verbatim>\<open>fmt\<close> verb \<open>%v\<close> on integers and booleans,
    and the zero-padded \<open>appendInt\<close> of Go's \<^verbatim>\<open>time\<close> formatter, with the
    decimal read-back that inverts them;
  \<^item> the collection \<open>render_simps\<close> of the rendering equations that the
    component theories add to.
\<close>

named_theorems render_simps \<open>equations that evaluate the renderers of webhook.go\<close>

section \<open>The comma-join step\<close>

definition append_frag :: "string \<Rightarrow> string \<Rightarrow> string" where
  "append_frag acc frag =
     (if frag \<noteq> [] then (if acc \<noteq> [] then acc @ '','' else acc) @ frag else acc)"

text \<open>The reference: the non-empty fragments separated by commas.\<close>

fun sep_join :: "string list \<Rightarrow> string" where
  "sep_join [] = []"
| "sep_join [x] = x"
| "sep_join (x # xs) = x @ '','' @ sep_join xs"

abbreviation nonempty :: "string list \<Rightarrow> string list" where
  "nonempty xs \<equiv> filter (\<lambda>s. s \<noteq> []) xs"

section \<open>Error propagation\<close>

text \<open>
  Go's \<open>v, err := f(...); if err != nil { return ..., err }\<close>: a result
  of type \<open>'e + 'a\<close>, \<open>Inl\<close> the error, chained by \<open>sbind\<close>.
\<close>

definition sbind :: "'e + 'a \<Rightarrow> ('a \<Rightarrow> 'e + 'b) \<Rightarrow> 'e + 'b" where
  "sbind m f = (case m of Inl e \<Rightarrow> Inl e | Inr a \<Rightarrow> f a)"

section \<open>Go's \<open>%v\<close> on integers and booleans\<close>

text \<open>
  Decimal digits of a natural number, most significant first: what
  \<open>strconv.AppendInt\<close> (and hence \<open>fmt\<close>'s \<open>%v\<close>) writes for a
  non-negative value.
\<close>

fun dec_digits :: "nat \<Rightarrow> string" where
  "dec_digits n =
     (if n < 10 then [char_of (48 + n)]
      else dec_digits (n div 10) @ [char_of (48 + n mod 10)])"

declare dec_digits.simps [simp del]

definition go_itoa :: "int \<Rightarrow> string" where
  "go_itoa i = (if i < 0 then ''-'' @ dec_digits (nat (- i)) else dec_digits (nat i))"

definition go_bool :: "bool \<Rightarrow> string" where
  "go_bool b = (if b then ''true'' else ''false'')"

text \<open>
  Go's \<open>appendInt(b, x, width)\<close> of the \<^verbatim>\<open>time\<close> package: a minus sign for a
  negative value, then the digits padded with leading zeros to \<open>width\<close>.
\<close>

definition zero_pad :: "nat \<Rightarrow> string \<Rightarrow> string" where
  "zero_pad w s = replicate (w - length s) (CHR ''0'') @ s"

definition append_int :: "int \<Rightarrow> nat \<Rightarrow> string" where
  "append_int x w =
     (if x < 0 then ''-'' @ zero_pad w (dec_digits (nat (- x))) else zero_pad w (dec_digits (nat x)))"

subsection \<open>Reading decimals back\<close>

definition is_digit :: "char \<Rightarrow> bool" where
  "is_digit c \<longleftrightarrow> 48 \<le> (of_char c :: nat) \<and> (of_char c :: nat) \<le> 57"

definition digit_value :: "char \<Rightarrow> nat" where
  "digit_value c = of_char c - 48"

definition dec_value :: "string \<Rightarrow> nat" where
  "dec_value s = foldl (\<lambda>n c. 10 * n + digit_value c) 0 s"


section \<open>Lemmas on the comma-join step\<close>

lemma append_frag_Nil [simp, render_simps]: "append_frag acc [] = acc"
  by (simp add: append_frag_def)

lemma append_frag_Nil_acc [simp, render_simps]: "append_frag [] f = f"
  by (simp add: append_frag_def)

lemma append_frag_both [simp, render_simps]:
  "acc \<noteq> [] \<Longrightarrow> f \<noteq> [] \<Longrightarrow> append_frag acc f = acc @ '','' @ f"
  by (simp add: append_frag_def)

lemma append_frag_empty_iff [simp]: "append_frag acc f = [] \<longleftrightarrow> acc = [] \<and> f = []"
  by (simp add: append_frag_def)

lemma sep_join_snoc:
  "sep_join (xs @ [y]) = (if xs = [] then y else sep_join xs @ '','' @ y)"
proof (induction xs rule: sep_join.induct)
  case (2 x)
  then show ?case by simp
next
  case (3 x v va)
  then show ?case by simp
qed simp

lemma sep_join_Nil_iff:
  "\<forall>s\<in>set xs. s \<noteq> [] \<Longrightarrow> sep_join xs = [] \<longleftrightarrow> xs = []"
  by (induction xs rule: sep_join.induct) auto

lemma sep_join_nonempty_Nil_iff [simp]:
  "sep_join (nonempty xs) = [] \<longleftrightarrow> nonempty xs = []"
  by (rule sep_join_Nil_iff) simp

text \<open>
  The inline accumulation loop of the source equals the reference join: the
  empty fragments are skipped and the rest are joined in order.
\<close>

lemma foldl_append_frag_sep_join:
  "foldl append_frag acc xs = sep_join (nonempty (acc # xs))"
proof (induction xs rule: rev_induct)
  case Nil
  then show ?case by simp
next
  case (snoc x xs)
  have "foldl append_frag acc (xs @ [x]) = append_frag (sep_join (nonempty (acc # xs))) x"
    using snoc.IH by simp
  also have "\<dots> = sep_join (nonempty (acc # xs @ [x]))"
  proof (cases "x = []")
    case False
    have "append_frag (sep_join (nonempty (acc # xs))) x = sep_join (nonempty (acc # xs) @ [x])"
      using False unfolding sep_join_snoc append_frag_def sep_join_nonempty_Nil_iff by simp
    with False show ?thesis by simp
  qed simp
  finally show ?case .
qed

corollary foldl_append_frag_Nil [render_simps]:
  "foldl append_frag [] xs = sep_join (nonempty xs)"
  by (simp add: foldl_append_frag_sep_join)

section \<open>Lemmas on error propagation\<close>

lemma sbind_Inl [simp]: "sbind (Inl e) f = Inl e"
  and sbind_Inr [simp]: "sbind (Inr a) f = f a"
  by (simp_all add: sbind_def)

lemma sbind_eq_Inr_iff: "sbind m f = Inr b \<longleftrightarrow> (\<exists>a. m = Inr a \<and> f a = Inr b)"
  by (cases m) simp_all

section \<open>Lemmas on decimal rendering\<close>

lemma dec_value_snoc [simp]: "dec_value (s @ [c]) = 10 * dec_value s + digit_value c"
  by (simp add: dec_value_def)

lemma digit_value_char_of [simp]: "(d::nat) < 10 \<Longrightarrow> digit_value (char_of (48 + d)) = d"
  by (simp add: digit_value_def of_char_of)

lemma is_digit_char_of [simp]: "(d::nat) < 10 \<Longrightarrow> is_digit (char_of (48 + d))"
  by (simp add: is_digit_def of_char_of)

lemma char_of_digit_codes [simp, render_simps]:
  "char_of (48::nat) = CHR ''0''" "char_of (49::nat) = CHR ''1''" "char_of (50::nat) = CHR ''2''"
  "char_of (51::nat) = CHR ''3''" "char_of (52::nat) = CHR ''4''" "char_of (53::nat) = CHR ''5''"
  "char_of (54::nat) = CHR ''6''" "char_of (55::nat) = CHR ''7''" "char_of (56::nat) = CHR ''8''"
  "char_of (57::nat) = CHR ''9''"
  by code_simp+

lemma dec_digits_value [simp]: "dec_value (dec_digits n) = n"
proof (induction n rule: dec_digits.induct)
  case (1 n)
  then show ?case
    by (subst dec_digits.simps) (simp add: dec_value_def)
qed

lemma dec_digits_digits: "c \<in> set (dec_digits n) \<Longrightarrow> is_digit c"
proof (induction n rule: dec_digits.induct)
  case (1 n)
  then show ?case
    by (subst (asm) dec_digits.simps) (auto split: if_splits)
qed

lemma dec_digits_not_Nil [simp]: "dec_digits n \<noteq> []"
  by (subst dec_digits.simps) simp

section \<open>The join of the source is the reference join\<close>

text \<open>
  C24: the comma-accumulation loop that \<^verbatim>\<open>webhook.go\<close> writes inline
  (\<open>if f != "" { if acc != "" { acc += "," }; acc += f }\<close>, repeated over
  fragments) skips every empty fragment, keeps the order of the others, and
  separates consecutive ones by exactly one comma, starting from any
  accumulator.
\<close>

theorem foldl_append_frag:
  "foldl append_frag acc xs = sep_join (nonempty (acc # xs))"
  by (rule foldl_append_frag_sep_join)

end
