(* ===== verification/Json.thy ===== *)
theory Json
  imports Prelude
begin

text \<open>
  The JSON grammar of RFC 8259 on character lists, the contract that the
  body of a webhook message is checked against (section 4.3 and property 8
  of the specification: the body "is always well-formed JSON").  The
  nonterminals value, members, member, elements and element are mutually
  inductive predicates that relate a text to the JSON value it denotes, a
  \<open>json\<close> tree in the style of a JSON abstract syntax; white space,
  the contents of string literals and number literals are executable
  recognisers.  String literals are kept undecoded: the value of
  \<open>"ab"\<close> is \<open>JString ''ab''\<close>.
\<close>

datatype json =
  JObject "(string \<times> json) list"
| JArray "json list"
| JString string
| JNumber string
| JBool bool
| JNull

abbreviation dquote :: char where "dquote \<equiv> CHR ''\"''"

abbreviation bslash :: char where "bslash \<equiv> Char False False True True True False True False"

section \<open>Lexical level\<close>

definition json_ws_char :: "char \<Rightarrow> bool" where
  "json_ws_char c \<longleftrightarrow> c = CHR '' '' \<or> (of_char c :: nat) \<in> {9, 10, 13}"

definition json_ws :: "string \<Rightarrow> bool" where
  "json_ws w \<longleftrightarrow> list_all json_ws_char w"

text \<open>A character that may stand unescaped in a string literal.\<close>

definition json_plain :: "char \<Rightarrow> bool" where
  "json_plain c \<longleftrightarrow> c \<noteq> dquote \<and> c \<noteq> bslash \<and> 32 \<le> (of_char c :: nat)"

definition is_hex :: "char \<Rightarrow> bool" where
  "is_hex c \<longleftrightarrow> is_digit c \<or> c \<in> set ''abcdefABCDEF''"

text \<open>The contents of a string literal: plain characters and escapes.\<close>

function json_str_ok :: "string \<Rightarrow> bool" where
  "json_str_ok [] = True"
| "json_str_ok (c # s) =
     (if c \<noteq> bslash then json_plain c \<and> json_str_ok s
      else (case s of
              [] \<Rightarrow> False
            | e # s' \<Rightarrow>
                (if e = CHR ''u'' then 4 \<le> length s' \<and> list_all is_hex (take 4 s') \<and> json_str_ok (drop 4 s')
                 else e \<in> set [dquote, bslash, CHR ''/'', CHR ''b'', CHR ''f'', CHR ''n'', CHR ''r'', CHR ''t'']
                      \<and> json_str_ok s')))"
  by pat_completeness auto
termination
  by (relation "measure length") auto

text \<open>
  A number literal: an optional minus, an integer part without leading
  zeros, an optional fraction and an optional exponent.
\<close>

definition json_digits1 :: "string \<Rightarrow> bool" where
  "json_digits1 s \<longleftrightarrow> s \<noteq> [] \<and> list_all is_digit s"

definition json_exp :: "string \<Rightarrow> bool" where
  "json_exp s \<longleftrightarrow>
     s = [] \<or>
     (hd s \<in> set ''eE'' \<and>
      (let r = tl s; r = (if r \<noteq> [] \<and> hd r \<in> set ''+-'' then tl r else r) in json_digits1 r))"

definition json_number :: "string \<Rightarrow> bool" where
  "json_number s \<longleftrightarrow>
     (let s1 = (if s \<noteq> [] \<and> hd s = CHR ''-'' then tl s else s);
          ip = takeWhile is_digit s1; r = dropWhile is_digit s1
      in (ip = ''0'' \<or> (json_digits1 ip \<and> hd ip \<noteq> CHR ''0'')) \<and>
         (if r \<noteq> [] \<and> hd r = CHR ''.''
          then json_digits1 (takeWhile is_digit (tl r)) \<and> json_exp (dropWhile is_digit (tl r))
          else json_exp r))"

text \<open>The number of double quotes in a text.\<close>

definition nquotes :: "string \<Rightarrow> nat" where
  "nquotes s = length (filter (\<lambda>c. c = dquote) s)"

section \<open>The grammar\<close>

inductive json_value :: "string \<Rightarrow> json \<Rightarrow> bool"
  and json_members :: "string \<Rightarrow> (string \<times> json) list \<Rightarrow> bool"
  and json_member :: "string \<Rightarrow> string \<times> json \<Rightarrow> bool"
  and json_elements :: "string \<Rightarrow> json list \<Rightarrow> bool"
  and json_element :: "string \<Rightarrow> json \<Rightarrow> bool"
where
  jg_obj_empty: "json_ws w \<Longrightarrow> json_value (CHR ''{'' # w @ ''}'') (JObject [])"
| jg_obj: "json_members m kvs \<Longrightarrow> json_value (CHR ''{'' # m @ ''}'') (JObject kvs)"
| jg_arr_empty: "json_ws w \<Longrightarrow> json_value (CHR ''['' # w @ '']'') (JArray [])"
| jg_arr: "json_elements e vs \<Longrightarrow> json_value (CHR ''['' # e @ '']'') (JArray vs)"
| jg_str: "json_str_ok s \<Longrightarrow> json_value (dquote # s @ [dquote]) (JString s)"
| jg_num: "json_number s \<Longrightarrow> json_value s (JNumber s)"
| jg_true: "json_value ''true'' (JBool True)"
| jg_false: "json_value ''false'' (JBool False)"
| jg_null: "json_value ''null'' JNull"
| jg_members_one: "json_member s kv \<Longrightarrow> json_members s [kv]"
| jg_members_cons: "json_member s kv \<Longrightarrow> json_members r kvs \<Longrightarrow> json_members (s @ CHR '','' # r) (kv # kvs)"
| jg_member: "json_ws w1 \<Longrightarrow> json_str_ok k \<Longrightarrow> json_ws w2 \<Longrightarrow> json_element e x \<Longrightarrow>
     json_member (w1 @ dquote # k @ dquote # w2 @ CHR '':'' # e) (k, x)"
| jg_elements_one: "json_element s x \<Longrightarrow> json_elements s [x]"
| jg_elements_cons: "json_element s x \<Longrightarrow> json_elements r xs \<Longrightarrow> json_elements (s @ CHR '','' # r) (x # xs)"
| jg_element: "json_ws w1 \<Longrightarrow> json_value v x \<Longrightarrow> json_ws w2 \<Longrightarrow> json_element (w1 @ v @ w2) x"

inductive_cases json_members_ConsE: "json_members s (kv # kvs)"
inductive_cases json_elements_ConsE: "json_elements s (x # xs)"
inductive_cases json_memberE: "json_member s kv"
inductive_cases json_elementE: "json_element s x"
inductive_cases json_members_NilE: "json_members s []"
inductive_cases json_elements_NilE: "json_elements s []"

section \<open>Lemmas\<close>

lemma json_ws_simps [simp]:
  "json_ws []" "json_ws (a @ b) \<longleftrightarrow> json_ws a \<and> json_ws b" "json_ws (c # s) \<longleftrightarrow> json_ws_char c \<and> json_ws s"
  "json_ws_char CHR '' ''"
  by (simp_all add: json_ws_def json_ws_char_def)

lemma json_member_ws_prefix:
  assumes "json_member s kv" "json_ws w" shows "json_member (w @ s) kv"
proof -
  obtain w1 k w2 e x where 1: "s = w1 @ dquote # k @ dquote # w2 @ CHR '':'' # e" "kv = (k, x)"
    "json_ws w1" "json_str_ok k" "json_ws w2" "json_element e x"
    using assms(1) by (auto elim: json_memberE)
  have "json_member ((w @ w1) @ dquote # k @ dquote # w2 @ CHR '':'' # e) (k, x)"
    using 1 assms(2) by (intro jg_member) simp_all
  then show ?thesis using 1 by simp
qed

lemma json_element_ws_suffix:
  assumes "json_element s x" "json_ws w" shows "json_element (s @ w) x"
proof -
  obtain w1 v w2 where 1: "s = w1 @ v @ w2" "json_ws w1" "json_value v x" "json_ws w2"
    using assms(1) by (auto elim: json_elementE)
  have "json_element (w1 @ v @ (w2 @ w)) x"
    using 1 assms(2) by (intro jg_element) simp_all
  then show ?thesis using 1 by simp
qed

lemma json_member_ws_suffix:
  assumes "json_member s kv" "json_ws w" shows "json_member (s @ w) kv"
proof -
  obtain w1 k w2 e x where 1: "s = w1 @ dquote # k @ dquote # w2 @ CHR '':'' # e" "kv = (k, x)"
    "json_ws w1" "json_str_ok k" "json_ws w2" "json_element e x"
    using assms(1) by (auto elim: json_memberE)
  have "json_member (w1 @ dquote # k @ dquote # w2 @ CHR '':'' # (e @ w)) (k, x)"
    using 1 assms(2) json_element_ws_suffix by (intro jg_member) simp_all
  then show ?thesis using 1 by simp
qed

lemma json_members_split:
  assumes "json_members s (kv # kvs)"
  obtains (one) "kvs = []" "json_member s kv"
  | (cons) s1 r where "s = s1 @ CHR '','' # r" "json_member s1 kv" "json_members r kvs"
  using assms by (auto elim: json_members_ConsE)

lemma json_elements_split:
  assumes "json_elements s (x # xs)"
  obtains (one) "xs = []" "json_element s x"
  | (cons) s1 r where "s = s1 @ CHR '','' # r" "json_element s1 x" "json_elements r xs"
  using assms by (auto elim: json_elements_ConsE)

lemma json_members_ws_prefix:
  assumes "json_members s kvs" "json_ws w" shows "json_members (w @ s) kvs"
proof (cases kvs)
  case Nil
  then show ?thesis using assms(1) by (auto elim: json_members_NilE)
next
  case (Cons kv kvs')
  from assms(1) have "json_members s (kv # kvs')" by (simp add: Cons)
  then show ?thesis
  proof (cases rule: json_members_split)
    case one
    then show ?thesis using assms(2) Cons by (simp add: jg_members_one json_member_ws_prefix)
  next
    case (cons s1 r)
    have "json_members ((w @ s1) @ CHR '','' # r) (kv # kvs')"
      using cons assms(2) by (intro jg_members_cons json_member_ws_prefix)
    then show ?thesis using cons Cons by simp
  qed
qed

lemma json_members_ws_suffix:
  "json_members s kvs \<Longrightarrow> json_ws w \<Longrightarrow> json_members (s @ w) kvs"
proof (induction kvs arbitrary: s)
  case Nil
  then show ?case by (auto elim: json_members_NilE)
next
  case (Cons kv kvs)
  from Cons.prems(1) show ?case
  proof (cases rule: json_members_split)
    case one
    then show ?thesis using Cons.prems(2) by (simp add: jg_members_one json_member_ws_suffix)
  next
    case (cons s1 r)
    have "json_members (s1 @ CHR '','' # (r @ w)) (kv # kvs)"
      using cons Cons.prems(2) by (intro jg_members_cons Cons.IH)
    then show ?thesis using cons by simp
  qed
qed

lemma json_members_append:
  "json_members a xs \<Longrightarrow> json_members b ys \<Longrightarrow> json_members (a @ CHR '','' # b) (xs @ ys)"
proof (induction xs arbitrary: a)
  case Nil
  then show ?case by (auto elim: json_members_NilE)
next
  case (Cons kv kvs)
  from Cons.prems(1) show ?case
  proof (cases rule: json_members_split)
    case one
    then show ?thesis using Cons.prems(2) by (simp add: jg_members_cons)
  next
    case (cons s1 r)
    have "json_members (s1 @ CHR '','' # (r @ CHR '','' # b)) (kv # kvs @ ys)"
      using cons Cons.prems(2) by (intro jg_members_cons Cons.IH)
    then show ?thesis using cons by simp
  qed
qed

lemma json_elements_append:
  "json_elements a xs \<Longrightarrow> json_elements b ys \<Longrightarrow> json_elements (a @ CHR '','' # b) (xs @ ys)"
proof (induction xs arbitrary: a)
  case Nil
  then show ?case by (auto elim: json_elements_NilE)
next
  case (Cons x xs)
  from Cons.prems(1) show ?case
  proof (cases rule: json_elements_split)
    case one
    then show ?thesis using Cons.prems(2) by (simp add: jg_elements_cons)
  next
    case (cons s1 r)
    have "json_elements (s1 @ CHR '','' # (r @ CHR '','' # b)) (x # xs @ ys)"
      using cons Cons.prems(2) by (intro jg_elements_cons Cons.IH)
    then show ?thesis using cons by simp
  qed
qed

lemma json_element_ws_prefix:
  assumes "json_element s x" "json_ws w" shows "json_element (w @ s) x"
proof -
  obtain w1 v w2 where 1: "s = w1 @ v @ w2" "json_ws w1" "json_value v x" "json_ws w2"
    using assms(1) by (auto elim: json_elementE)
  have "json_element ((w @ w1) @ v @ w2) x"
    using 1 assms(2) by (intro jg_element) simp_all
  then show ?thesis using 1 by simp
qed

lemma json_elements_ws_prefix:
  assumes "json_elements s xs" "json_ws w" shows "json_elements (w @ s) xs"
proof (cases xs)
  case Nil
  then show ?thesis using assms(1) by (auto elim: json_elements_NilE)
next
  case (Cons x xs')
  from assms(1) have "json_elements s (x # xs')" by (simp add: Cons)
  then show ?thesis
  proof (cases rule: json_elements_split)
    case one
    then show ?thesis using assms(2) Cons by (simp add: jg_elements_one json_element_ws_prefix)
  next
    case (cons s1 r)
    have "json_elements ((w @ s1) @ CHR '','' # r) (x # xs')"
      using cons assms(2) by (intro jg_elements_cons json_element_ws_prefix)
    then show ?thesis using cons Cons by simp
  qed
qed

lemma json_elements_ws_suffix:
  "json_elements s xs \<Longrightarrow> json_ws w \<Longrightarrow> json_elements (s @ w) xs"
proof (induction xs arbitrary: s)
  case Nil
  then show ?case by (auto elim: json_elements_NilE)
next
  case (Cons x xs)
  from Cons.prems(1) show ?case
  proof (cases rule: json_elements_split)
    case one
    then show ?thesis using Cons.prems(2) by (simp add: jg_elements_one json_element_ws_suffix)
  next
    case (cons s1 r)
    have "json_elements (s1 @ CHR '','' # (r @ w)) (x # xs)"
      using cons Cons.prems(2) by (intro jg_elements_cons Cons.IH)
    then show ?thesis using cons by simp
  qed
qed

lemma json_elements_value: "json_value v x \<Longrightarrow> json_elements v [x]"
  using jg_element[of "[]" v x "[]"] by (simp add: jg_elements_one)

subsection \<open>Quote parity\<close>

lemma quote_not_digit [simp]: "\<not> is_digit dquote"
  by (simp add: is_digit_def)

lemma quote_not_ws [simp]: "\<not> json_ws_char dquote"
  by (simp add: json_ws_char_def)

lemma json_ws_no_quote: "json_ws w \<Longrightarrow> dquote \<notin> set w"
  by (induction w) auto

lemma json_str_ok_no_quote: "json_str_ok s \<Longrightarrow> bslash \<notin> set s \<Longrightarrow> dquote \<notin> set s"
  by (induction s rule: json_str_ok.induct) (auto simp: json_plain_def)

lemma json_digits1_no_quote: "json_digits1 s \<Longrightarrow> dquote \<notin> set s"
  by (auto simp: json_digits1_def list_all_iff)

lemma takeWhile_digit_no_quote: "dquote \<notin> set (takeWhile is_digit s)"
  by (auto dest: set_takeWhileD)

lemma set_takeWhile_dropWhile: "set s = set (takeWhile P s) \<union> set (dropWhile P s)"
  by (induction s) auto

lemma json_exp_no_quote: "json_exp s \<Longrightarrow> dquote \<notin> set s"
proof (cases s)
  case (Cons e t)
  assume ex: "json_exp s"
  define r where "r = (if t \<noteq> [] \<and> hd t \<in> set ''+-'' then tl t else t)"
  have e: "e \<in> set ''eE''" and d: "json_digits1 r" using ex Cons by (simp_all add: json_exp_def r_def Let_def)
  have "dquote \<notin> set t"
  proof (cases "t \<noteq> [] \<and> hd t \<in> set ''+-''")
    case True
    then obtain h r' where t: "t = h # r'" "h \<in> set ''+-''" by (cases t) auto
    moreover have "json_digits1 r'" using d True t by (simp add: r_def)
    ultimately show ?thesis using json_digits1_no_quote[of r'] by auto
  next
    case False
    then have "r = t" unfolding r_def by (rule if_not_P)
    then have "json_digits1 t" using d by simp
    then show ?thesis by (rule json_digits1_no_quote)
  qed
  then show ?thesis using e Cons by auto
qed simp

lemma json_number_no_quote: "json_number s \<Longrightarrow> dquote \<notin> set s"
proof -
  assume n: "json_number s"
  define s1 where "s1 = (if s \<noteq> [] \<and> hd s = CHR ''-'' then tl s else s)"
  define r where "r = dropWhile is_digit s1"
  have "set s \<subseteq> {CHR ''-''} \<union> set s1" unfolding s1_def by (cases s) auto
  moreover have "dquote \<notin> set r"
  proof (cases "r \<noteq> [] \<and> hd r = CHR ''.''")
    case True
    then obtain t where t: "r = CHR ''.'' # t" by (cases r) auto
    have "json_exp (dropWhile is_digit t)"
      using n True t unfolding json_number_def Let_def s1_def [symmetric] r_def [symmetric] by simp
    then have "dquote \<notin> set (dropWhile is_digit t)" by (rule json_exp_no_quote)
    then have "dquote \<notin> set t"
      using takeWhile_digit_no_quote[of t] set_takeWhile_dropWhile[of t is_digit] by auto
    then show ?thesis using t by simp
  next
    case False
    then have "json_exp r"
      using n unfolding json_number_def Let_def s1_def [symmetric] r_def [symmetric] by simp
    then show ?thesis by (rule json_exp_no_quote)
  qed
  ultimately show ?thesis
    using takeWhile_digit_no_quote[of s1] set_takeWhile_dropWhile[of s1 is_digit] r_def by auto
qed

lemma nquotes_simps [simp]:
  "nquotes [] = 0" "nquotes (a @ b) = nquotes a + nquotes b" "nquotes (c # s) = (if c = dquote then 1 else 0) + nquotes s"
  by (simp_all add: nquotes_def)

lemma nquotes_zero: "dquote \<notin> set s \<Longrightarrow> nquotes s = 0"
  by (auto simp: nquotes_def filter_empty_conv)



lemma json_quotes_even:
  "(json_value s x \<longrightarrow> bslash \<notin> set s \<longrightarrow> even (nquotes s)) \<and>
   (json_members s kvs \<longrightarrow> bslash \<notin> set s \<longrightarrow> even (nquotes s)) \<and>
   (json_member s kv \<longrightarrow> bslash \<notin> set s \<longrightarrow> even (nquotes s)) \<and>
   (json_elements s xs \<longrightarrow> bslash \<notin> set s \<longrightarrow> even (nquotes s)) \<and>
   (json_element s x \<longrightarrow> bslash \<notin> set s \<longrightarrow> even (nquotes s))"
  by (rule json_value_json_members_json_member_json_elements_json_element.induct)
    (auto simp: nquotes_zero json_ws_no_quote json_str_ok_no_quote json_number_no_quote)

lemma json_value_quotes_even: "json_value s x \<Longrightarrow> bslash \<notin> set s \<Longrightarrow> even (nquotes s)"
  using json_quotes_even by blast

end
