(* ===== verification/Strconv.thy ===== *)
theory Strconv
  imports Prelude
begin

text \<open>
  Go's \<open>strconv.ParseUint\<close> and \<open>strconv.ParseInt\<close>, which
  \<open>COLOR.Parse\<close> (\<^verbatim>\<open>src/webhook.go\<close>, line 227) calls as
  \<open>strconv.ParseInt(c.Color, 16, 25)\<close>.  They belong to Go's standard
  library, not to the repository, and are modelled from its documented and
  implemented behaviour: an optional sign, then digits scanned left to right
  in a \<open>uint64\<close> accumulator that checks for overflow of \<open>n * base\<close>
  (against \<open>cutoff\<close>) and of \<open>n + d\<close> (wrap-around, or beyond
  \<open>maxVal = 2^bitSize - 1\<close>) before each step.  The first failure ends
  the scan: a bad digit gives \<open>(0, ErrSyntax)\<close>, an overflow gives
  \<open>(maxVal, ErrRange)\<close>; \<open>ParseInt\<close> then clamps to the signed range
  of \<open>bitSize\<close> bits.  Go returns the value and the error together, so the
  model returns a pair.  Values are 64-bit words (\<open>uint64\<close>, and
  \<open>int64\<close> read with \<^const>\<open>sint\<close>), so that the wrap-around the source
  tests for is the wrap-around of the model.  Base 0 (prefix detection and
  underscores) is not modelled: it is reported as \<open>ErrBase\<close>, and the
  repository never uses it.
\<close>

unbundle bit_operations_syntax

datatype num_error = ErrSyntax | ErrRange | ErrBase | ErrBitSize

type_synonym uint64 = "64 word"
type_synonym int64 = "64 word"

section \<open>The digit scanner\<close>

definition lower :: "8 word \<Rightarrow> 8 word" where
  "lower c = c OR 0x20"

definition digit_of :: "8 word \<Rightarrow> 8 word option" where
  "digit_of c =
     (if 0x30 \<le> c \<and> c \<le> 0x39 then Some (c - 0x30)
      else if 0x61 \<le> lower c \<and> lower c \<le> 0x7A then Some (lower c - 0x61 + 10)
      else None)"

fun parse_uint_digits ::
  "8 word \<Rightarrow> uint64 \<Rightarrow> uint64 \<Rightarrow> uint64 \<Rightarrow> uint64 \<Rightarrow> string \<Rightarrow> uint64 \<times> num_error option" where
  "parse_uint_digits bbase base cutoff maxVal n [] = (n, None)"
| "parse_uint_digits bbase base cutoff maxVal n (c # cs) =
     (case digit_of (of_char c) of
        None \<Rightarrow> (0, Some ErrSyntax)
      | Some d \<Rightarrow>
          (if bbase \<le> d then (0, Some ErrSyntax)
           else if cutoff \<le> n then (maxVal, Some ErrRange)
           else (let n' = n * base; n1 = n' + ucast d in
                 if n1 < n' \<or> maxVal < n1 then (maxVal, Some ErrRange)
                 else parse_uint_digits bbase base cutoff maxVal n1 cs)))"

definition ParseUint :: "string \<Rightarrow> int \<Rightarrow> int \<Rightarrow> uint64 \<times> num_error option" where
  "ParseUint s base bitSize =
     (if s = [] then (0, Some ErrSyntax)
      else if \<not> (2 \<le> base \<and> base \<le> 36) then (0, Some ErrBase)
      else
        (let bits = (if bitSize = 0 then 64 else bitSize) in
         if bits < 0 \<or> 64 < bits then (0, Some ErrBitSize)
         else
           (let cutoff = (- 1 :: uint64) div word_of_int base + 1;
                maxVal = push_bit (nat bits) 1 - 1
            in parse_uint_digits (word_of_int base) (word_of_int base) cutoff maxVal 0 s)))"

definition ParseInt :: "string \<Rightarrow> int \<Rightarrow> int \<Rightarrow> int64 \<times> num_error option" where
  "ParseInt s0 base bitSize =
     (case s0 of
        [] \<Rightarrow> (0, Some ErrSyntax)
      | c # cs \<Rightarrow>
          (let neg = (c = CHR ''-'');
               s = (if c = CHR ''+'' \<or> c = CHR ''-'' then cs else s0);
               (un, err) = ParseUint s base bitSize
           in if err \<noteq> None \<and> err \<noteq> Some ErrRange then (0, err)
              else
                (let bits = (if bitSize = 0 then 64 else bitSize);
                     cutoff = push_bit (nat (bits - 1)) (1 :: uint64)
                 in if \<not> neg \<and> cutoff \<le> un then (cutoff - 1, Some ErrRange)
                    else if neg \<and> cutoff < un then (- cutoff, Some ErrRange)
                    else (if neg then - un else un, err))))"

section \<open>The contract\<close>

text \<open>
  The reference scanner \<open>scan_ref\<close> runs the same loop on unbounded
  natural numbers, with no \<open>cutoff\<close> and no wrap-around test.  The
  contract \<open>uint_spec\<close> says what the scan computes in one step: take
  the longest prefix of valid digits; if its value exceeds \<open>maxVal\<close>
  the result is \<open>(maxVal, ErrRange)\<close>, otherwise a non-digit after it
  gives \<open>(0, ErrSyntax)\<close>, otherwise the value.  \<open>int_spec\<close> is
  \<open>ParseInt\<close> on mathematical integers over that contract.
\<close>

definition digit_nat :: "char \<Rightarrow> nat option" where
  "digit_nat c = map_option unat (digit_of (of_char c))"

fun scan_ref :: "nat \<Rightarrow> nat \<Rightarrow> nat \<Rightarrow> string \<Rightarrow> nat \<times> num_error option" where
  "scan_ref base maxVal n [] = (n, None)"
| "scan_ref base maxVal n (c # cs) =
     (case digit_nat c of
        None \<Rightarrow> (0, Some ErrSyntax)
      | Some d \<Rightarrow>
          (if base \<le> d then (0, Some ErrSyntax)
           else if maxVal < n * base + d then (maxVal, Some ErrRange)
           else scan_ref base maxVal (n * base + d) cs))"


definition digit_ok :: "nat \<Rightarrow> char \<Rightarrow> bool" where
  "digit_ok base c = (case digit_nat c of None \<Rightarrow> False | Some d \<Rightarrow> d < base)"

definition digits_value :: "nat \<Rightarrow> nat \<Rightarrow> string \<Rightarrow> nat" where
  "digits_value base n s = foldl (\<lambda>n c. n * base + (case digit_nat c of None \<Rightarrow> 0 | Some d \<Rightarrow> d)) n s"

definition uint_spec :: "nat \<Rightarrow> nat \<Rightarrow> string \<Rightarrow> nat \<times> num_error option" where
  "uint_spec base maxVal s =
     (if s = [] then (0, Some ErrSyntax)
      else
        (let p = takeWhile (digit_ok base) s; v = digits_value base 0 p in
         if maxVal < v then (maxVal, Some ErrRange)
         else if p \<noteq> s then (0, Some ErrSyntax)
         else (v, None)))"


definition int_spec :: "nat \<Rightarrow> nat \<Rightarrow> string \<Rightarrow> int \<times> num_error option" where
  "int_spec base bits s0 =
     (case s0 of
        [] \<Rightarrow> (0, Some ErrSyntax)
      | c # cs \<Rightarrow>
          (let neg = (c = CHR ''-'');
               s = (if c = CHR ''+'' \<or> c = CHR ''-'' then cs else s0);
               (un, err) = uint_spec base (2 ^ bits - 1) s;
               cutoff = 2 ^ (bits - 1)
           in if err \<noteq> None \<and> err \<noteq> Some ErrRange then (0, err)
              else if \<not> neg \<and> cutoff \<le> un then (int cutoff - 1, Some ErrRange)
              else if neg \<and> cutoff < un then (- int cutoff, Some ErrRange)
              else (if neg then - int un else int un, err)))"


section \<open>Refinement proofs\<close>

subsection \<open>Word arithmetic of the scanner\<close>
lemma unat_ucast_byte [simp]: "unat (ucast (d :: 8 word) :: 64 word) = unat d"
proof -
  have "unat d < 2 ^ 8" using unsigned_less[of d] by simp
  then show ?thesis by (simp add: unsigned_ucast_eq take_bit_nat_eq_self)
qed

lemma cutoff_mult_gt:
  assumes "0 < b" shows "(x::nat) < (x div b + 1) * b"
proof -
  have e: "b * (x div b) + x mod b = x" by (rule mult_div_mod_eq)
  have r: "x mod b < b" using assms by simp
  have "(x div b + 1) * b = b * (x div b) + b" by (simp add: algebra_simps)
  with e r show ?thesis by linarith
qed

lemma unat_less_2p64: "unat (w :: 64 word) < 2 ^ 64"
  using unsigned_less[of w, where 'a = nat] by simp

lemma below_cutoff_mult_le:
  "(n::nat) < x div b + 1 \<Longrightarrow> n * b \<le> x"
  by (metis Suc_eq_plus1 div_times_less_eq_dividend less_Suc_eq_le mult_le_mono1 order_trans)

lemma parse_uint_digits_scan_ref:
  fixes bb :: "8 word" and b cut mv n :: uint64
  assumes bb: "unat bb = base" and b: "unat b = base" and base: "0 < base"
    and cut: "unat cut = (2 ^ 64 - 1) div base + 1"
    and mv: "unat mv = maxVal" and n: "unat n \<le> maxVal"
  shows "parse_uint_digits bb b cut mv n s = map_prod of_nat id (scan_ref base maxVal (unat n) s)"
  using n
proof (induction s arbitrary: n)
  case Nil
  then show ?case by simp
next
  case (Cons c cs)
  show ?case
  proof (cases "digit_of (of_char c)")
    case None
    then show ?thesis by (simp add: digit_nat_def)
  next
    case (Some d)
    have dn: "digit_nat c = Some (unat d)" using Some by (simp add: digit_nat_def)
    have le_bb: "bb \<le> d \<longleftrightarrow> base \<le> unat d" using bb by (simp add: word_le_nat_alt)
    have le_cut: "cut \<le> n \<longleftrightarrow> (2 ^ 64 - 1) div base + 1 \<le> unat n" using cut by (simp add: word_le_nat_alt)
    show ?thesis
    proof (cases "base \<le> unat d")
      case True
      then show ?thesis using Some dn le_bb by simp
    next
      case nd: False
      show ?thesis
      proof (cases "(2 ^ 64 - 1) div base + 1 \<le> unat n")
        case True
        have "(2 ^ 64 - 1) < ((2 ^ 64 - 1) div base + 1) * base"
          using base by (rule cutoff_mult_gt)
        also have "\<dots> \<le> unat n * base" using True by (rule mult_le_mono1)
        finally have "maxVal < unat n * base + unat d"
          using mv unat_less_2p64[of mv] by simp
        then show ?thesis using Some dn le_bb le_cut nd True by (simp add: mv [symmetric])
      next
        case nc: False
        have nb: "unat n * base \<le> 2 ^ 64 - 1"
          using nc by (intro below_cutoff_mult_le) simp
        then have "unat n * unat b < 2 ^ LENGTH(64)" using b by simp
        then have mul: "unat (n * b) = unat n * base"
          using b unat_mult_lem by metis
        show ?thesis
        proof (cases "unat n * base + unat d < 2 ^ 64")
          case nw: True
          have "unat (n * b) + unat (ucast d :: uint64) < 2 ^ LENGTH(64)" using nw mul by simp
          then have add: "unat (n * b + ucast d) = unat n * base + unat d"
            using mul unat_add_lem by (metis unat_ucast_byte)
          have nolt: "\<not> n * b + ucast d < n * b"
            using add mul by (simp add: word_less_nat_alt)
          have gt: "mv < n * b + ucast d \<longleftrightarrow> maxVal < unat n * base + unat d"
            using add mv by (simp add: word_less_nat_alt)
          show ?thesis
          proof (cases "maxVal < unat n * base + unat d")
            case True
            then show ?thesis using Some dn le_bb le_cut nd nc gt by (simp add: Let_def mv [symmetric])
          next
            case False
            then have "parse_uint_digits bb b cut mv (n * b + ucast d) cs
                       = map_prod of_nat id (scan_ref base maxVal (unat n * base + unat d) cs)"
              using Cons.IH[of "n * b + ucast d"] add by (simp add: id_def)
            then show ?thesis using Some dn le_bb le_cut nd nc gt nolt False by (simp add: Let_def id_def)
          qed
        next
          case wr: False
          have lt: "n * b + ucast d < n * b"
            using wr mul no_olen_add_nat[of "n * b" "ucast d"] by (simp add: not_le)
          have "maxVal < unat n * base + unat d"
            using wr mv unat_less_2p64[of mv] by simp
          then show ?thesis using Some dn le_bb le_cut nd nc lt by (simp add: Let_def mv [symmetric])
        qed
      qed
    qed
  qed
qed

subsection \<open>The reference scanner meets the contract\<close>
lemma digits_value_Cons [simp]:
  "digit_nat c = Some d \<Longrightarrow> digits_value base n (c # cs) = digits_value base (n * base + d) cs"
  by (simp add: digits_value_def)

lemma digits_value_Nil [simp]: "digits_value base n [] = n"
  by (simp add: digits_value_def)

lemma digits_value_ge: "0 < base \<Longrightarrow> n \<le> digits_value base n s"
proof (induction s arbitrary: n)
  case (Cons c cs)
  have "n \<le> n * base" using Cons.prems by simp
  then have "n \<le> n * base + (case digit_nat c of None \<Rightarrow> 0 | Some d \<Rightarrow> d)"
    by (rule trans_le_add1)
  also have "\<dots> \<le> digits_value base (n * base + (case digit_nat c of None \<Rightarrow> 0 | Some d \<Rightarrow> d)) cs"
    using Cons by blast
  finally show ?case by (simp add: digits_value_def)
qed simp

lemma scan_ref_takeWhile:
  assumes "0 < base" and "n \<le> maxVal"
  shows "scan_ref base maxVal n s =
     (let p = takeWhile (digit_ok base) s; v = digits_value base n p in
      if maxVal < v then (maxVal, Some ErrRange)
      else if p \<noteq> s then (0, Some ErrSyntax)
      else (v, None))"
  using assms(2)
proof (induction s arbitrary: n)
  case (Cons c cs)
  show ?case
  proof (cases "digit_nat c")
    case None
    then show ?thesis using Cons.prems by (simp add: digit_ok_def)
  next
    case (Some d)
    show ?thesis
    proof (cases "d < base")
      case False
      then show ?thesis using Some Cons.prems by (simp add: digit_ok_def)
    next
      case True
      have ok: "digit_ok base c" using Some True by (simp add: digit_ok_def)
      show ?thesis
      proof (cases "maxVal < n * base + d")
        case over: True
        have "n * base + d \<le> digits_value base (n * base + d) (takeWhile (digit_ok base) cs)"
          using assms(1) by (rule digits_value_ge)
        then show ?thesis using Some True ok over by (simp add: Let_def)
      next
        case False
        then show ?thesis using Some True ok Cons.IH[of "n * base + d"] by (simp add: Let_def)
      qed
    qed
  qed
qed simp

lemma unat_pow_minus_one:
  assumes "k \<le> 64" shows "unat ((2::uint64) ^ k - 1) = 2 ^ k - 1"
proof (cases "k = 64")
  case True
  then show ?thesis by simp
next
  case False
  with assms have "k < 64" by simp
  have lt: "(2::nat) ^ k < 2 ^ 64"
    using power_strict_increasing[of k 64 "2::nat"] \<open>k < 64\<close> by simp
  have "unat (word_of_nat (2 ^ k) :: uint64) = 2 ^ k"
    unfolding unat_of_nat using lt by simp
  moreover have "(word_of_nat (2 ^ k) :: uint64) = 2 ^ k" by simp
  ultimately have u: "unat ((2::uint64) ^ k) = 2 ^ k" by simp
  have nz: "(2::uint64) ^ k \<noteq> 0"
  proof
    assume "(2::uint64) ^ k = 0"
    with u show False by simp
  qed
  from u unat_minus_one[OF nz] show ?thesis by simp
qed

lemma unat_of_small_base:
  assumes "B \<le> 36" shows "unat (of_nat B :: 'a::len word) = B \<or> LENGTH('a) < 6"
proof (cases "LENGTH('a) < 6")
  case False
  then have "(2::nat) ^ 6 \<le> 2 ^ LENGTH('a)" by (intro power_increasing) simp_all
  with assms have "B < 2 ^ LENGTH('a)" by simp
  then show ?thesis by (simp add: unat_of_nat)
qed simp

lemma unat_base8: "B \<le> 36 \<Longrightarrow> unat (of_nat B :: 8 word) = B"
  using unat_of_small_base[of B, where 'a = 8] by simp

lemma unat_base64: "B \<le> 36 \<Longrightarrow> unat (of_nat B :: uint64) = B"
  using unat_of_small_base[of B, where 'a = 64] by simp

lemma unat_cutoff:
  assumes "2 \<le> B" "B \<le> 36"
  shows "unat ((- 1 :: uint64) div of_nat B + 1) = (2 ^ 64 - 1) div B + 1"
proof -
  have m: "unat (- 1 :: uint64) = 2 ^ 64 - 1"
    by (simp add: unsigned_minus_1_eq_mask mask_eq_exp_minus_1)
  have q: "unat ((- 1 :: uint64) div of_nat B) = (2 ^ 64 - 1) div B"
    using m unat_base64[OF assms(2)] by (simp add: unat_div)
  have "(2 ^ 64 - 1) div B \<le> (2 ^ 64 - 1) div (2::nat)"
    using div_le_mono2[of 2 B "2 ^ 64 - 1 :: nat"] assms(1) by simp
  then have "unat ((- 1 :: uint64) div of_nat B) + unat (1 :: uint64) < 2 ^ LENGTH(64)"
    using q by simp
  then have "unat ((- 1 :: uint64) div of_nat B + 1) = unat ((- 1 :: uint64) div of_nat B) + unat (1 :: uint64)"
    by (rule unat_add_lem [THEN iffD1])
  then show ?thesis by (simp only: q unsigned_1)
qed

lemma unat_word_of_base:
  assumes "2 \<le> base" "base \<le> 36"
  shows "unat (word_of_int base :: 8 word) = nat base" "unat (word_of_int base :: uint64) = nat base"
    and "(- 1 :: uint64) div word_of_int base + 1 = (- 1) div of_nat (nat base) + 1"
proof -
  have e8: "(word_of_int base :: 8 word) = word_of_nat (nat base)"
    by (rule word_of_int_nat) (use assms in simp)
  have e64: "(word_of_int base :: uint64) = word_of_nat (nat base)"
    by (rule word_of_int_nat) (use assms in simp)
  show "unat (word_of_int base :: 8 word) = nat base"
    unfolding e8 by (rule unat_base8) (use assms in simp)
  show "unat (word_of_int base :: uint64) = nat base"
    unfolding e64 by (rule unat_base64) (use assms in simp)
  show "(- 1 :: uint64) div word_of_int base + 1 = (- 1) div of_nat (nat base) + 1"
    unfolding e64 ..
qed

lemma ParseUint_spec:
  assumes "2 \<le> base" "base \<le> 36" "0 < bitSize" "bitSize \<le> 64"
  shows "ParseUint s base bitSize = map_prod of_nat id (uint_spec (nat base) (2 ^ nat bitSize - 1) s)"
proof (cases "s = []")
  case True
  then show ?thesis by (simp add: ParseUint_def uint_spec_def)
next
  case False
  have k: "nat bitSize \<le> 64" using assms by simp
  have B: "2 \<le> nat base" "nat base \<le> 36" using assms by simp_all
  have mv: "unat (push_bit (nat bitSize) 1 - 1 :: uint64) = 2 ^ nat bitSize - 1"
    using unat_pow_minus_one[OF k] by (simp add: push_bit_of_1)
  have cut: "unat ((- 1 :: uint64) div word_of_int base + 1) = (2 ^ 64 - 1) div nat base + 1"
    unfolding unat_word_of_base(3)[OF assms(1,2)] by (rule unat_cutoff[OF B])
  have u: "ParseUint s base bitSize =
    parse_uint_digits (word_of_int base) (word_of_int base) ((- 1) div word_of_int base + 1)
      (push_bit (nat bitSize) 1 - 1) 0 s"
    using assms False unfolding ParseUint_def Let_def by simp
  also have "\<dots> = map_prod of_nat id (scan_ref (nat base) (2 ^ nat bitSize - 1) (unat (0::uint64)) s)"
    using unat_word_of_base(1,2)[OF assms(1,2)] B(1) cut mv
    by (intro parse_uint_digits_scan_ref) simp_all
  also have "scan_ref (nat base) (2 ^ nat bitSize - 1) (unat (0::uint64)) s = uint_spec (nat base) (2 ^ nat bitSize - 1) s"
    using B False by (simp add: scan_ref_takeWhile uint_spec_def)
  finally show ?thesis .
qed

subsection \<open>ParseInt\<close>
lemma uint_spec_le: "fst (uint_spec base maxVal s) \<le> maxVal"
  by (simp add: uint_spec_def Let_def)

lemma sint_word_of_int_64:
  "- (2 ^ 63) \<le> i \<Longrightarrow> i < 2 ^ 63 \<Longrightarrow> sint (word_of_int i :: uint64) = i"
  by (simp add: int_word_sint)

lemma sint_of_nat_64: "n < 2 ^ 63 \<Longrightarrow> sint (of_nat n :: uint64) = int n"
  using sint_word_of_int_64[of "int n"] by simp

lemma sint_neg_of_nat_64: "n \<le> 2 ^ 63 \<Longrightarrow> sint (- of_nat n :: uint64) = - int n"
  using sint_word_of_int_64[of "- int n"] by simp

lemma sint_of_nat_minus_one_64:
  "0 < n \<Longrightarrow> n \<le> 2 ^ 63 \<Longrightarrow> sint (of_nat n - 1 :: uint64) = int n - 1"
  using sint_word_of_int_64[of "int n - 1"] by simp

lemma of_nat_le_iff_64:
  "m < 2 ^ 64 \<Longrightarrow> n < 2 ^ 64 \<Longrightarrow> (of_nat m :: uint64) \<le> of_nat n \<longleftrightarrow> m \<le> n"
  by (simp add: word_le_nat_alt unat_of_nat)

lemma of_nat_less_iff_64:
  "m < 2 ^ 64 \<Longrightarrow> n < 2 ^ 64 \<Longrightarrow> (of_nat m :: uint64) < of_nat n \<longleftrightarrow> m < n"
  by (simp add: word_less_nat_alt unat_of_nat)

lemma ParseInt_spec:
  assumes "2 \<le> base" "base \<le> 36" "0 < bitSize" "bitSize \<le> 64"
  shows "map_prod sint id (ParseInt s0 base bitSize) = int_spec (nat base) (nat bitSize) s0"
proof (cases s0)
  case Nil
  then show ?thesis by (simp add: ParseInt_def int_spec_def)
next
  case (Cons c cs)
  define s where "s = (if c = CHR ''+'' \<or> c = CHR ''-'' then cs else c # cs)"
  define k where "k = nat bitSize"
  define C where "C = (2::nat) ^ (k - 1)"
  obtain un err where ue: "uint_spec (nat base) (2 ^ k - 1) s = (un, err)" by force
  have pu: "ParseUint s base bitSize = (of_nat un, err)"
    using ParseUint_spec[OF assms, of s] ue k_def by simp
  have k: "1 \<le> k" "k \<le> 64" using assms k_def by simp_all
  have unle: "un \<le> 2 ^ k - 1" using uint_spec_le[of "nat base" "2 ^ k - 1" s] ue by simp
  have "(2::nat) ^ k \<le> 2 ^ 64" using k(2) by (intro power_increasing) simp_all
  moreover have "(2::nat) ^ k - 1 < 2 ^ k" by simp
  ultimately have un64: "un < 2 ^ 64" using unle by linarith
  have C63: "C \<le> 2 ^ 63" unfolding C_def using k(2) by (intro power_increasing) simp_all
  then have C64: "C < 2 ^ 64" by simp
  have Cpos: "0 < C" using C_def by simp
  have "nat (bitSize - 1) = k - 1" using assms(3) k_def by linarith
  then have cw: "push_bit (nat (bitSize - 1)) (1::uint64) = of_nat C"
    using C_def by (simp add: push_bit_of_1)
  have le: "(of_nat C :: uint64) \<le> of_nat un \<longleftrightarrow> C \<le> un" by (rule of_nat_le_iff_64[OF C64 un64])
  have lt: "(of_nat C :: uint64) < of_nat un \<longleftrightarrow> C < un" by (rule of_nat_less_iff_64[OF C64 un64])
  have bits: "(if bitSize = 0 then 64 else bitSize) = bitSize" using assms by simp
  have P: "ParseInt s0 base bitSize =
     (if err \<noteq> None \<and> err \<noteq> Some ErrRange then (0, err)
      else if \<not> c = CHR ''-'' \<and> of_nat C \<le> (of_nat un :: uint64) then (of_nat C - 1, Some ErrRange)
      else if c = CHR ''-'' \<and> of_nat C < (of_nat un :: uint64) then (- of_nat C, Some ErrRange)
      else (if c = CHR ''-'' then - of_nat un else of_nat un, err))"
    unfolding ParseInt_def Cons list.case Let_def s_def [symmetric] pu bits cw by simp
  have I: "int_spec (nat base) (nat bitSize) s0 =
     (if err \<noteq> None \<and> err \<noteq> Some ErrRange then (0, err)
      else if \<not> c = CHR ''-'' \<and> C \<le> un then (int C - 1, Some ErrRange)
      else if c = CHR ''-'' \<and> C < un then (- int C, Some ErrRange)
      else (if c = CHR ''-'' then - int un else int un, err))"
    unfolding int_spec_def Cons list.case Let_def s_def [symmetric] k_def [symmetric] ue C_def [symmetric]
    by simp
  show ?thesis
    unfolding P I le lt
    using C63 Cpos by (auto simp: sint_of_nat_64 sint_neg_of_nat_64 sint_of_nat_minus_one_64)
qed

lemma int_spec_bounds:
  assumes "1 \<le> bits"
  shows "- (2 ^ (bits - 1)) \<le> fst (int_spec base bits s) \<and> fst (int_spec base bits s) \<le> 2 ^ (bits - 1) - 1"
proof (cases s)
  case (Cons c cs)
  define t where "t = (if c = CHR ''+'' \<or> c = CHR ''-'' then cs else c # cs)"
  obtain un err where ue: "uint_spec base (2 ^ bits - 1) t = (un, err)" by force
  have pos: "(0::int) < 2 ^ (bits - Suc 0)" by simp
  show ?thesis
    unfolding int_spec_def Cons list.case Let_def t_def [symmetric] ue prod.case
    by (auto simp: of_nat_less_iff [symmetric] of_nat_le_iff [symmetric]) (use pos in linarith)+
qed (simp add: int_spec_def)

subsection \<open>Inputs made of digits only\<close>

lemma digit_ok_not_sign: "digit_ok base c \<Longrightarrow> c \<noteq> CHR ''-'' \<and> c \<noteq> CHR ''+''"
  by (auto simp: digit_ok_def digit_nat_def digit_of_def lower_def)

lemma digits_value_less:
  "list_all (digit_ok b) s \<Longrightarrow> digits_value b n s < (n + 1) * b ^ length s"
proof (induction s arbitrary: n)
  case (Cons c cs)
  then obtain d where d: "digit_nat c = Some d" "d < b"
    by (auto simp: digit_ok_def split: option.splits)
  then have "digits_value b (n * b + d) cs < (n * b + d + 1) * b ^ length cs"
    using Cons by simp
  also have "\<dots> \<le> (n + 1) * b * b ^ length cs"
    using d(2) by (intro mult_le_mono1) (simp add: algebra_simps)
  finally show ?case using d by (simp add: algebra_simps)
qed simp

lemma uint_spec_all_digits:
  "list_all (digit_ok base) s \<Longrightarrow> s \<noteq> [] \<Longrightarrow>
   uint_spec base maxVal s =
     (if maxVal < digits_value base 0 s then (maxVal, Some ErrRange) else (digits_value base 0 s, None))"
  by (simp add: uint_spec_def takeWhile_eq_all_conv [THEN iffD2] list_all_iff)

lemma int_spec_unsigned:
  assumes "list_all (digit_ok base) s" "s \<noteq> []" "1 \<le> bits"
  shows "int_spec base bits s =
     (if 2 ^ (bits - 1) \<le> digits_value base 0 s then (2 ^ (bits - 1) - 1, Some ErrRange)
      else (int (digits_value base 0 s), None))"
proof -
  obtain c cs where s: "s = c # cs" using assms(2) by (cases s) auto
  have nc: "c \<noteq> CHR ''-'' \<and> c \<noteq> CHR ''+''" using assms(1) s digit_ok_not_sign[of base c] by simp
  have le: "(2::nat) ^ (bits - 1) \<le> 2 ^ bits - 1"
    using assms(3) by (cases bits) simp_all
  show ?thesis
    using nc le unfolding int_spec_def s
    by (auto simp: Let_def uint_spec_all_digits[OF assms(1,2), unfolded s] of_nat_diff)
qed

section \<open>Instances\<close>

text \<open>
  The refinement theorems above applied at concrete inputs: their
  hypotheses are met by the bases and bit sizes the program uses.
\<close>

theorem ParseUint_spec_witness:
  "2 \<le> (16::int) \<and> (16::int) \<le> 36 \<and> 0 < (8::int) \<and> (8::int) \<le> 64 \<and>
   ParseUint ''ff'' 16 8 = map_prod of_nat id (uint_spec (nat 16) (2 ^ nat 8 - 1) ''ff'')"
proof -
  have h: "2 \<le> (16::int)" "(16::int) \<le> 36" "0 < (8::int)" "(8::int) \<le> 64" by simp_all
  show ?thesis using h ParseUint_spec[OF h, of "''ff''"] by blast
qed

theorem ParseInt_spec_witness:
  "2 \<le> (16::int) \<and> (16::int) \<le> 36 \<and> 0 < (25::int) \<and> (25::int) \<le> 64 \<and>
   map_prod sint id (ParseInt ''-ff'' 16 25) = int_spec (nat 16) (nat 25) ''-ff''"
proof -
  have h: "2 \<le> (16::int)" "(16::int) \<le> 36" "0 < (25::int)" "(25::int) \<le> 64" by simp_all
  show ?thesis using h ParseInt_spec[OF h, of "''-ff''"] by blast
qed

theorem parse_uint_digits_scan_ref_witness:
  "unat (16 :: 8 word) = 16 \<and> unat (16 :: uint64) = 16 \<and> 0 < (16::nat) \<and>
   unat (0x1000000000000000 :: uint64) = (2 ^ 64 - 1) div 16 + 1 \<and>
   unat (255 :: uint64) = 255 \<and> unat (0 :: uint64) \<le> 255 \<and>
   parse_uint_digits 16 16 0x1000000000000000 255 0 ''7f'' =
     map_prod of_nat id (scan_ref 16 255 (unat (0 :: uint64)) ''7f'')"
proof -
  have h: "unat (16 :: 8 word) = 16" "unat (16 :: uint64) = 16" "0 < (16::nat)"
    "unat (0x1000000000000000 :: uint64) = (2 ^ 64 - 1) div 16 + 1"
    "unat (255 :: uint64) = 255" "unat (0 :: uint64) \<le> 255" by simp_all
  show ?thesis using h parse_uint_digits_scan_ref[OF h, of "''7f''"] by blast
qed

end
