(* ===== verification/Gotime.thy ===== *)
theory Gotime
  imports Prelude
begin

text \<open>
  Go's \<open>time.Parse\<close> and \<open>Time.Format\<close> for the one layout that
  \<open>TIMESTAMP.Parse\<close> (\<^verbatim>\<open>src/webhook.go\<close>, lines 404 and 408) passes,
  \<open>"2006-01-02 03:04:05.0000"\<close>.  Go's \<^verbatim>\<open>time\<close> package is not part of
  the repository; it is modelled from its implementation, specialised to the
  chunks of that layout: \<open>2006\<close> (\<open>stdLongYear\<close>: four bytes, the first a
  digit, read by \<open>atoi\<close>), \<open>01\<close> and \<open>02\<close> (two-digit month and day),
  \<open>03\<close> (\<open>stdZeroHour12\<close>: the two-digit hour of the 12-hour clock,
  accepted in 0..12), \<open>04\<close> and \<open>05\<close> (minute and second, below 60), and
  \<open>.0000\<close> (\<open>stdFracSecond0\<close>: a period or comma and exactly four
  digits, scaled to nanoseconds), with the literals \<open>-\<close>, \<open>:\<close> and the
  space between them (a space of the layout matches one or more spaces of the
  value, as Go's \<open>skip\<close> does).  The date is validated after the chunks
  (\<open>day \<le> daysIn(month, year)\<close>) and trailing text is an error.
  A \<open>Time\<close> is abstracted to its civil fields: \<open>Parse\<close> only builds
  times from in-range fields, on which Go's \<open>Date\<close> normalisation is the
  identity.  The zero \<open>Time{}\<close> is 0001-01-01 00:00:00 UTC.
\<close>

record gotime =
  tm_year :: int
  tm_month :: int
  tm_day :: int
  tm_hour :: int
  tm_min :: int
  tm_sec :: int
  tm_nsec :: int

datatype time_error = ErrBad | ErrOutOfRange string | ErrDayOutOfRange | ErrExtraText string

definition zero_time :: gotime where
  "zero_time = \<lparr>tm_year = 1, tm_month = 1, tm_day = 1, tm_hour = 0, tm_min = 0, tm_sec = 0, tm_nsec = 0\<rparr>"

section \<open>Parsing helpers of package time\<close>

definition is_digit_at :: "string \<Rightarrow> nat \<Rightarrow> bool" where
  "is_digit_at s i \<longleftrightarrow> i < length s \<and> is_digit (s ! i)"

function skip :: "string \<Rightarrow> string \<Rightarrow> time_error + string" where
  "skip [] value = Inr value"
| "skip (p # ps) value =
     (if p = CHR '' '' then
        (if value \<noteq> [] \<and> hd value \<noteq> CHR '' '' then Inl ErrBad
         else skip (dropWhile (\<lambda>c. c = CHR '' '') ps) (dropWhile (\<lambda>c. c = CHR '' '') value))
      else
        (case value of
           [] \<Rightarrow> Inl ErrBad
         | v # vs \<Rightarrow> if v \<noteq> p then Inl ErrBad else skip ps vs))"
  by pat_completeness auto
termination
  by (relation "measure (\<lambda>(p, v). length p)") (auto simp: le_imp_less_Suc length_dropWhile_le)

definition getnum :: "string \<Rightarrow> bool \<Rightarrow> time_error + int \<times> string" where
  "getnum s fixed =
     (if \<not> is_digit_at s 0 then Inl ErrBad
      else if \<not> is_digit_at s 1 then
        (if fixed then Inl ErrBad else Inr (int (digit_value (s ! 0)), drop 1 s))
      else Inr (int (digit_value (s ! 0)) * 10 + int (digit_value (s ! 1)), drop 2 s))"

definition time_atoi :: "string \<Rightarrow> time_error + int" where
  "time_atoi s0 =
     (let (neg, s) = (case s0 of
                        c # cs \<Rightarrow> if c = CHR ''-'' \<or> c = CHR ''+'' then (c = CHR ''-'', cs) else (False, s0)
                      | [] \<Rightarrow> (False, []));
          q = dec_value (takeWhile is_digit s);
          rem = dropWhile is_digit s
      in if rem \<noteq> [] then Inl ErrBad else Inr (if neg then - int q else int q))"

definition parse_nanoseconds :: "string \<Rightarrow> nat \<Rightarrow> time_error + int" where
  "parse_nanoseconds value nbytes =
     (case value of
        [] \<Rightarrow> Inl ErrBad
      | c # cs \<Rightarrow>
          (if c \<noteq> CHR ''.'' \<and> c \<noteq> CHR '','' then Inl ErrBad
           else sbind (time_atoi (take (nbytes - 1) cs)) (\<lambda>ns.
                if ns < 0 then Inl (ErrOutOfRange ''fractional second'')
                else Inr (ns * 10 ^ (10 - nbytes)))))"

definition is_leap :: "int \<Rightarrow> bool" where
  "is_leap y \<longleftrightarrow> y mod 4 = 0 \<and> (y mod 100 \<noteq> 0 \<or> y mod 400 = 0)"

definition days_in :: "int \<Rightarrow> int \<Rightarrow> int" where
  "days_in m y =
     (if m = 2 \<and> is_leap y then 29
      else [31, 28, 31, 30, 31, 30, 31, 31, 30, 31, 30, 31] ! nat (m - 1))"

section \<open>time.Parse for the layout of TIMESTAMP\<close>

definition time_parse :: "string \<Rightarrow> time_error + gotime" where
  "time_parse v0 =
     (if length v0 < 4 \<or> \<not> is_digit_at v0 0 then Inl ErrBad else
      sbind (time_atoi (take 4 v0)) (\<lambda>year.
      sbind (skip ''-'' (drop 4 v0)) (\<lambda>v.
      sbind (getnum v True) (\<lambda>(month, v).
      if month \<le> 0 \<or> 12 < month then Inl (ErrOutOfRange ''month'') else
      sbind (skip ''-'' v) (\<lambda>v.
      sbind (getnum v True) (\<lambda>(day, v).
      sbind (skip '' '' v) (\<lambda>v.
      sbind (getnum v True) (\<lambda>(hour, v).
      if hour < 0 \<or> 12 < hour then Inl (ErrOutOfRange ''hour'') else
      sbind (skip '':'' v) (\<lambda>v.
      sbind (getnum v True) (\<lambda>(mi, v).
      if mi < 0 \<or> 60 \<le> mi then Inl (ErrOutOfRange ''minute'') else
      sbind (skip '':'' v) (\<lambda>v.
      sbind (getnum v True) (\<lambda>(se, v).
      if se < 0 \<or> 60 \<le> se then Inl (ErrOutOfRange ''second'') else
      if length v < 5 then Inl ErrBad else
      sbind (parse_nanoseconds v 5) (\<lambda>ns.
      if drop 5 v \<noteq> [] then Inl (ErrExtraText (drop 5 v)) else
      if day < 1 \<or> days_in month year < day then Inl ErrDayOutOfRange else
      Inr \<lparr>tm_year = year, tm_month = month, tm_day = day, tm_hour = hour,
           tm_min = mi, tm_sec = se, tm_nsec = ns\<rparr>)))))))))))))"

section \<open>Time.Format for the same layout\<close>

definition hour12 :: "int \<Rightarrow> int" where
  "hour12 h = (if h mod 12 = 0 then 12 else h mod 12)"

definition append_nano :: "int \<Rightarrow> nat \<Rightarrow> string" where
  "append_nano ns n = (let ds = append_int ns 9 in ''.'' @ take (length ds - (9 - n)) ds)"

definition time_format :: "gotime \<Rightarrow> string" where
  "time_format t =
     append_int (tm_year t) 4 @ ''-'' @ append_int (tm_month t) 2 @ ''-'' @ append_int (tm_day t) 2 @
     '' '' @ append_int (hour12 (tm_hour t)) 2 @ '':'' @ append_int (tm_min t) 2 @ '':'' @
     append_int (tm_sec t) 2 @ append_nano (tm_nsec t) 4"

section \<open>Round trip\<close>

text \<open>
  \<open>fixed_digits w x\<close> is the \<open>w\<close> low decimal digits of \<open>x\<close>, most
  significant first: what the formatter's zero-padded \<open>appendInt\<close> writes for
  an in-range value, and what the parser's \<open>getnum\<close> and \<open>atoi\<close> read
  back.  \<open>time_wf\<close> characterises the times that \<open>Format\<close> writes in a
  form \<open>Parse\<close> reads back unchanged: a four-digit year, a valid date, an hour
  of the 12-hour clock (1 to 12), and whole ten-thousandths of a second.
\<close>

primrec fixed_digits :: "nat \<Rightarrow> nat \<Rightarrow> string" where
  "fixed_digits 0 x = []"
| "fixed_digits (Suc w) x = fixed_digits w (x div 10) @ [char_of (48 + x mod 10)]"

definition time_of_fields :: "nat \<Rightarrow> nat \<Rightarrow> nat \<Rightarrow> nat \<Rightarrow> nat \<Rightarrow> nat \<Rightarrow> nat \<Rightarrow> gotime" where
  "time_of_fields Y M D H Mi S F =
     \<lparr>tm_year = int Y, tm_month = int M, tm_day = int D, tm_hour = int H,
      tm_min = int Mi, tm_sec = int S, tm_nsec = int F * 10 ^ 5\<rparr>"

definition stamp_text :: "nat \<Rightarrow> nat \<Rightarrow> nat \<Rightarrow> nat \<Rightarrow> nat \<Rightarrow> nat \<Rightarrow> nat \<Rightarrow> string" where
  "stamp_text Y M D H Mi S F =
     fixed_digits 4 Y @ CHR ''-'' # fixed_digits 2 M @ CHR ''-'' # fixed_digits 2 D @ CHR '' '' #
     fixed_digits 2 H @ CHR '':'' # fixed_digits 2 Mi @ CHR '':'' # fixed_digits 2 S @ CHR ''.'' #
     fixed_digits 4 F"

definition time_wf :: "gotime \<Rightarrow> bool" where
  "time_wf t \<longleftrightarrow>
     0 \<le> tm_year t \<and> tm_year t < 10000 \<and> 1 \<le> tm_month t \<and> tm_month t \<le> 12 \<and>
     1 \<le> tm_day t \<and> tm_day t \<le> days_in (tm_month t) (tm_year t) \<and>
     1 \<le> tm_hour t \<and> tm_hour t \<le> 12 \<and> 0 \<le> tm_min t \<and> tm_min t < 60 \<and>
     0 \<le> tm_sec t \<and> tm_sec t < 60 \<and> 0 \<le> tm_nsec t \<and> tm_nsec t < 10 ^ 9 \<and>
     tm_nsec t mod 10 ^ 5 = 0"


section \<open>Lemmas of the round trip\<close>

lemma length_fixed_digits [simp]: "length (fixed_digits w x) = w"
  by (induction w arbitrary: x) simp_all

lemma fixed_digits_zero: "fixed_digits w 0 = replicate w (CHR ''0'')"
  by (induction w) (simp_all add: replicate_append_same)

lemma fixed_digits_digits: "c \<in> set (fixed_digits w x) \<Longrightarrow> is_digit c"
  by (induction w arbitrary: x) auto

lemma dec_value_fixed_digits: "dec_value (fixed_digits w x) = x mod 10 ^ w"
proof (induction w arbitrary: x)
  case (Suc w)
  have "x mod 10 ^ Suc w = 10 * (x div 10 mod 10 ^ w) + x mod 10"
    by (simp add: mod_mult2_eq mult.commute)
  then show ?case using Suc by simp
qed (simp add: dec_value_def)

lemma zero_pad_snoc: "zero_pad (Suc w) (s @ [c]) = zero_pad w s @ [c]"
  by (simp add: zero_pad_def)

lemma zero_pad_dec_digits: "x < 10 ^ w \<Longrightarrow> 0 < w \<Longrightarrow> zero_pad w (dec_digits x) = fixed_digits w x"
proof (induction w arbitrary: x)
  case 0
  then show ?case by simp
next
  case (Suc w)
  show ?case
  proof (cases "x < 10")
    case True
    then have "fixed_digits w (x div 10) = replicate w (CHR ''0'')" by (simp add: fixed_digits_zero)
    with True show ?thesis by (subst dec_digits.simps) (simp add: zero_pad_def)
  next
    case False
    then have w: "0 < w" using Suc.prems by (cases w) auto
    have lt: "x div 10 < 10 ^ w" using Suc.prems by (simp add: less_mult_imp_div_less mult.commute)
    have "zero_pad (Suc w) (dec_digits x) = zero_pad w (dec_digits (x div 10)) @ [char_of (48 + x mod 10)]"
      using False by (subst dec_digits.simps) (simp add: zero_pad_snoc)
    then show ?thesis using Suc.IH[OF lt w] by simp
  qed
qed

lemma append_int_fixed:
  "0 \<le> x \<Longrightarrow> x < 10 ^ w \<Longrightarrow> 0 < w \<Longrightarrow> append_int x w = fixed_digits w (nat x)"
  by (simp add: append_int_def zero_pad_dec_digits nat_less_iff)

lemma fixed_digits_append:
  "y < 10 ^ b \<Longrightarrow> fixed_digits (a + b) (x * 10 ^ b + y) = fixed_digits a x @ fixed_digits b y"
proof (induction b arbitrary: y x)
  case (Suc b)
  have "(x * 10 ^ Suc b + y) div 10 = x * 10 ^ b + y div 10" by simp
  moreover have "(x * 10 ^ Suc b + y) mod 10 = y mod 10"
    using mod_mult_self3[of "x * 10 ^ b" 10 y] by (simp add: ac_simps)
  moreover have "y div 10 < 10 ^ b" using Suc.prems by (simp add: less_mult_imp_div_less mult.commute)
  ultimately show ?case using Suc.IH by simp
qed simp

lemma digit_value_char_of_mod [simp]: "digit_value (char_of (48 + x mod 10)) = x mod 10"
  by simp

lemma is_digit_not_sign: "is_digit c \<Longrightarrow> c \<noteq> CHR ''-'' \<and> c \<noteq> CHR ''+''"
  by (auto simp: is_digit_def)

lemma getnum_fixed2:
  assumes "m < 100" "\<not> is_digit c"
  shows "getnum (fixed_digits 2 m @ c # r) True = Inr (int m, c # r)"
proof -
  have f: "fixed_digits 2 m = [char_of (48 + m div 10 mod 10), char_of (48 + m mod 10)]"
    by (simp add: numeral_2_eq_2)
  have "int (m div 10) * 10 + int (m mod 10) = int m" by (simp add: zdiv_int zmod_int)
  then show ?thesis using assms
    unfolding getnum_def is_digit_at_def f by simp
qed

lemma time_atoi_digits:
  assumes "s \<noteq> []" "\<forall>c \<in> set s. is_digit c"
  shows "time_atoi s = Inr (int (dec_value s))"
proof (cases s)
  case (Cons c cs)
  then have "c \<noteq> CHR ''-'' \<and> c \<noteq> CHR ''+''" using assms(2) is_digit_not_sign by simp
  then show ?thesis using assms Cons by (simp add: time_atoi_def takeWhile_eq_all_conv [THEN iffD2])
qed (use assms in simp)

lemma time_atoi_fixed:
  "0 < w \<Longrightarrow> x < 10 ^ w \<Longrightarrow> time_atoi (fixed_digits w x) = Inr (int x)"
proof -
  assume "0 < w" "x < 10 ^ w"
  moreover have "fixed_digits w x \<noteq> []" using \<open>0 < w\<close> by (metis length_fixed_digits list.size(3) less_irrefl)
  ultimately show ?thesis
    by (simp add: time_atoi_digits fixed_digits_digits dec_value_fixed_digits)
qed

lemma parse_nanoseconds_fixed4:
  "f < 10 ^ 4 \<Longrightarrow> parse_nanoseconds (CHR ''.'' # fixed_digits 4 f) 5 = Inr (int f * 10 ^ 5)"
  by (simp add: parse_nanoseconds_def time_atoi_fixed)

lemma non_digit_separators [simp]:
  "\<not> is_digit CHR ''-''" "\<not> is_digit CHR '' ''" "\<not> is_digit CHR '':''" "\<not> is_digit CHR ''.''"
  by (simp_all add: is_digit_def)

lemma days_in_le_31: "1 \<le> m \<Longrightarrow> m \<le> 12 \<Longrightarrow> days_in m y \<le> 31"
proof -
  assume "1 \<le> m" "m \<le> 12"
  then have "nat (m - 1) < length [31, 28, 31, 30, 31, 30, 31, 31, 30, 31, 30, 31 :: int]" by simp
  then have "[31, 28, 31, 30, 31, 30, 31, 31, 30, 31, 30, 31 :: int] ! nat (m - 1) \<in> set [31, 28, 31, 30, 31, 30, 31, 31, 30, 31, 30, 31]"
    by (rule nth_mem)
  then show ?thesis by (auto simp: days_in_def)
qed

lemma hour12_id: "1 \<le> h \<Longrightarrow> h \<le> 12 \<Longrightarrow> hour12 h = h"
  by (cases "h = 12") (simp_all add: hour12_def)

lemma append_nano_fixed:
  "F < 10 ^ 4 \<Longrightarrow> append_nano (int F * 10 ^ 5) 4 = CHR ''.'' # fixed_digits 4 F"
proof -
  assume F: "F < 10 ^ 4"
  have "int F * 10 ^ 5 < 10 ^ 9" using F by simp
  then have "append_int (int F * 10 ^ 5) 9 = fixed_digits 9 (F * 10 ^ 5 + 0)"
    by (simp add: append_int_fixed nat_mult_distrib)
  also have "\<dots> = fixed_digits 4 F @ fixed_digits 5 0"
    using fixed_digits_append[of 0 5 4 F] by simp
  finally show ?thesis by (simp add: append_nano_def)
qed

lemma time_format_fields:
  assumes "Y < 10 ^ 4" "M < 100" "D < 100" "1 \<le> H" "H \<le> 12" "Mi < 60" "S < 60" "F < 10 ^ 4"
  shows "time_format (time_of_fields Y M D H Mi S F) = stamp_text Y M D H Mi S F"
  using assms
  by (simp add: time_format_def time_of_fields_def stamp_text_def append_int_fixed hour12_id
      append_nano_fixed [simplified])

lemma fixed_digits_Cons:
  assumes "0 < w" obtains c cs where "fixed_digits w x = c # cs" "is_digit c"
proof -
  from assms obtain c cs where e: "fixed_digits w x = c # cs"
    using length_fixed_digits[of w x] by (cases "fixed_digits w x") auto
  then have "is_digit c" using fixed_digits_digits[of c w x] by simp
  with e show ?thesis by (rule that)
qed

lemma is_digit_at_fixed: "0 < w \<Longrightarrow> is_digit_at (fixed_digits w x @ r) 0"
  by (rule fixed_digits_Cons[of w x]) (simp_all add: is_digit_at_def)

lemma dropWhile_space_fixed:
  "0 < w \<Longrightarrow> dropWhile (\<lambda>c. c = CHR '' '') (fixed_digits w x @ r) = fixed_digits w x @ r"
  by (rule fixed_digits_Cons[of w x]) (auto simp: is_digit_def)

lemma time_parse_fields:
  assumes "Y < 10 ^ 4" "1 \<le> M" "M \<le> 12" "1 \<le> D" "int D \<le> days_in (int M) (int Y)"
    "H \<le> 12" "Mi < 60" "S < 60" "F < 10 ^ 4"
  shows "time_parse (stamp_text Y M D H Mi S F) = Inr (time_of_fields Y M D H Mi S F)"
proof -
  have "D < 100" using assms(2,3,5) days_in_le_31[of "int M" "int Y"] by simp
  then show ?thesis
    using assms
    by (simp add: time_parse_def stamp_text_def time_of_fields_def is_digit_at_fixed dropWhile_space_fixed
        time_atoi_fixed getnum_fixed2 parse_nanoseconds_fixed4 [simplified])
qed

lemma time_wf_fields:
  assumes "time_wf t"
  obtains Y M D H Mi S F where "t = time_of_fields Y M D H Mi S F"
    "Y < 10 ^ 4" "1 \<le> M" "M \<le> 12" "1 \<le> D" "int D \<le> days_in (int M) (int Y)"
    "1 \<le> H" "H \<le> 12" "Mi < 60" "S < 60" "F < 10 ^ 4"
proof
  let ?F = "nat (tm_nsec t) div 10 ^ 5"
  have N: "0 \<le> tm_nsec t" "tm_nsec t mod 10 ^ 5 = 0" using assms by (simp_all add: time_wf_def)
  have "int ?F = tm_nsec t div 10 ^ 5" using N(1) by (simp add: zdiv_int)
  moreover have "tm_nsec t div 10 ^ 5 * 10 ^ 5 = tm_nsec t"
    using N(2) div_mult_mod_eq[of "tm_nsec t" "10 ^ 5"] by simp
  ultimately have n: "tm_nsec t = int ?F * 10 ^ 5" by simp
  show "t = time_of_fields (nat (tm_year t)) (nat (tm_month t)) (nat (tm_day t)) (nat (tm_hour t))
      (nat (tm_min t)) (nat (tm_sec t)) ?F"
    using assms n unfolding time_wf_def time_of_fields_def by (cases t) simp
qed (use assms in \<open>auto simp: time_wf_def\<close>)

lemma hour12_range: "1 \<le> hour12 h \<and> hour12 h \<le> 12"
proof -
  have "0 \<le> h mod 12" "h mod 12 < 12" by simp_all
  then have "h mod 12 \<noteq> 0 \<Longrightarrow> 1 \<le> h mod 12 \<and> h mod 12 \<le> 12" by linarith
  then show ?thesis by (simp add: hour12_def)
qed

lemma time_format_fields_hour12:
  assumes "Y < 10 ^ 4" "M < 100" "D < 100" "Mi < 60" "S < 60" "F < 10 ^ 4"
  shows "time_format (time_of_fields Y M D H Mi S F) = stamp_text Y M D (nat (hour12 (int H))) Mi S F"
proof -
  have "append_int (hour12 (int H)) 2 = fixed_digits 2 (nat (hour12 (int H)))"
    using hour12_range[of "int H"] by (intro append_int_fixed) simp_all
  then show ?thesis
    using assms
    by (simp add: time_format_def time_of_fields_def stamp_text_def append_int_fixed
        append_nano_fixed [simplified])
qed

lemma time_parse_hour_out_of_range:
  assumes "Y < 10 ^ 4" "1 \<le> M" "M \<le> 12" "D < 100" "12 < H" "H < 100"
  shows "time_parse (stamp_text Y M D H Mi S F) = Inl (ErrOutOfRange ''hour'')"
  using assms
  by (simp add: time_parse_def stamp_text_def is_digit_at_fixed dropWhile_space_fixed
      time_atoi_fixed getnum_fixed2)

lemma time_format_zero_time: "time_format zero_time = ''0001-01-01 12:00:00.0000''"
  by code_simp

lemma time_parse_format: "time_wf t \<Longrightarrow> time_parse (time_format t) = Inr t"
proof -
  assume "time_wf t"
  then obtain Y M D H Mi S F where t: "t = time_of_fields Y M D H Mi S F"
    and b: "Y < 10 ^ 4" "1 \<le> M" "M \<le> 12" "1 \<le> D" "int D \<le> days_in (int M) (int Y)"
      "1 \<le> H" "H \<le> 12" "Mi < 60" "S < 60" "F < 10 ^ 4"
    by (rule time_wf_fields)
  have "D < 100" using b(2,3,5) days_in_le_31[of "int M" "int Y"] by simp
  then have "time_format t = stamp_text Y M D H Mi S F"
    using b t by (simp add: time_format_fields)
  then show ?thesis using b t by (simp add: time_parse_fields)
qed


section \<open>Ranges of the parsed fields\<close>

lemma digit_value_less: "is_digit c \<Longrightarrow> digit_value c < 10"
  unfolding is_digit_def digit_value_def by arith

lemma dec_value_less: "\<forall>c\<in>set s. is_digit c \<Longrightarrow> dec_value s < 10 ^ length s"
proof (induction s rule: rev_induct)
  case (snoc c s)
  then have "dec_value s + 1 \<le> 10 ^ length s" "digit_value c < 10" by (simp_all add: digit_value_less)
  then show ?case by simp
qed (simp add: dec_value_def)

lemma time_atoi_digits_of:
  assumes "time_atoi s = Inr q"
  shows "\<exists>s'. (\<forall>c\<in>set s'. is_digit c) \<and> length s' \<le> length s \<and> \<bar>q\<bar> = int (dec_value s') \<and>
           (s \<noteq> [] \<longrightarrow> is_digit (hd s) \<longrightarrow> q = int (dec_value s'))"
proof (cases s)
  case Nil
  then show ?thesis using assms by (simp add: time_atoi_def dec_value_def)
next
  case (Cons c cs)
  show ?thesis
  proof (cases "c = CHR ''-'' \<or> c = CHR ''+''")
    case True
    then have e: "time_atoi s = (if dropWhile is_digit cs = [] then
        Inr (if c = CHR ''-'' then - int (dec_value (takeWhile is_digit cs)) else int (dec_value (takeWhile is_digit cs)))
        else Inl ErrBad)"
      using Cons by (simp add: time_atoi_def Let_def)
    have "(\<forall>x\<in>set cs. is_digit x) \<and> \<bar>q\<bar> = int (dec_value cs)"
      using assms unfolding e by (simp add: dropWhile_eq_Nil_conv takeWhile_eq_all_conv [THEN iffD2] split: if_splits)
    moreover have "\<not> is_digit c" using True is_digit_not_sign[of c] by blast
    ultimately show ?thesis using Cons by (intro exI[of _ cs]) simp
  next
    case False
    then have e: "time_atoi s = (if dropWhile is_digit s = [] then Inr (int (dec_value (takeWhile is_digit s)))
        else Inl ErrBad)"
      using Cons by (simp add: time_atoi_def Let_def)
    have "(\<forall>x\<in>set s. is_digit x) \<and> q = int (dec_value s)"
      using assms unfolding e by (simp add: dropWhile_eq_Nil_conv takeWhile_eq_all_conv [THEN iffD2] split: if_splits)
    then show ?thesis by (intro exI[of _ s]) simp
  qed
qed

lemma time_atoi_bound:
  assumes "time_atoi s = Inr q"
  shows "\<bar>q\<bar> < 10 ^ length s \<and> (s \<noteq> [] \<longrightarrow> is_digit (hd s) \<longrightarrow> 0 \<le> q)"
proof -
  obtain s' where d: "\<forall>c\<in>set s'. is_digit c" and l: "length s' \<le> length s" and a: "\<bar>q\<bar> = int (dec_value s')"
    and p: "s \<noteq> [] \<longrightarrow> is_digit (hd s) \<longrightarrow> q = int (dec_value s')"
    using time_atoi_digits_of[OF assms] by blast
  have "dec_value s' < (10::nat) ^ length s"
    using dec_value_less[OF d] power_increasing[OF l, of "10::nat"] by linarith
  then have "int (dec_value s') < int (10 ^ length s)" by (simp only: of_nat_less_iff)
  then have i: "\<bar>q\<bar> < 10 ^ length s" using a by simp
  have "s \<noteq> [] \<longrightarrow> is_digit (hd s) \<longrightarrow> 0 \<le> q" using p by auto
  with i show ?thesis by blast
qed

lemma parse_nanoseconds_Inr:
  "parse_nanoseconds v 5 = Inr ns \<Longrightarrow> 0 \<le> ns \<and> ns < 10 ^ 9 \<and> ns mod 10 ^ 5 = 0"
proof -
  assume a: "parse_nanoseconds v 5 = Inr ns"
  obtain c cs where v: "v = c # cs" using a by (cases v) (simp_all add: parse_nanoseconds_def)
  obtain q where q: "time_atoi (take 4 cs) = Inr q" and n: "0 \<le> q" "ns = q * 10 ^ 5"
    using a v by (auto simp: parse_nanoseconds_def sbind_eq_Inr_iff split: if_splits)
  have "(10::int) ^ length (take 4 cs) \<le> 10 ^ 4" by (rule power_increasing) simp_all
  moreover have "\<bar>q\<bar> < 10 ^ length (take 4 cs)" using time_atoi_bound[OF q] by blast
  ultimately have "q < 10 ^ 4" using n(1) by linarith
  then have "q * 10 ^ 5 < 10 ^ 4 * 10 ^ 5" by (intro mult_strict_right_mono) simp_all
  then show ?thesis using n by simp
qed
lemma getnum_Inr: "getnum s f = Inr (n, r) \<Longrightarrow> 0 \<le> n \<and> n < 100"
proof -
  assume a: "getnum s f = Inr (n, r)"
  then have d: "is_digit (s ! 0)" by (simp add: getnum_def is_digit_at_def split: if_splits)
  show ?thesis
  proof (cases "is_digit_at s 1")
    case True
    have "n = int (digit_value (s ! 0)) * 10 + int (digit_value (s ! 1))"
      using a d True by (simp add: getnum_def is_digit_at_def [of s 0] split: if_splits)
    moreover have "is_digit (s ! 1)" using True by (simp add: is_digit_at_def)
    ultimately show ?thesis using digit_value_less[OF d] digit_value_less[of "s ! 1"] by simp
  next
    case False
    then have "n = int (digit_value (s ! 0))"
      using a d by (simp add: getnum_def is_digit_at_def [of s 0] split: if_splits)
    then show ?thesis using digit_value_less[OF d] by simp
  qed
qed

lemma time_parse_Inr:
  assumes "time_parse s = Inr t"
  shows "0 \<le> tm_year t \<and> tm_year t < 10000 \<and> 1 \<le> tm_month t \<and> tm_month t \<le> 12 \<and>
     1 \<le> tm_day t \<and> tm_day t \<le> days_in (tm_month t) (tm_year t) \<and>
     0 \<le> tm_hour t \<and> tm_hour t \<le> 12 \<and> 0 \<le> tm_min t \<and> tm_min t < 60 \<and>
     0 \<le> tm_sec t \<and> tm_sec t < 60 \<and> 0 \<le> tm_nsec t \<and> tm_nsec t < 10 ^ 9 \<and> tm_nsec t mod 10 ^ 5 = 0"
proof -
  have l: "4 \<le> length s" "is_digit (s ! 0)"
    using assms by (simp_all add: time_parse_def is_digit_at_def split: if_splits)
  have yb: "\<And>year. time_atoi (take 4 s) = Inr year \<Longrightarrow> 0 \<le> year \<and> year < 10000"
  proof -
    fix year assume y: "time_atoi (take 4 s) = Inr year"
    have "take 4 s \<noteq> [] \<and> hd (take 4 s) = s ! 0 \<and> length (take 4 s) = 4"
      using l(1) by (cases s) simp_all
    then show "0 \<le> year \<and> year < 10000" using time_atoi_bound[OF y] l(2) by auto
  qed
  show ?thesis using assms l
    by (auto simp: time_parse_def sbind_eq_Inr_iff is_digit_at_def split: if_splits prod.splits
        dest!: getnum_Inr parse_nanoseconds_Inr yb)
qed

lemma hour12_idem: "hour12 (hour12 h) = hour12 h"
  using hour12_range[of h] by (simp add: hour12_id)

lemma time_format_hour12: "time_format (t\<lparr>tm_hour := hour12 (tm_hour t)\<rparr>) = time_format t"
  by (simp add: time_format_def hour12_idem)

lemma time_parse_wf: "time_parse s = Inr t \<Longrightarrow> time_wf (t\<lparr>tm_hour := hour12 (tm_hour t)\<rparr>)"
  using time_parse_Inr[of s t] hour12_range[of "tm_hour t"] by (simp add: time_wf_def)

lemma zero_time_wf: "time_wf (zero_time\<lparr>tm_hour := hour12 (tm_hour zero_time)\<rparr>)"
  by (simp add: time_wf_def zero_time_def hour12_def days_in_def)

section \<open>Results\<close>

text \<open>
  The round trip \<open>time_parse_format\<close> above at a leap day: its hypothesis
  \<open>time_wf\<close> is met by concrete times.
\<close>

theorem time_parse_format_witness:
  "time_wf (time_of_fields 2024 2 29 3 4 5 6789) \<and>
   time_parse (time_format (time_of_fields 2024 2 29 3 4 5 6789)) = Inr (time_of_fields 2024 2 29 3 4 5 6789)"
proof -
  have h: "time_wf (time_of_fields 2024 2 29 3 4 5 6789)"
    by (simp add: time_wf_def time_of_fields_def days_in_def is_leap_def)
  show ?thesis using h time_parse_format[OF h] by blast
qed

text \<open>
  The layout's hour chunk \<open>03\<close> is the hour of the 12-hour clock:
  every time that \<open>time.Parse\<close> returns has an hour from 0 to 12, so no
  afternoon hour written as 13 to 23 is ever accepted.
\<close>

theorem time_parse_hour:
  "time_parse s = Inr t \<Longrightarrow> 0 \<le> tm_hour t \<and> tm_hour t \<le> 12"
  unfolding time_parse_def
  by (auto simp: sbind_eq_Inr_iff split: if_splits prod.splits)

theorem time_parse_hour_witness:
  "time_parse (stamp_text 2024 1 2 0 4 5 6789) = Inr (time_of_fields 2024 1 2 0 4 5 6789) \<and>
   0 \<le> tm_hour (time_of_fields 2024 1 2 0 4 5 6789) \<and> tm_hour (time_of_fields 2024 1 2 0 4 5 6789) \<le> 12"
proof -
  have h: "time_parse (stamp_text 2024 1 2 0 4 5 6789) = Inr (time_of_fields 2024 1 2 0 4 5 6789)"
    by (rule time_parse_fields) (simp_all add: days_in_def)
  show ?thesis using h time_parse_hour[OF h] by blast
qed

end
