(* ===== verification/Embed_Parts.thy ===== *)
theory Embed_Parts
  imports Strconv Gotime
begin

text \<open>
  The ten embed parts of \<^verbatim>\<open>src/webhook.go\<close> (lines 218 to 411): one record
  per Go struct, and one rendering function per \<open>Parse\<close> method.  Each part
  renders the empty string when the struct equals its zero value
  (\<open>*c != Empty\<close> in the source) and a JSON fragment otherwise, with the
  source's exact spacing.  Two parts have effects beyond their result:
  \<open>COLOR.Parse\<close> and \<open>TIMESTAMP.Parse\<close> write a log line when parsing
  fails, modelled as the list of \<open>log_entry\<close> values they emit, and
  \<open>URL.Parse\<close> has a pointer receiver and writes the URL into an empty title,
  modelled by returning the updated struct.
\<close>

datatype log_entry = LogNumError num_error | LogTimeError time_error

text \<open>
  Every part is a record; its zero value is the record of empty strings (and
  \<open>False\<close>).  The lemmas \<open>zero_iffs\<close> below turn the source's
  comparison with \<open>Empty\<close> into a statement about the fields.
\<close>

section \<open>COLOR\<close>

record COLOR =
  Color :: string

definition COLOR_Parse :: "COLOR \<Rightarrow> string \<times> log_entry list" where
  "COLOR_Parse c =
     (if c \<noteq> \<lparr>Color = []\<rparr> then
        (let (n, err) = ParseInt (Color c) 16 25
         in (''\"color\": \"'' @ go_itoa (sint n) @ ''\" '',
             case err of None \<Rightarrow> [] | Some e \<Rightarrow> [LogNumError e]))
      else ([], []))"

section \<open>AUTHOR\<close>

record AUTHOR =
  author_Name :: string
  author_URL :: string
  author_IconURL :: string

definition AUTHOR_Parse :: "AUTHOR \<Rightarrow> string" where
  "AUTHOR_Parse c =
     (if c \<noteq> \<lparr>author_Name = [], author_URL = [], author_IconURL = []\<rparr> then
        (let auth = (if author_Name c \<noteq> [] then ''\"name\": \"'' @ author_Name c @ ''\" '' else []);
             auth = (if auth \<noteq> [] then
                       (let a = (if author_URL c \<noteq> [] then auth @ '', \"url\": \"'' @ author_URL c @ ''\" ''
                                 else auth)
                        in if author_IconURL c \<noteq> [] then a @ '', \"icon_url\": \"'' @ author_IconURL c @ ''\" ''
                           else a)
                     else auth)
         in ''\"author\": { '' @ auth @ '' }'')
      else [])"

section \<open>TITLE\<close>

record TITLE =
  Title :: string

definition TITLE_Parse :: "TITLE \<Rightarrow> string" where
  "TITLE_Parse c = (if c \<noteq> \<lparr>Title = []\<rparr> then ''\"title\": \"'' @ Title c @ ''\"'' else [])"

section \<open>URL\<close>

record URL =
  url_Title :: string
  url_URL :: string

definition URL_Parse :: "URL \<Rightarrow> string \<times> URL" where
  "URL_Parse c =
     (if c \<noteq> \<lparr>url_Title = [], url_URL = []\<rparr> then
        (let c = (if url_Title c = [] then c\<lparr>url_Title := url_URL c\<rparr> else c)
         in (''\"title\": \"'' @ url_Title c @ ''\", \"url\": \"'' @ url_URL c @ ''\" '', c))
      else ([], c))"

section \<open>DESCRIPTION\<close>

record DESCRIPTION =
  Description :: string

definition DESCRIPTION_Parse :: "DESCRIPTION \<Rightarrow> string" where
  "DESCRIPTION_Parse c =
     (if c \<noteq> \<lparr>Description = []\<rparr> then '' \"description\": \"'' @ Description c @ ''\" '' else [])"

section \<open>FIELDS\<close>

record FIELDS =
  field_Name :: string
  field_Value :: string
  field_Inline :: bool

definition FIELDS_Parse :: "FIELDS \<Rightarrow> string" where
  "FIELDS_Parse c =
     (if c \<noteq> \<lparr>field_Name = [], field_Value = [], field_Inline = False\<rparr> then
        (let f = (if field_Name c \<noteq> [] then ''\"name\": \"'' @ field_Name c @ ''\" '' else []);
             f = (if field_Value c \<noteq> [] then append_frag f (''\"value\": \"'' @ field_Value c @ ''\" '') else f);
             f = (if field_Inline c \<noteq> False
                  then append_frag f (''\"inline\": \"'' @ go_bool (field_Inline c) @ ''\" '') else f)
         in ''{ '' @ f @ '' }'')
      else [])"

section \<open>IMAGE and THUMBNAIL\<close>

record IMAGE =
  image_URL :: string

definition IMAGE_Parse :: "IMAGE \<Rightarrow> string" where
  "IMAGE_Parse c =
     (if c \<noteq> \<lparr>image_URL = []\<rparr> then ''\"image\": { \"url\": \"'' @ image_URL c @ ''\" }'' else [])"

record THUMBNAIL =
  thumbnail_URL :: string

definition THUMBNAIL_Parse :: "THUMBNAIL \<Rightarrow> string" where
  "THUMBNAIL_Parse c =
     (if c \<noteq> \<lparr>thumbnail_URL = []\<rparr> then ''\"thumbnail\": { \"url\": \"'' @ thumbnail_URL c @ ''\" }'' else [])"

section \<open>FOOTER\<close>

record FOOTER =
  footer_Text :: string
  footer_IconURL :: string

definition FOOTER_Parse :: "FOOTER \<Rightarrow> string" where
  "FOOTER_Parse c =
     (if c \<noteq> \<lparr>footer_Text = [], footer_IconURL = []\<rparr> then
        (let foot = (if footer_Text c \<noteq> [] then ''\"text\": \"'' @ footer_Text c @ ''\"'' else []);
             foot = (if footer_IconURL c \<noteq> [] then append_frag foot (''\"icon_url\": \"'' @ footer_IconURL c @ ''\"'')
                     else foot)
         in ''\"footer\": {'' @ foot @ ''}'')
      else [])"

section \<open>TIMESTAMP\<close>

record TIMESTAMP =
  Time :: string

definition TIMESTAMP_Parse :: "TIMESTAMP \<Rightarrow> string \<times> log_entry list" where
  "TIMESTAMP_Parse c =
     (if c \<noteq> \<lparr>Time = []\<rparr> then
        (let (t, logs) = (case time_parse (Time c) of
                            Inl e \<Rightarrow> (zero_time, [LogTimeError e])
                          | Inr t \<Rightarrow> (t, []))
         in (''\"timestamp\": \"'' @ time_format t @ ''\"'', logs))
      else ([], []))"

text \<open>The time text \<open>TIMESTAMP.Parse\<close> writes: the parsed time, or the zero time after an error, formatted.\<close>

definition timestamp_text :: "TIMESTAMP \<Rightarrow> string" where
  "timestamp_text ts = time_format (case time_parse (Time ts) of Inl _ \<Rightarrow> zero_time | Inr t \<Rightarrow> t)"

section \<open>Comparison with the zero value\<close>

lemma COLOR_zero_iff: "c = \<lparr>Color = []\<rparr> \<longleftrightarrow> Color c = []"
  and AUTHOR_zero_iff: "a = \<lparr>author_Name = [], author_URL = [], author_IconURL = []\<rparr> \<longleftrightarrow>
     author_Name a = [] \<and> author_URL a = [] \<and> author_IconURL a = []"
  and TITLE_zero_iff: "t = \<lparr>Title = []\<rparr> \<longleftrightarrow> Title t = []"
  and URL_zero_iff: "u = \<lparr>url_Title = [], url_URL = []\<rparr> \<longleftrightarrow> url_Title u = [] \<and> url_URL u = []"
  and DESCRIPTION_zero_iff: "d = \<lparr>Description = []\<rparr> \<longleftrightarrow> Description d = []"
  and FIELDS_zero_iff: "f = \<lparr>field_Name = [], field_Value = [], field_Inline = False\<rparr> \<longleftrightarrow>
     field_Name f = [] \<and> field_Value f = [] \<and> \<not> field_Inline f"
  and IMAGE_zero_iff: "i = \<lparr>image_URL = []\<rparr> \<longleftrightarrow> image_URL i = []"
  and THUMBNAIL_zero_iff: "th = \<lparr>thumbnail_URL = []\<rparr> \<longleftrightarrow> thumbnail_URL th = []"
  and FOOTER_zero_iff: "fo = \<lparr>footer_Text = [], footer_IconURL = []\<rparr> \<longleftrightarrow>
     footer_Text fo = [] \<and> footer_IconURL fo = []"
  and TIMESTAMP_zero_iff: "ts = \<lparr>Time = []\<rparr> \<longleftrightarrow> Time ts = []"
  by (cases c, cases a, cases t, cases u, cases d, cases f, cases i, cases th, cases fo, cases ts; auto)+

lemmas zero_iffs [simp, render_simps] =
  COLOR_zero_iff AUTHOR_zero_iff TITLE_zero_iff URL_zero_iff DESCRIPTION_zero_iff FIELDS_zero_iff
  IMAGE_zero_iff THUMBNAIL_zero_iff FOOTER_zero_iff TIMESTAMP_zero_iff

section \<open>Rendering lemmas\<close>

lemma COLOR_Parse_spec:
  "COLOR_Parse c =
     (if Color c = [] then ([], [])
      else (''\"color\": \"'' @ go_itoa (fst (int_spec 16 25 (Color c))) @ ''\" '',
            case snd (int_spec 16 25 (Color c)) of None \<Rightarrow> [] | Some e \<Rightarrow> [LogNumError e]))"
proof -
  obtain a b where P: "ParseInt (Color c) 16 25 = (a, b)" by force
  have "map_prod sint id (ParseInt (Color c) 16 25) = int_spec (nat 16) (nat 25) (Color c)"
    by (rule ParseInt_spec) simp_all
  then have "int_spec 16 25 (Color c) = (sint a, b)" using P by simp
  then show ?thesis using P by (simp add: COLOR_Parse_def)
qed

lemma go_itoa_small [render_simps]: "go_itoa 0 = ''0''" "go_itoa 16777215 = ''16777215''"
  by (simp_all add: go_itoa_def dec_digits.simps)

lemma URL_Parse_idem: "URL_Parse (snd (URL_Parse u)) = URL_Parse u"
  by (simp add: URL_Parse_def)

lemma time_format_not_Nil [simp]: "time_format t \<noteq> []"
  by (simp add: time_format_def)

lemma stamp_text_not_Nil [simp]: "stamp_text Y M D H Mi S F \<noteq> []"
  by (simp add: stamp_text_def)

lemma fst_TIMESTAMP_Parse:
  "fst (TIMESTAMP_Parse ts) = (if Time ts = [] then [] else ''\"timestamp\": \"'' @ timestamp_text ts @ ''\"'')"
  by (simp add: TIMESTAMP_Parse_def timestamp_text_def split: sum.split)

lemma timestamp_text_wf: "\<exists>t. time_wf t \<and> timestamp_text c = time_format t"
proof (cases "time_parse (Time c)")
  case (Inl err)
  then show ?thesis using zero_time_wf
    by (intro exI[of _ "zero_time\<lparr>tm_hour := hour12 (tm_hour zero_time)\<rparr>"])
       (simp add: timestamp_text_def time_format_hour12)
next
  case (Inr t)
  then show ?thesis using time_parse_wf[OF Inr]
    by (intro exI[of _ "t\<lparr>tm_hour := hour12 (tm_hour t)\<rparr>"]) (simp add: timestamp_text_def time_format_hour12)
qed

lemma FIELDS_Parse_Nil_iff:
  "FIELDS_Parse f = [] \<longleftrightarrow> field_Name f = [] \<and> field_Value f = [] \<and> \<not> field_Inline f"
  by (simp add: FIELDS_Parse_def Let_def)

section \<open>Main results\<close>

text \<open>
  C11: \<open>AUTHOR.Parse\<close> writes the URL and icon URL only after a name:
  an author with no name renders the empty object \<open>"author": {  }\<close> as
  soon as any of its fields is set, and nothing when none is.
\<close>

theorem AUTHOR_name_gating:
  "author_Name a = [] \<Longrightarrow>
   AUTHOR_Parse a = (if author_URL a = [] \<and> author_IconURL a = [] then [] else ''\"author\": {  }'')"
  by (simp add: AUTHOR_Parse_def)

theorem AUTHOR_name_gating_witness:
  "author_Name \<lparr>author_Name = [], author_URL = ''u'', author_IconURL = []\<rparr> = [] \<and>
   AUTHOR_Parse \<lparr>author_Name = [], author_URL = ''u'', author_IconURL = []\<rparr> =
     (if author_URL \<lparr>author_Name = [], author_URL = ''u'', author_IconURL = []\<rparr> = [] \<and>
         author_IconURL \<lparr>author_Name = [], author_URL = ''u'', author_IconURL = []\<rparr> = []
      then [] else ''\"author\": {  }'')"
proof -
  have h: "author_Name \<lparr>author_Name = [], author_URL = ''u'', author_IconURL = []\<rparr> = []" by simp
  show ?thesis using h AUTHOR_name_gating[OF h] by blast
qed

text \<open>
  C12: \<open>URL.Parse\<close> with an empty title and a URL uses the URL as the
  title, both in the fragment it returns and in the struct it writes back
  through its pointer receiver.
\<close>

theorem URL_default_title:
  "url_Title u = [] \<Longrightarrow> url_URL u \<noteq> [] \<Longrightarrow>
   URL_Parse u = (''\"title\": \"'' @ url_URL u @ ''\", \"url\": \"'' @ url_URL u @ ''\" '', u\<lparr>url_Title := url_URL u\<rparr>)"
  by (simp add: URL_Parse_def)

theorem URL_default_title_witness:
  "url_Title \<lparr>url_Title = [], url_URL = ''h''\<rparr> = [] \<and> url_URL \<lparr>url_Title = [], url_URL = ''h''\<rparr> \<noteq> [] \<and>
   URL_Parse \<lparr>url_Title = [], url_URL = ''h''\<rparr> =
     (''\"title\": \"'' @ url_URL \<lparr>url_Title = [], url_URL = ''h''\<rparr> @ ''\", \"url\": \"'' @
        url_URL \<lparr>url_Title = [], url_URL = ''h''\<rparr> @ ''\" '',
      \<lparr>url_Title = [], url_URL = ''h''\<rparr>\<lparr>url_Title := url_URL \<lparr>url_Title = [], url_URL = ''h''\<rparr>\<rparr>)"
proof -
  have h: "url_Title \<lparr>url_Title = [], url_URL = ''h''\<rparr> = []" "url_URL \<lparr>url_Title = [], url_URL = ''h''\<rparr> \<noteq> []"
    by simp_all
  show ?thesis using h URL_default_title[OF h] by blast
qed

text \<open>
  C13: a colour of one to six hexadecimal digits is rendered as its decimal
  value, \<open>"color": "<decimal>" \<close>, with no log line.
\<close>

theorem COLOR_Parse_hex:
  assumes "s \<noteq> []" "length s \<le> 6" "list_all (digit_ok 16) s"
  shows "COLOR_Parse \<lparr>Color = s\<rparr> = (''\"color\": \"'' @ dec_digits (digits_value 16 0 s) @ ''\" '', [])"
proof -
  have "digits_value 16 0 s < 16 ^ length s" using digits_value_less[OF assms(3), of 0] by simp
  also have "(16::nat) ^ length s \<le> 16 ^ 6" using assms(2) by (intro power_increasing) simp_all
  finally have "digits_value 16 0 s < 2 ^ 24" by simp
  then have i: "int_spec 16 25 s = (int (digits_value 16 0 s), None)"
    using int_spec_unsigned[OF assms(3,1), of 25] by simp
  show ?thesis unfolding COLOR_Parse_spec using assms(1) by (simp add: i go_itoa_def)
qed

theorem COLOR_Parse_hex_witness:
  "''ff8800'' \<noteq> [] \<and> length ''ff8800'' \<le> 6 \<and> list_all (digit_ok 16) ''ff8800'' \<and>
   COLOR_Parse \<lparr>Color = ''ff8800''\<rparr> = (''\"color\": \"'' @ dec_digits (digits_value 16 0 ''ff8800'') @ ''\" '', [])"
proof -
  have h: "''ff8800'' \<noteq> []" "length ''ff8800'' \<le> 6" "list_all (digit_ok 16) ''ff8800''"
    by (simp_all add: digit_ok_def digit_nat_def digit_of_def lower_def)
  show ?thesis using h COLOR_Parse_hex[OF h] by blast
qed

text \<open>
  C14: a colour that is not a hexadecimal number (and does not start with a
  sign) is rendered as \<open>"color": "0" \<close> and logs a syntax error.
\<close>

theorem COLOR_Parse_malformed:
  assumes "s \<noteq> []" "length s \<le> 6" "\<not> list_all (digit_ok 16) s"
    and "hd s \<noteq> CHR ''-''" "hd s \<noteq> CHR ''+''"
  shows "COLOR_Parse \<lparr>Color = s\<rparr> = (''\"color\": \"0\" '', [LogNumError ErrSyntax])"
proof -
  obtain c cs where s: "s = c # cs" using assms(1) by (cases s) auto
  let ?p = "takeWhile (digit_ok 16) s"
  have pd: "list_all (digit_ok 16) ?p" by (auto simp: list_all_iff dest: set_takeWhileD)
  have "digits_value 16 0 ?p < 16 ^ length ?p" using digits_value_less[OF pd, of 0] by simp
  also have "(16::nat) ^ length ?p \<le> 16 ^ 6"
    using assms(2) length_takeWhile_le[of "digit_ok 16" s] by (intro power_increasing) simp_all
  finally have v: "digits_value 16 0 ?p \<le> 2 ^ 25 - 1" by simp
  have ne: "?p \<noteq> s" using assms(3) by (simp add: takeWhile_eq_all_conv list_all_iff)
  have "uint_spec 16 (2 ^ 25 - 1) s = (0, Some ErrSyntax)"
    using v ne assms(1) unfolding uint_spec_def Let_def by simp
  then have i: "int_spec 16 25 s = (0, Some ErrSyntax)"
    using assms(4,5) s by (simp add: int_spec_def)
  show ?thesis unfolding COLOR_Parse_spec using assms(1) by (simp add: i go_itoa_small)
qed

theorem COLOR_Parse_malformed_witness:
  "''zz'' \<noteq> [] \<and> length ''zz'' \<le> 6 \<and> \<not> list_all (digit_ok 16) ''zz'' \<and>
   hd ''zz'' \<noteq> CHR ''-'' \<and> hd ''zz'' \<noteq> CHR ''+'' \<and>
   COLOR_Parse \<lparr>Color = ''zz''\<rparr> = (''\"color\": \"0\" '', [LogNumError ErrSyntax])"
proof -
  have h: "''zz'' \<noteq> []" "length ''zz'' \<le> 6" "\<not> list_all (digit_ok 16) ''zz''"
    "hd ''zz'' \<noteq> CHR ''-''" "hd ''zz'' \<noteq> CHR ''+''"
    by (simp_all add: digit_ok_def digit_nat_def digit_of_def lower_def)
  show ?thesis using h COLOR_Parse_malformed[OF h] by blast
qed

text \<open>
  C15: a hexadecimal colour of \<open>0x1000000\<close> or more does not fit the 25-bit
  signed range that the source asks for: it is clamped to
  \<open>16777215\<close> (white) and a range error is logged, instead of being
  rejected.
\<close>

theorem COLOR_Parse_overflow:
  assumes "s \<noteq> []" "list_all (digit_ok 16) s" "2 ^ 24 \<le> digits_value 16 0 s"
  shows "COLOR_Parse \<lparr>Color = s\<rparr> = (''\"color\": \"16777215\" '', [LogNumError ErrRange])"
proof -
  have i: "int_spec 16 25 s = (16777215, Some ErrRange)"
    using int_spec_unsigned[OF assms(2,1), of 25] assms(3) by simp
  show ?thesis unfolding COLOR_Parse_spec using assms(1) by (simp add: i go_itoa_small)
qed

theorem COLOR_Parse_overflow_witness:
  "''1000000'' \<noteq> [] \<and> list_all (digit_ok 16) ''1000000'' \<and> 2 ^ 24 \<le> digits_value 16 0 ''1000000'' \<and>
   COLOR_Parse \<lparr>Color = ''1000000''\<rparr> = (''\"color\": \"16777215\" '', [LogNumError ErrRange])"
proof -
  have h: "''1000000'' \<noteq> []" "list_all (digit_ok 16) ''1000000''" "2 ^ 24 \<le> digits_value 16 0 ''1000000''"
    by (simp_all add: digit_ok_def digits_value_def digit_nat_def digit_of_def lower_def)
  show ?thesis using h COLOR_Parse_overflow[OF h] by blast
qed

text \<open>
  C16: \<open>COLOR.Parse\<close> implements its contract: a non-empty colour is
  read by the signed contract \<open>int_spec\<close> in base 16 with 25 bits, the
  number is printed in decimal, and the error, if any, is logged; the zero
  colour renders nothing.
\<close>

theorem COLOR_Parse_contract:
  "COLOR_Parse c =
     (if Color c = [] then ([], [])
      else (''\"color\": \"'' @ go_itoa (fst (int_spec 16 25 (Color c))) @ ''\" '',
            case snd (int_spec 16 25 (Color c)) of None \<Rightarrow> [] | Some e \<Rightarrow> [LogNumError e]))"
  by (rule COLOR_Parse_spec)

text \<open>
  C17: whatever the colour string, the number \<open>COLOR.Parse\<close> prints lies
  in the signed 25-bit range \<open>[-2^24, 2^24 - 1]\<close>.
\<close>

theorem COLOR_Parse_range:
  "Color c \<noteq> [] \<Longrightarrow>
   \<exists>n. - (2 ^ 24) \<le> n \<and> n \<le> 2 ^ 24 - 1 \<and> fst (COLOR_Parse c) = ''\"color\": \"'' @ go_itoa n @ ''\" ''"
proof -
  assume ne: "Color c \<noteq> []"
  have "- (2 ^ 24) \<le> fst (int_spec 16 25 (Color c)) \<and> fst (int_spec 16 25 (Color c)) \<le> 2 ^ 24 - 1"
    using int_spec_bounds[of 25 16 "Color c"] by simp
  then show ?thesis
    using ne by (intro exI[of _ "fst (int_spec 16 25 (Color c))"]) (simp add: COLOR_Parse_spec)
qed

theorem COLOR_Parse_range_witness:
  "Color \<lparr>Color = ''-zz''\<rparr> \<noteq> [] \<and>
   (\<exists>n. - (2 ^ 24) \<le> n \<and> n \<le> 2 ^ 24 - 1 \<and>
        fst (COLOR_Parse \<lparr>Color = ''-zz''\<rparr>) = ''\"color\": \"'' @ go_itoa n @ ''\" '')"
proof -
  have h: "Color \<lparr>Color = ''-zz''\<rparr> \<noteq> []" by simp
  show ?thesis using h COLOR_Parse_range[OF h] by blast
qed

text \<open>
  C18: a timestamp that \<open>Format\<close> of the layout wrote for a well-formed
  time passes through \<open>TIMESTAMP.Parse\<close> unchanged and logs nothing.
\<close>

theorem TIMESTAMP_roundtrip:
  "time_wf t \<Longrightarrow> TIMESTAMP_Parse \<lparr>Time = time_format t\<rparr> = (''\"timestamp\": \"'' @ time_format t @ ''\"'', [])"
  by (simp add: TIMESTAMP_Parse_def time_parse_format)

theorem TIMESTAMP_roundtrip_witness:
  "time_wf (time_of_fields 2024 2 29 3 4 5 6789) \<and>
   TIMESTAMP_Parse \<lparr>Time = time_format (time_of_fields 2024 2 29 3 4 5 6789)\<rparr> =
     (''\"timestamp\": \"'' @ time_format (time_of_fields 2024 2 29 3 4 5 6789) @ ''\"'', [])"
proof -
  have h: "time_wf (time_of_fields 2024 2 29 3 4 5 6789)"
    by (simp add: time_wf_def time_of_fields_def days_in_def is_leap_def)
  show ?thesis using h TIMESTAMP_roundtrip[OF h] by blast
qed

text \<open>
  C19: the hour \<open>00\<close> is accepted by the layout's 12-hour chunk and comes
  back as \<open>12\<close>: \<open>TIMESTAMP.Parse\<close> turns a valid timestamp at hour
  \<open>00\<close> into the same text at hour \<open>12\<close>, without a log line.
\<close>

theorem TIMESTAMP_hour_zero:
  assumes "Y < 10 ^ 4" "1 \<le> M" "M \<le> 12" "1 \<le> D" "int D \<le> days_in (int M) (int Y)"
    "Mi < 60" "S < 60" "F < 10 ^ 4"
  shows "TIMESTAMP_Parse \<lparr>Time = stamp_text Y M D 0 Mi S F\<rparr> =
           (''\"timestamp\": \"'' @ stamp_text Y M D 12 Mi S F @ ''\"'', [])"
proof -
  have p: "time_parse (stamp_text Y M D 0 Mi S F) = Inr (time_of_fields Y M D 0 Mi S F)"
    using assms by (intro time_parse_fields) simp_all
  have "D < 100" using assms(2,3,5) days_in_le_31[of "int M" "int Y"] by simp
  then have "time_format (time_of_fields Y M D 0 Mi S F) = stamp_text Y M D (nat (hour12 (int 0))) Mi S F"
    using assms by (intro time_format_fields_hour12) simp_all
  moreover have "nat (hour12 (int 0)) = 12" by (simp add: hour12_def)
  ultimately show ?thesis using p by (simp add: TIMESTAMP_Parse_def)
qed

theorem TIMESTAMP_hour_zero_witness:
  "(2024::nat) < 10 ^ 4 \<and> 1 \<le> (1::nat) \<and> (1::nat) \<le> 12 \<and> 1 \<le> (2::nat) \<and>
   int 2 \<le> days_in (int 1) (int 2024) \<and> (4::nat) < 60 \<and> (5::nat) < 60 \<and> (6789::nat) < 10 ^ 4 \<and>
   TIMESTAMP_Parse \<lparr>Time = stamp_text 2024 1 2 0 4 5 6789\<rparr> =
     (''\"timestamp\": \"'' @ stamp_text 2024 1 2 12 4 5 6789 @ ''\"'', [])"
proof -
  have h: "(2024::nat) < 10 ^ 4" "1 \<le> (1::nat)" "(1::nat) \<le> 12" "1 \<le> (2::nat)"
    "int 2 \<le> days_in (int 1) (int 2024)" "(4::nat) < 60" "(5::nat) < 60" "(6789::nat) < 10 ^ 4"
    by (simp_all add: days_in_def)
  show ?thesis using h TIMESTAMP_hour_zero[OF h] by blast
qed

text \<open>
  C20: an afternoon hour written on the 24-hour clock (13 to 99 in the hour
  position) is rejected by the layout's 12-hour chunk: \<open>TIMESTAMP.Parse\<close>
  logs the hour range error and emits the zero time
  \<open>0001-01-01 12:00:00.0000\<close> in place of the input.
\<close>

theorem TIMESTAMP_hour_24h_rejected:
  assumes "Y < 10 ^ 4" "1 \<le> M" "M \<le> 12" "D < 100" "12 < H" "H < 100"
  shows "TIMESTAMP_Parse \<lparr>Time = stamp_text Y M D H Mi S F\<rparr> =
           (''\"timestamp\": \"0001-01-01 12:00:00.0000\"'', [LogTimeError (ErrOutOfRange ''hour'')])"
  using time_parse_hour_out_of_range[OF assms, of Mi S F]
  by (simp add: TIMESTAMP_Parse_def time_format_zero_time)

theorem TIMESTAMP_hour_24h_rejected_witness:
  "(2024::nat) < 10 ^ 4 \<and> 1 \<le> (1::nat) \<and> (1::nat) \<le> 12 \<and> (2::nat) < 100 \<and> 12 < (15::nat) \<and> (15::nat) < 100 \<and>
   TIMESTAMP_Parse \<lparr>Time = stamp_text 2024 1 2 15 4 5 6789\<rparr> =
     (''\"timestamp\": \"0001-01-01 12:00:00.0000\"'', [LogTimeError (ErrOutOfRange ''hour'')])"
proof -
  have h: "(2024::nat) < 10 ^ 4" "1 \<le> (1::nat)" "(1::nat) \<le> 12" "(2::nat) < 100" "12 < (15::nat)" "(15::nat) < 100"
    by simp_all
  show ?thesis using h TIMESTAMP_hour_24h_rejected[OF h, of 4 5 6789] by blast
qed

text \<open>
  C21: every timestamp that \<open>time.Parse\<close> rejects is replaced by the zero
  time \<open>0001-01-01 12:00:00.0000\<close>, and the parse error is logged.
\<close>

theorem TIMESTAMP_parse_error:
  "time_parse s = Inl e \<Longrightarrow> s \<noteq> [] \<Longrightarrow>
   TIMESTAMP_Parse \<lparr>Time = s\<rparr> = (''\"timestamp\": \"0001-01-01 12:00:00.0000\"'', [LogTimeError e])"
  by (simp add: TIMESTAMP_Parse_def time_format_zero_time)

theorem TIMESTAMP_parse_error_witness:
  "time_parse ''x'' = Inl ErrBad \<and> ''x'' \<noteq> [] \<and>
   TIMESTAMP_Parse \<lparr>Time = ''x''\<rparr> = (''\"timestamp\": \"0001-01-01 12:00:00.0000\"'', [LogTimeError ErrBad])"
proof -
  have h: "time_parse ''x'' = Inl ErrBad" "''x'' \<noteq> []" by (simp_all add: time_parse_def is_digit_at_def)
  show ?thesis using h TIMESTAMP_parse_error[OF h] by blast
qed

text \<open>
  C22: whatever string the caller sets, a non-empty timestamp renders as
  the \<open>Format\<close> of a well-formed time: four-digit year, a valid
  calendar date, a 12-hour clock hour and four fractional digits.
\<close>

theorem TIMESTAMP_Parse_wellformed:
  "Time c \<noteq> [] \<Longrightarrow>
   \<exists>t. time_wf t \<and> fst (TIMESTAMP_Parse c) = ''\"timestamp\": \"'' @ time_format t @ ''\"''"
  using timestamp_text_wf[of c] by (auto simp: fst_TIMESTAMP_Parse)

theorem TIMESTAMP_Parse_wellformed_witness:
  "Time \<lparr>Time = ''x''\<rparr> \<noteq> [] \<and>
   (\<exists>t. time_wf t \<and> fst (TIMESTAMP_Parse \<lparr>Time = ''x''\<rparr>) = ''\"timestamp\": \"'' @ time_format t @ ''\"'')"
  by (intro conjI) (simp, rule TIMESTAMP_Parse_wellformed, simp)

text \<open>
  C23: \<open>TIMESTAMP.Parse\<close> is idempotent: feeding back the time text it
  wrote, for any non-empty input, reproduces the same fragment and logs
  nothing, even when the input was rejected and replaced by the zero time.
\<close>

theorem TIMESTAMP_Parse_idempotent:
  "Time c \<noteq> [] \<Longrightarrow> TIMESTAMP_Parse \<lparr>Time = timestamp_text c\<rparr> = (fst (TIMESTAMP_Parse c), [])"
proof -
  assume ne: "Time c \<noteq> []"
  obtain t where wf: "time_wf t" and e: "timestamp_text c = time_format t" using timestamp_text_wf by blast
  have l: "TIMESTAMP_Parse \<lparr>Time = time_format t\<rparr> = (''\"timestamp\": \"'' @ time_format t @ ''\"'', [])"
    by (simp add: TIMESTAMP_Parse_def time_parse_format[OF wf])
  have r: "fst (TIMESTAMP_Parse c) = ''\"timestamp\": \"'' @ time_format t @ ''\"''"
    using ne by (simp add: fst_TIMESTAMP_Parse e)
  show ?thesis by (simp only: e l r)
qed

theorem TIMESTAMP_Parse_idempotent_witness:
  "Time \<lparr>Time = ''x''\<rparr> \<noteq> [] \<and>
   TIMESTAMP_Parse \<lparr>Time = timestamp_text \<lparr>Time = ''x''\<rparr>\<rparr> = (fst (TIMESTAMP_Parse \<lparr>Time = ''x''\<rparr>), [])"
  by (intro conjI) (simp, rule TIMESTAMP_Parse_idempotent, simp)

end
