(* ===== verification/Embed.thy ===== *)
theory Embed
  imports Embed_Parts
begin

text \<open>
  The embed aggregator of \<^verbatim>\<open>src/webhook.go\<close>: the struct \<open>EMBEDDED\<close>
  (lines 98 to 109), \<open>parseFields\<close> (lines 122 to 137) and
  \<open>EMBEDDED.Parse\<close> (lines 140 to 216).  \<open>Parse\<close> renders the ten parts in
  the fixed order fields, description, title, author, color, url, image,
  thumbnail, footer, timestamp, joins the non-empty fragments with commas and
  wraps them as \<open>"embeds": [{...}]\<close>; it renders the empty string when every
  part is empty.  Its receiver is a pointer, and \<open>c.URL.Parse()\<close> writes
  the URL into an empty URL title, so the model returns the updated struct
  together with the text and the log entries of the colour and the timestamp.
\<close>

record EMBEDDED =
  emb_Color :: COLOR
  emb_Author :: AUTHOR
  emb_Title :: TITLE
  emb_URL :: URL
  emb_Description :: DESCRIPTION
  emb_Fields :: "FIELDS list"
  emb_Image :: IMAGE
  emb_Thumbnail :: THUMBNAIL
  emb_Footer :: FOOTER
  emb_Timestamp :: TIMESTAMP

definition EMBEDDED_zero :: EMBEDDED where
  "EMBEDDED_zero =
     \<lparr>emb_Color = \<lparr>Color = []\<rparr>,
      emb_Author = \<lparr>author_Name = [], author_URL = [], author_IconURL = []\<rparr>,
      emb_Title = \<lparr>Title = []\<rparr>, emb_URL = \<lparr>url_Title = [], url_URL = []\<rparr>,
      emb_Description = \<lparr>Description = []\<rparr>, emb_Fields = [],
      emb_Image = \<lparr>image_URL = []\<rparr>, emb_Thumbnail = \<lparr>thumbnail_URL = []\<rparr>,
      emb_Footer = \<lparr>footer_Text = [], footer_IconURL = []\<rparr>, emb_Timestamp = \<lparr>Time = []\<rparr>\<rparr>"

definition parseFields :: "EMBEDDED \<Rightarrow> string" where
  "parseFields c =
     (let fields = foldl (\<lambda>acc v. append_frag acc (FIELDS_Parse v)) [] (emb_Fields c)
      in if fields = [] then [] else ''\"fields\": [ '' @ fields @ '' ]'')"

definition EMBEDDED_Parse :: "EMBEDDED \<Rightarrow> string \<times> log_entry list \<times> EMBEDDED" where
  "EMBEDDED_Parse c =
     (let emb = append_frag [] (parseFields c);
          emb = append_frag emb (DESCRIPTION_Parse (emb_Description c));
          emb = append_frag emb (TITLE_Parse (emb_Title c));
          emb = append_frag emb (AUTHOR_Parse (emb_Author c));
          (col, log_col) = COLOR_Parse (emb_Color c);
          emb = append_frag emb col;
          (uri, url') = URL_Parse (emb_URL c);
          c = c\<lparr>emb_URL := url'\<rparr>;
          emb = append_frag emb uri;
          emb = append_frag emb (IMAGE_Parse (emb_Image c));
          emb = append_frag emb (THUMBNAIL_Parse (emb_Thumbnail c));
          emb = append_frag emb (FOOTER_Parse (emb_Footer c));
          (tim, log_tim) = TIMESTAMP_Parse (emb_Timestamp c);
          emb = append_frag emb tim
      in (if emb = [] then [] else ''\"embeds\": [{'' @ emb @ ''}]'', log_col @ log_tim, c))"

text \<open>
  The fragments of \<open>EMBEDDED.Parse\<close> in the order the source appends them.
\<close>

definition embed_frags :: "EMBEDDED \<Rightarrow> string list" where
  "embed_frags c =
     [parseFields c, DESCRIPTION_Parse (emb_Description c), TITLE_Parse (emb_Title c),
      AUTHOR_Parse (emb_Author c), fst (COLOR_Parse (emb_Color c)), fst (URL_Parse (emb_URL c)),
      IMAGE_Parse (emb_Image c), THUMBNAIL_Parse (emb_Thumbnail c), FOOTER_Parse (emb_Footer c),
      fst (TIMESTAMP_Parse (emb_Timestamp c))]"

section \<open>Lemmas\<close>

lemma EMBEDDED_Parse_unfold:
  "EMBEDDED_Parse c =
     (let emb = foldl append_frag [] (embed_frags c)
      in (if emb = [] then [] else ''\"embeds\": [{'' @ emb @ ''}]'',
          snd (COLOR_Parse (emb_Color c)) @ snd (TIMESTAMP_Parse (emb_Timestamp c)),
          c\<lparr>emb_URL := snd (URL_Parse (emb_URL c))\<rparr>))"
  by (simp add: EMBEDDED_Parse_def embed_frags_def Let_def split_def)

lemma EMBEDDED_Parse_text:
  "fst (EMBEDDED_Parse c) =
     (if nonempty (embed_frags c) = [] then []
      else ''\"embeds\": [{'' @ sep_join (nonempty (embed_frags c)) @ ''}]'')"
  by (simp add: EMBEDDED_Parse_unfold foldl_append_frag_Nil Let_def)

lemma EMBEDDED_Parse_snd:
  "snd (EMBEDDED_Parse c) =
     (snd (COLOR_Parse (emb_Color c)) @ snd (TIMESTAMP_Parse (emb_Timestamp c)),
      c\<lparr>emb_URL := snd (URL_Parse (emb_URL c))\<rparr>)"
  by (simp add: EMBEDDED_Parse_unfold Let_def)

lemma EMBEDDED_Parse_zero: "EMBEDDED_Parse EMBEDDED_zero = ([], [], EMBEDDED_zero)"
  by (simp add: EMBEDDED_Parse_unfold embed_frags_def EMBEDDED_zero_def parseFields_def
      DESCRIPTION_Parse_def TITLE_Parse_def AUTHOR_Parse_def COLOR_Parse_def URL_Parse_def
      IMAGE_Parse_def THUMBNAIL_Parse_def FOOTER_Parse_def TIMESTAMP_Parse_def)

lemma parseFields_map: "foldl (\<lambda>acc v. append_frag acc (FIELDS_Parse v)) [] fs = foldl append_frag [] (map FIELDS_Parse fs)"
  by (simp add: foldl_map)

lemma parseFields_text:
  "parseFields c =
     (if nonempty (map FIELDS_Parse (emb_Fields c)) = [] then []
      else ''\"fields\": [ '' @ sep_join (nonempty (map FIELDS_Parse (emb_Fields c))) @ '' ]'')"
  by (simp add: parseFields_def parseFields_map foldl_append_frag_Nil Let_def)

lemma parseFields_Nil_iff:
  "parseFields e = [] \<longleftrightarrow> list_all (\<lambda>f. f = \<lparr>field_Name = [], field_Value = [], field_Inline = False\<rparr>) (emb_Fields e)"
  by (auto simp: parseFields_text FIELDS_Parse_Nil_iff filter_empty_conv list_all_iff)

lemma EMBEDDED_Parse_Nil_iff:
  "fst (EMBEDDED_Parse e) = [] \<longleftrightarrow>
     e\<lparr>emb_Fields := []\<rparr> = EMBEDDED_zero \<and>
     list_all (\<lambda>f. f = \<lparr>field_Name = [], field_Value = [], field_Inline = False\<rparr>) (emb_Fields e)"
  by (cases e) (auto simp: EMBEDDED_Parse_text embed_frags_def parseFields_Nil_iff EMBEDDED_zero_def
      DESCRIPTION_Parse_def TITLE_Parse_def AUTHOR_Parse_def COLOR_Parse_def URL_Parse_def Let_def
      IMAGE_Parse_def THUMBNAIL_Parse_def FOOTER_Parse_def TIMESTAMP_Parse_def split: prod.splits)

section \<open>Main results\<close>

text \<open>
  C5: \<open>EMBEDDED.Parse\<close> emits the non-empty fragments of the ten parts in
  the source's fixed order (fields, description, title, author, color, url,
  image, thumbnail, footer, timestamp), separated by single commas and
  wrapped as \<open>"embeds": [{...}]\<close>, and the empty string when every part is
  empty.
\<close>

theorem EMBEDDED_Parse_order:
  "fst (EMBEDDED_Parse c) =
     (if nonempty (embed_frags c) = [] then []
      else ''\"embeds\": [{'' @ sep_join (nonempty (embed_frags c)) @ ''}]'')"
  by (rule EMBEDDED_Parse_text)

text \<open>
  C6: \<open>parseFields\<close> renders the non-empty fields in list order, comma
  separated, inside \<open>"fields": [ ... ]\<close>, and nothing when every field
  renders empty.
\<close>

theorem parseFields_order:
  "parseFields c =
     (if nonempty (map FIELDS_Parse (emb_Fields c)) = [] then []
      else ''\"fields\": [ '' @ sep_join (nonempty (map FIELDS_Parse (emb_Fields c))) @ '' ]'')"
  by (rule parseFields_text)

text \<open>
  C30: the effects of \<open>EMBEDDED.Parse\<close>: its log lines are those of the
  colour followed by those of the timestamp, and the only field it changes
  is the URL part, which becomes the state \<open>URL.Parse\<close> leaves behind.
\<close>

theorem EMBEDDED_Parse_effects:
  "snd (EMBEDDED_Parse c) =
     (snd (COLOR_Parse (emb_Color c)) @ snd (TIMESTAMP_Parse (emb_Timestamp c)),
      c\<lparr>emb_URL := snd (URL_Parse (emb_URL c))\<rparr>)"
  by (rule EMBEDDED_Parse_snd)

end
