(* ===== verification/Json_Parts.thy ===== *)
theory Json_Parts
  imports Json Embed
begin

text \<open>
  What each part's fragment denotes as JSON.  The source writes the
  caller's strings into JSON string literals without escaping, so the
  results hold for strings of plain characters (\<open>json_safe\<close>).
  \<open>joinable P f xs\<close> says that a fragment of the comma-join loop is
  empty exactly when its members \<open>xs\<close> are, and that \<open>P\<close> (the
  grammar's members or elements) derives it otherwise; \<open>joinable_sep_join\<close>
  lifts this through the join.  The documents of the parts
  (\<open>author_doc\<close>, \<open>field_doc\<close>, \<open>footer_doc\<close>, \<open>color_text\<close>)
  are the keys of spec section 6; numbers and times are rendered with
  plain characters, so every part with plain strings renders its members.
\<close>

definition json_safe :: "string \<Rightarrow> bool" where
  "json_safe s \<longleftrightarrow> list_all json_plain s"

text \<open>A fragment joined by the comma loop: empty, or a text that \<open>P\<close> accepts.\<close>

definition joinable :: "(string \<Rightarrow> 'a list \<Rightarrow> bool) \<Rightarrow> string \<Rightarrow> 'a list \<Rightarrow> bool" where
  "joinable P f xs \<longleftrightarrow> (if f = [] then xs = [] else P f xs)"

section \<open>The documents of the parts\<close>

definition opt_str :: "string \<Rightarrow> string \<Rightarrow> (string \<times> json) list" where
  "opt_str k v = (if v = [] then [] else [(k, JString v)])"

definition author_doc :: "AUTHOR \<Rightarrow> (string \<times> json) list" where
  "author_doc a =
     (if author_Name a = [] then []
      else opt_str ''name'' (author_Name a) @ opt_str ''url'' (author_URL a) @ opt_str ''icon_url'' (author_IconURL a))"

definition field_doc :: "FIELDS \<Rightarrow> (string \<times> json) list" where
  "field_doc f =
     opt_str ''name'' (field_Name f) @ opt_str ''value'' (field_Value f) @
     (if field_Inline f then [(''inline'', JString ''true'')] else [])"

definition footer_doc :: "FOOTER \<Rightarrow> (string \<times> json) list" where
  "footer_doc f = opt_str ''text'' (footer_Text f) @ opt_str ''icon_url'' (footer_IconURL f)"

definition color_text :: "COLOR \<Rightarrow> string" where
  "color_text c = go_itoa (fst (int_spec 16 25 (Color c)))"

section \<open>Lemmas\<close>

lemma json_safe_str_ok: "json_safe s \<Longrightarrow> json_str_ok s"
  by (induction s) (auto simp: json_safe_def json_plain_def)

lemma json_safe_append [simp]: "json_safe (a @ b) \<longleftrightarrow> json_safe a \<and> json_safe b"
  by (simp add: json_safe_def)

lemma json_members_kv:
  assumes "s = wa @ dquote # k @ dquote # wb @ CHR '':'' # wc @ v @ wd"
    and "json_ws wa" "json_ws wb" "json_ws wc" "json_ws wd" "json_safe k" "json_value v x"
  shows "json_members s [(k, x)]"
proof -
  have "json_element (wc @ v @ wd) x" using assms(4,7,5) by (rule jg_element)
  then have "json_member (wa @ dquote # k @ dquote # wb @ CHR '':'' # wc @ v @ wd) (k, x)"
    using assms(2,3,6) json_safe_str_ok by (intro jg_member)
  then show ?thesis unfolding assms(1) by (rule jg_members_one)
qed

lemma json_value_str: "json_safe v \<Longrightarrow> json_value (dquote # v @ [dquote]) (JString v)"
  by (intro jg_str json_safe_str_ok)

lemma json_members_str:
  assumes "s = wa @ dquote # k @ dquote # wb @ CHR '':'' # wc @ dquote # v @ dquote # wd"
    and "json_ws wa" "json_ws wb" "json_ws wc" "json_ws wd" "json_safe k" "json_safe v"
  shows "json_members s [(k, JString v)]"
  by (rule json_members_kv[OF _ assms(2-6) json_value_str[OF assms(7)]]) (simp add: assms(1))

lemma json_safe_lit: "json_safe s \<longleftrightarrow> list_all (\<lambda>c. c \<noteq> dquote \<and> c \<noteq> bslash \<and> 32 \<le> (of_char c :: nat)) s"
  by (induction s) (simp_all add: json_safe_def json_plain_def)

lemmas json_member_simps = json_safe_lit json_ws_simps

lemma joinable_members_append:
  "joinable json_members a xs \<Longrightarrow> joinable json_members b ys \<Longrightarrow> joinable json_members (append_frag a b) (xs @ ys)"
  by (auto simp: joinable_def append_frag_def json_members_append elim: json_members_NilE)

lemma joinable_Nil_iff: "joinable P f xs \<Longrightarrow> (\<And>s. \<not> P s []) \<Longrightarrow> f = [] \<longleftrightarrow> xs = []"
  by (auto simp: joinable_def split: if_splits)

lemma joinable_sep_join:
  assumes "list_all2 (joinable P) fs ds"
    and app: "\<And>a xs b ys. P a xs \<Longrightarrow> P b ys \<Longrightarrow> P (a @ CHR '','' # b) (xs @ ys)"
    and nil: "\<And>s. \<not> P s []"
  shows "joinable P (sep_join (nonempty fs)) (concat ds)"
  using assms(1)
proof (induction rule: list_all2_induct)
  case Nil
  then show ?case by (simp add: joinable_def)
next
  case (Cons f fs d ds)
  show ?case
  proof (cases "f = []")
    case True
    then show ?thesis using Cons by (simp add: joinable_def)
  next
    case False
    then have Pf: "P f d" using Cons.hyps(1) by (simp add: joinable_def)
    show ?thesis
    proof (cases "nonempty fs = []")
      case True
      then have "concat ds = []" using joinable_Nil_iff[OF Cons.IH nil] by simp
      then have e: "d @ concat ds = d" by simp
      have c: "concat (d # ds) = d" using e by simp
      have n: "nonempty (f # fs) = [f]" using False True by simp
      show ?thesis by (simp only: c n sep_join.simps(2)) (simp add: joinable_def False Pf)
    next
      case ne: False
      then have "P (sep_join (nonempty fs)) (concat ds)" using Cons.IH by (simp add: joinable_def)
      moreover have "sep_join (f # nonempty fs) = f @ CHR '','' # sep_join (nonempty fs)"
        using ne by (cases "nonempty fs") simp_all
      ultimately show ?thesis using False Pf nil by (simp add: joinable_def app)
    qed
  qed
qed

subsection \<open>Numbers and times are rendered with plain characters\<close>

lemma is_digit_plain: "is_digit c \<Longrightarrow> json_plain c"
  by (auto simp: is_digit_def json_plain_def)

lemma json_safe_dec_digits [simp]: "json_safe (dec_digits n)"
  using dec_digits_digits is_digit_plain by (auto simp: json_safe_def list_all_iff)

lemma json_safe_Cons: "json_safe (c # s) \<longleftrightarrow> json_plain c \<and> json_safe s"
  and json_safe_Nil [simp]: "json_safe []"
  by (simp_all add: json_safe_def)

lemma json_plain_literals [simp]:
  "json_plain CHR ''-''" "json_plain CHR ''.''" "json_plain CHR '':''" "json_plain CHR '' ''" "json_plain CHR ''0''"
  by (simp_all add: json_plain_def)

lemma json_safe_replicate [simp]: "json_safe (replicate n c) \<longleftrightarrow> n = 0 \<or> json_plain c"
  by (induction n) (auto simp: json_safe_Cons)

lemma json_safe_go_itoa [simp]: "json_safe (go_itoa n)"
  by (simp add: go_itoa_def json_safe_Cons)

lemma json_safe_append_int [simp]: "json_safe (append_int x w)"
  by (simp add: append_int_def zero_pad_def json_safe_Cons)

lemma json_safe_take: "json_safe s \<Longrightarrow> json_safe (take n s)"
  by (auto simp: json_safe_def list_all_iff dest: in_set_takeD)

lemma json_safe_time_format [simp]: "json_safe (time_format t)"
  by (simp add: time_format_def append_nano_def Let_def json_safe_take json_safe_Cons)

subsection \<open>Each part renders the members of its document\<close>

lemma json_safe_keys [simp]:
  "json_safe ''username''" "json_safe ''avatar_url''" "json_safe ''content''" "json_safe ''tts''"
  "json_safe ''embeds''" "json_safe ''fields''" "json_safe ''description''" "json_safe ''title''"
  "json_safe ''author''" "json_safe ''color''" "json_safe ''url''" "json_safe ''image''"
  "json_safe ''thumbnail''" "json_safe ''footer''" "json_safe ''timestamp''" "json_safe ''name''"
  "json_safe ''icon_url''" "json_safe ''value''" "json_safe ''inline''" "json_safe ''text''" "json_safe ''true''"
  by code_simp+

lemma fst_COLOR_Parse:
  "fst (COLOR_Parse c) = (if Color c = [] then [] else ''\"color\": \"'' @ color_text c @ ''\" '')"
  by (simp add: COLOR_Parse_spec color_text_def)

lemma json_members_text_not_Nil: "json_members s kvs \<Longrightarrow> s \<noteq> []"
  by (auto elim!: json_members.cases json_memberE)

lemma joinable_of_members: "json_members f xs \<Longrightarrow> joinable json_members f xs"
  using json_members_text_not_Nil by (auto simp: joinable_def)

lemma joinable_member:
  assumes "f = (if b then [] else wa @ dquote # k @ dquote # wb @ CHR '':'' # wc @ v @ wd)"
    and "d = (if b then [] else [(k, x)])"
    and "json_ws wa" "json_ws wb" "json_ws wc" "json_ws wd" "json_safe k" "\<not> b \<Longrightarrow> json_value v x"
  shows "joinable json_members f d"
proof (cases b)
  case False
  then have "json_members f [(k, x)]"
    using assms(1,3-8) by (intro json_members_kv[of f wa k wb wc v wd]) simp_all
  then show ?thesis using False assms(1,2) by (simp add: joinable_def)
qed (simp add: assms(1,2) joinable_def)

lemma joinable_member_v:
  assumes "f = (if b then [] else wa @ dquote # k @ dquote # wb @ CHR '':'' # wc @ v @ wd)"
    and "d = (if b then [] else [(k, x)])"
    and "json_ws wa" "json_ws wb" "json_ws wc" "json_ws wd" "json_safe k" "json_value v x"
  shows "joinable json_members f d"
  using assms by (intro joinable_member[of f b wa k wb wc v wd d x])

lemma joinable_member_str:
  assumes "f = (if v = [] then [] else wa @ dquote # k @ dquote # wb @ CHR '':'' # wc @ dquote # v @ dquote # wd)"
    and "json_ws wa" "json_ws wb" "json_ws wc" "json_ws wd" "json_safe k" "json_safe v"
  shows "joinable json_members f (opt_str k v)"
  using assms json_value_str[OF assms(7)]
  by (intro joinable_member[of f "v = []" wa k wb wc "dquote # v @ [dquote]" wd]) (simp_all add: opt_str_def)

lemma TITLE_json: "json_safe (Title t) \<Longrightarrow> joinable json_members (TITLE_Parse t) (opt_str ''title'' (Title t))"
  by (rule joinable_member_str[where wa = "[]" and wb = "[]" and wc = "'' ''" and wd = "[]"])
    (simp_all add: TITLE_Parse_def)

lemma DESCRIPTION_json:
  "json_safe (Description d) \<Longrightarrow> joinable json_members (DESCRIPTION_Parse d) (opt_str ''description'' (Description d))"
  by (rule joinable_member_str[where wa = "'' ''" and wb = "[]" and wc = "'' ''" and wd = "'' ''"])
    (simp_all add: DESCRIPTION_Parse_def)

lemma json_safe_color_text [simp]: "json_safe (color_text c)"
  by (simp add: color_text_def)

lemma json_safe_timestamp_text [simp]: "json_safe (timestamp_text ts)"
  by (simp add: timestamp_text_def)

lemma COLOR_json:
  "joinable json_members (fst (COLOR_Parse c))
     (if Color c = [] then [] else [(''color'', JString (color_text c))])"
proof -
  have v: "json_value (dquote # color_text c @ [dquote]) (JString (color_text c))"
    by (rule json_value_str) simp
  show ?thesis
    by (rule joinable_member[where b = "Color c = []" and wa = "[]" and k = "''color''" and wb = "[]"
          and wc = "'' ''" and wd = "'' ''" and v = "dquote # color_text c @ [dquote]" and x = "JString (color_text c)"])
      (simp_all add: fst_COLOR_Parse v)
qed

lemma TIMESTAMP_json:
  "joinable json_members (fst (TIMESTAMP_Parse ts))
     (if Time ts = [] then [] else [(''timestamp'', JString (timestamp_text ts))])"
proof -
  have v: "json_value (dquote # timestamp_text ts @ [dquote]) (JString (timestamp_text ts))"
    by (rule json_value_str) simp
  show ?thesis
    by (rule joinable_member[where b = "Time ts = []" and wa = "[]" and k = "''timestamp''" and wb = "[]"
          and wc = "'' ''" and wd = "[]" and v = "dquote # timestamp_text ts @ [dquote]"
          and x = "JString (timestamp_text ts)"])
      (simp_all add: fst_TIMESTAMP_Parse v)
qed

lemma URL_json:
  assumes "json_safe (url_Title u)" "json_safe (url_URL u)"
  shows "joinable json_members (fst (URL_Parse u))
     (if url_Title u = [] \<and> url_URL u = [] then []
      else [(''title'', JString (if url_Title u = [] then url_URL u else url_Title u)), (''url'', JString (url_URL u))])"
proof (cases "url_Title u = [] \<and> url_URL u = []")
  case False
  define T where "T = (if url_Title u = [] then url_URL u else url_Title u)"
  have sT: "json_safe T" using assms by (simp add: T_def)
  have m1: "json_members (''\"title\": \"'' @ T @ ''\"'') [(''title'', JString T)]"
    by (rule json_members_str[where wa = "[]" and wb = "[]" and wc = "'' ''" and wd = "[]"]) (simp_all add: sT)
  have m2: "json_members ('' \"url\": \"'' @ url_URL u @ ''\" '') [(''url'', JString (url_URL u))]"
    by (rule json_members_str[where wa = "'' ''" and wb = "[]" and wc = "'' ''" and wd = "'' ''"]) (simp_all add: assms)
  have "json_members ((''\"title\": \"'' @ T @ ''\"'') @ CHR '','' # ('' \"url\": \"'' @ url_URL u @ ''\" ''))
          ([(''title'', JString T)] @ [(''url'', JString (url_URL u))])"
    using m1 m2 by (rule json_members_append)
  then have j: "joinable json_members ((''\"title\": \"'' @ T @ ''\"'') @ CHR '','' # ('' \"url\": \"'' @ url_URL u @ ''\" ''))
          [(''title'', JString T), (''url'', JString (url_URL u))]"
    by (simp add: joinable_of_members)
  have e: "fst (URL_Parse u) = (''\"title\": \"'' @ T @ ''\"'') @ CHR '','' # ('' \"url\": \"'' @ url_URL u @ ''\" '')"
    using False by (simp add: URL_Parse_def T_def)
  have d: "(if url_Title u = [] \<and> url_URL u = [] then []
      else [(''title'', JString (if url_Title u = [] then url_URL u else url_Title u)), (''url'', JString (url_URL u))])
      = [(''title'', JString T), (''url'', JString (url_URL u))]"
    using False by (simp add: T_def)
  show ?thesis unfolding e d by (rule j)
qed (simp add: joinable_def URL_Parse_def)

lemma json_value_url_object:
  "json_safe u \<Longrightarrow> json_value (''{ \"url\": \"'' @ u @ ''\" }'') (JObject [(''url'', JString u)])"
proof -
  assume s: "json_safe u"
  have "json_members ('' \"url\": \"'' @ u @ ''\" '') [(''url'', JString u)]"
    by (rule json_members_str[where wa = "'' ''" and wb = "[]" and wc = "'' ''" and wd = "'' ''"]) (simp_all add: s)
  then have "json_value (CHR ''{'' # ('' \"url\": \"'' @ u @ ''\" '') @ ''}'') (JObject [(''url'', JString u)])"
    by (rule jg_obj)
  then show ?thesis by simp
qed

lemma IMAGE_json:
  assumes "json_safe (image_URL i)"
  shows "joinable json_members (IMAGE_Parse i)
     (if image_URL i = [] then [] else [(''image'', JObject [(''url'', JString (image_URL i))])])"
  by (rule joinable_member_v[where b = "image_URL i = []" and wa = "[]" and k = "''image''" and wb = "[]"
        and wc = "'' ''" and wd = "[]", OF _ _ _ _ _ _ _ json_value_url_object[OF assms]])
    (simp_all add: IMAGE_Parse_def)

lemma THUMBNAIL_json:
  assumes "json_safe (thumbnail_URL t)"
  shows "joinable json_members (THUMBNAIL_Parse t)
     (if thumbnail_URL t = [] then [] else [(''thumbnail'', JObject [(''url'', JString (thumbnail_URL t))])])"
  by (rule joinable_member_v[where b = "thumbnail_URL t = []" and wa = "[]" and k = "''thumbnail''" and wb = "[]"
        and wc = "'' ''" and wd = "[]", OF _ _ _ _ _ _ _ json_value_url_object[OF assms]])
    (simp_all add: THUMBNAIL_Parse_def)

lemma json_members_snoc_opt:
  assumes "json_members a xs" "json_safe k" "json_safe v" "t = CHR '','' # '' \"'' @ k @ ''\": \"'' @ v @ ''\" ''"
  shows "json_members (if v \<noteq> [] then a @ t else a) (xs @ opt_str k v)"
proof (cases "v = []")
  case False
  have "json_members ('' \"'' @ k @ ''\": \"'' @ v @ ''\" '') [(k, JString v)]"
    by (rule json_members_str[where wa = "'' ''" and wb = "[]" and wc = "'' ''" and wd = "'' ''"]) (simp_all add: assms)
  then have "json_members (a @ CHR '','' # ('' \"'' @ k @ ''\": \"'' @ v @ ''\" '')) (xs @ [(k, JString v)])"
    using assms(1) by (intro json_members_append)
  then show ?thesis using False by (simp add: opt_str_def assms(4))
qed (simp add: assms(1) opt_str_def)

lemma json_value_braced:
  assumes "joinable json_members m kvs"
  shows "json_value (''{ '' @ m @ '' }'') (JObject kvs)"
proof (cases "m = []")
  case True
  then have "kvs = []" using assms by (simp add: joinable_def)
  moreover have "json_value (CHR ''{'' # ''  '' @ ''}'') (JObject [])" by (rule jg_obj_empty) simp
  ultimately show ?thesis using True by simp
next
  case False
  then have "json_members m kvs" using assms by (simp add: joinable_def)
  then have "json_members ('' '' @ m @ '' '') kvs"
    by (intro json_members_ws_prefix json_members_ws_suffix) simp_all
  then have "json_value (CHR ''{'' # ('' '' @ m @ '' '') @ ''}'') (JObject kvs)" by (rule jg_obj)
  then show ?thesis by simp
qed

lemma AUTHOR_json:
  assumes "json_safe (author_Name a)" "json_safe (author_URL a)" "json_safe (author_IconURL a)"
  shows "joinable json_members (AUTHOR_Parse a)
     (if author_Name a = [] \<and> author_URL a = [] \<and> author_IconURL a = [] then []
      else [(''author'', JObject (author_doc a))])"
proof -
  define N where "N = ''\"name\": \"'' @ author_Name a @ ''\" ''"
  define B where "B = (if author_URL a \<noteq> [] then N @ '', \"url\": \"'' @ author_URL a @ ''\" '' else N)"
  define auth where
    "auth = (if author_Name a = [] then []
             else if author_IconURL a \<noteq> [] then B @ '', \"icon_url\": \"'' @ author_IconURL a @ ''\" '' else B)"
  have e: "AUTHOR_Parse a =
     (if author_Name a = [] \<and> author_URL a = [] \<and> author_IconURL a = [] then [] else ''\"author\": { '' @ auth @ '' }'')"
    by (simp add: AUTHOR_Parse_def auth_def B_def N_def Let_def)
  have j: "joinable json_members auth (author_doc a)"
  proof (cases "author_Name a = []")
    case True
    then show ?thesis by (simp add: joinable_def auth_def author_doc_def)
  next
    case False
    have "json_members N [(''name'', JString (author_Name a))]" unfolding N_def
      by (rule json_members_str[where wa = "[]" and wb = "[]" and wc = "'' ''" and wd = "'' ''"]) (simp_all add: assms)
    then have "json_members B ([(''name'', JString (author_Name a))] @ opt_str ''url'' (author_URL a))"
      unfolding B_def using assms(2)
      by (rule json_members_snoc_opt[OF _ json_safe_keys(11)]) simp
    then have "json_members auth (([(''name'', JString (author_Name a))] @ opt_str ''url'' (author_URL a)) @
        opt_str ''icon_url'' (author_IconURL a))"
      unfolding auth_def using assms(3)
      by (simp only: False if_False) (rule json_members_snoc_opt[OF _ json_safe_keys(17)], simp_all)
    then show ?thesis using False by (simp add: joinable_of_members author_doc_def opt_str_def)
  qed
  show ?thesis
    by (rule joinable_member_v[where b = "author_Name a = [] \<and> author_URL a = [] \<and> author_IconURL a = []"
          and wa = "[]" and k = "''author''" and wb = "[]" and wc = "'' ''" and wd = "[]",
          OF _ _ _ _ _ _ _ json_value_braced[OF j]])
      (simp_all add: e)
qed

lemma FIELDS_Parse_frags:
  "FIELDS_Parse f =
     (if field_doc f = [] then []
      else ''{ '' @ append_frag (append_frag
              (if field_Name f = [] then [] else ''\"name\": \"'' @ field_Name f @ ''\" '')
              (if field_Value f = [] then [] else ''\"value\": \"'' @ field_Value f @ ''\" ''))
              (if \<not> field_Inline f then [] else ''\"inline\": \"true\" '') @ '' }'')"
  by (simp add: FIELDS_Parse_def Let_def field_doc_def opt_str_def go_bool_def)

lemma field_members:
  assumes "json_safe (field_Name f)" "json_safe (field_Value f)"
  shows "joinable json_members
     (append_frag (append_frag
        (if field_Name f = [] then [] else ''\"name\": \"'' @ field_Name f @ ''\" '')
        (if field_Value f = [] then [] else ''\"value\": \"'' @ field_Value f @ ''\" ''))
        (if \<not> field_Inline f then [] else ''\"inline\": \"true\" ''))
     (field_doc f)"
proof -
  have n: "joinable json_members (if field_Name f = [] then [] else ''\"name\": \"'' @ field_Name f @ ''\" '')
      (opt_str ''name'' (field_Name f))"
    by (rule joinable_member_str[where wa = "[]" and wb = "[]" and wc = "'' ''" and wd = "'' ''"]) (simp_all add: assms)
  have v: "joinable json_members (if field_Value f = [] then [] else ''\"value\": \"'' @ field_Value f @ ''\" '')
      (opt_str ''value'' (field_Value f))"
    by (rule joinable_member_str[where wa = "[]" and wb = "[]" and wc = "'' ''" and wd = "'' ''"]) (simp_all add: assms)
  have i: "joinable json_members (if \<not> field_Inline f then [] else ''\"inline\": \"true\" '')
      (if \<not> field_Inline f then [] else [(''inline'', JString ''true'')])"
    by (rule joinable_member_v[where b = "\<not> field_Inline f" and wa = "[]" and k = "''inline''" and wb = "[]"
          and wc = "'' ''" and wd = "'' ''", OF _ _ _ _ _ _ _ json_value_str[OF json_safe_keys(21)]])
      simp_all
  have "(opt_str ''name'' (field_Name f) @ opt_str ''value'' (field_Value f)) @
        (if \<not> field_Inline f then [] else [(''inline'', JString ''true'')]) = field_doc f"
    by (simp add: field_doc_def)
  then show ?thesis using joinable_members_append[OF joinable_members_append[OF n v] i] by simp
qed

lemma FIELDS_json:
  assumes "json_safe (field_Name f)" "json_safe (field_Value f)"
  shows "joinable json_elements (FIELDS_Parse f) (if field_doc f = [] then [] else [JObject (field_doc f)])"
proof (cases "field_doc f = []")
  case False
  have "json_value (FIELDS_Parse f) (JObject (field_doc f))"
    unfolding FIELDS_Parse_frags using False by (simp only: if_False) (rule json_value_braced[OF field_members[OF assms]])
  then show ?thesis using False by (simp add: joinable_def json_elements_value FIELDS_Parse_Nil_iff field_doc_def opt_str_def)
qed (simp add: joinable_def FIELDS_Parse_frags)

lemma FOOTER_json:
  assumes "json_safe (footer_Text f)" "json_safe (footer_IconURL f)"
  shows "joinable json_members (FOOTER_Parse f)
     (if footer_doc f = [] then [] else [(''footer'', JObject (footer_doc f))])"
proof -
  define F where "F = append_frag (if footer_Text f = [] then [] else ''\"text\": \"'' @ footer_Text f @ ''\"'')
    (if footer_IconURL f = [] then [] else ''\"icon_url\": \"'' @ footer_IconURL f @ ''\"'')"
  have e: "FOOTER_Parse f = (if footer_doc f = [] then [] else ''\"footer\": {'' @ F @ ''}'')"
    by (simp add: FOOTER_Parse_def F_def Let_def footer_doc_def opt_str_def)
  have t: "joinable json_members (if footer_Text f = [] then [] else ''\"text\": \"'' @ footer_Text f @ ''\"'')
      (opt_str ''text'' (footer_Text f))"
    by (rule joinable_member_str[where wa = "[]" and wb = "[]" and wc = "'' ''" and wd = "[]"]) (simp_all add: assms)
  have i: "joinable json_members (if footer_IconURL f = [] then [] else ''\"icon_url\": \"'' @ footer_IconURL f @ ''\"'')
      (opt_str ''icon_url'' (footer_IconURL f))"
    by (rule joinable_member_str[where wa = "[]" and wb = "[]" and wc = "'' ''" and wd = "[]"]) (simp_all add: assms)
  have j: "joinable json_members F (footer_doc f)"
    unfolding F_def footer_doc_def by (rule joinable_members_append[OF t i])
  have v: "\<not> footer_doc f = [] \<Longrightarrow> json_value (CHR ''{'' # F @ ''}'') (JObject (footer_doc f))"
    using j by (intro jg_obj) (simp add: joinable_def split: if_splits)
  show ?thesis
    by (rule joinable_member[where b = "footer_doc f = []" and wa = "[]" and k = "''footer''" and wb = "[]"
          and wc = "'' ''" and wd = "[]" and v = "CHR ''{'' # F @ ''}''" and x = "JObject (footer_doc f)"])
      (simp_all add: e v)
qed

lemma list_all2_map_same: "(\<And>x. x \<in> set xs \<Longrightarrow> R (f x) (g x)) \<Longrightarrow> list_all2 R (map f xs) (map g xs)"
  by (induction xs) auto

lemma concat_field_docs:
  "concat (map (\<lambda>f. if field_doc f = [] then [] else [JObject (field_doc f)]) fs) =
   map (\<lambda>f. JObject (field_doc f)) [f \<leftarrow> fs. field_doc f \<noteq> []]"
  by (induction fs) auto

lemma parseFields_json:
  assumes "list_all (\<lambda>f. json_safe (field_Name f) \<and> json_safe (field_Value f)) (emb_Fields e)"
  shows "joinable json_members (parseFields e)
     (let fs = [f \<leftarrow> emb_Fields e. field_doc f \<noteq> []]
      in if fs = [] then [] else [(''fields'', JArray (map (\<lambda>f. JObject (field_doc f)) fs))])"
proof -
  define S where "S = sep_join (nonempty (map FIELDS_Parse (emb_Fields e)))"
  define D where "D = map (\<lambda>f. JObject (field_doc f)) [f \<leftarrow> emb_Fields e. field_doc f \<noteq> []]"
  have "list_all2 (joinable json_elements) (map FIELDS_Parse (emb_Fields e))
          (map (\<lambda>f. if field_doc f = [] then [] else [JObject (field_doc f)]) (emb_Fields e))"
    using assms by (intro list_all2_map_same FIELDS_json) (auto simp: list_all_iff)
  then have j: "joinable json_elements S D"
    unfolding S_def D_def concat_field_docs [symmetric]
    by (rule joinable_sep_join) (auto intro: json_elements_append elim: json_elements_NilE)
  have e: "parseFields e = (if S = [] then [] else ''\"fields\": [ '' @ S @ '' ]'')"
    by (simp add: parseFields_text S_def)
  have SD: "S = [] \<longleftrightarrow> D = []"
    using j by (rule joinable_Nil_iff) (auto elim: json_elements_NilE)
  have v: "S \<noteq> [] \<Longrightarrow> json_value (CHR ''['' # ('' '' @ S @ '' '') @ '']'') (JArray D)"
    using j by (intro jg_arr json_elements_ws_prefix json_elements_ws_suffix) (simp_all add: joinable_def)
  have d: "(let fs = [f \<leftarrow> emb_Fields e. field_doc f \<noteq> []]
      in if fs = [] then [] else [(''fields'', JArray (map (\<lambda>f. JObject (field_doc f)) fs))]) =
      (if S = [] then [] else [(''fields'', JArray D)])"
    using SD by (simp add: D_def Let_def)
  show ?thesis unfolding d
    by (rule joinable_member[where b = "S = []" and wa = "[]" and k = "''fields''" and wb = "[]"
          and wc = "'' ''" and wd = "[]", OF _ _ _ _ _ _ _ v])
      (simp_all add: e)
qed

end
