(* ===== verification/Hook.thy ===== *)
theory Hook
  imports Embed
begin

text \<open>
  The message builder and its transport, \<^verbatim>\<open>src/webhook.go\<close> lines 12 to 95:
  \<open>Identity\<close> and \<open>WebHook\<close> (which copies an identity into a fresh
  \<open>Hook\<close>), \<open>Hook\<close>, \<open>Close\<close>, \<open>JSONRequest\<close> and \<open>SendWebHook\<close>.
  \<open>JSONRequest\<close> joins the non-empty fragments of username, avatar URL,
  content, TTS flag and embed with commas and wraps them in \<open>{ ... }\<close>; its
  pointer receiver passes the URL-title write of the embed on to the hook, so
  the model returns the updated hook.  The HTTP layer is an interface: the
  model of \<open>SendWebHook\<close> is parameterised by \<open>new_request_ok\<close>, whether
  \<open>http.NewRequest\<close> accepts the URL (it parses it), and by \<open>client_do\<close>,
  which performs a request and returns the response status line or a
  transport error of an arbitrary type \<open>'e\<close>.  A Go panic is a value of
  \<open>'e panic\<close>.
\<close>

record Identity =
  Username :: string
  AvatarURL :: string
  WebHookURL :: string

record Hook =
  username :: string
  avatarURL :: string
  webHookURL :: string
  Content :: string
  Tts :: bool
  Embedded :: EMBEDDED

definition WebHook :: "Identity \<Rightarrow> Hook" where
  "WebHook c =
     \<lparr>username = Username c, avatarURL = AvatarURL c, webHookURL = WebHookURL c,
      Content = [], Tts = False, Embedded = EMBEDDED_zero\<rparr>"

definition Close :: "Hook \<Rightarrow> Hook" where
  "Close c = c"

definition JSONRequest :: "Hook \<Rightarrow> string \<times> log_entry list \<times> Hook" where
  "JSONRequest c =
     (let req = [];
          req = (if username c \<noteq> [] then append_frag req (''\"username\":\"'' @ username c @ ''\"'') else req);
          req = (if avatarURL c \<noteq> [] then append_frag req (''\"avatar_url\":\"'' @ avatarURL c @ ''\"'') else req);
          req = (if Content c \<noteq> [] then append_frag req (''\"content\":\"'' @ Content c @ ''\"'') else req);
          req = (if Tts c \<noteq> False then append_frag req (''\"tts\": \"'' @ go_bool (Tts c) @ ''\"'') else req);
          (emb, logs, e') = EMBEDDED_Parse (Embedded c);
          c = c\<lparr>Embedded := e'\<rparr>;
          req = (if emb \<noteq> [] then append_frag req emb else req)
      in (''{ '' @ req @ '' }'', logs, c))"

section \<open>Transport\<close>

record http_request =
  req_method :: string
  req_url :: string
  req_header :: "(string \<times> string) list"
  req_body :: string

datatype 'e panic = NilRequestDeref | TransportPanic 'e

definition SendWebHook ::
  "(string \<Rightarrow> bool) \<Rightarrow> (http_request \<Rightarrow> 'e + string) \<Rightarrow> Hook
   \<Rightarrow> ('e panic + string) \<times> log_entry list \<times> Hook" where
  "SendWebHook new_request_ok client_do c =
     (let (jsonStr, logs, c) = JSONRequest c
      in if \<not> new_request_ok (webHookURL c) then (Inl NilRequestDeref, logs, c)
         else
           (let req = \<lparr>req_method = ''POST'', req_url = webHookURL c,
                       req_header = [(''Content-Type'', ''application/json'')], req_body = jsonStr\<rparr>
            in (case client_do req of
                  Inl err \<Rightarrow> Inl (TransportPanic err)
                | Inr status \<Rightarrow> Inr status, logs, c)))"

text \<open>
  The fragments of \<open>JSONRequest\<close> in the order the source appends them;
  \<open>%v\<close> of the TTS flag is \<open>true\<close> whenever the fragment is written.
\<close>

definition hook_frags :: "Hook \<Rightarrow> string list" where
  "hook_frags c =
     [if username c \<noteq> [] then ''\"username\":\"'' @ username c @ ''\"'' else [],
      if avatarURL c \<noteq> [] then ''\"avatar_url\":\"'' @ avatarURL c @ ''\"'' else [],
      if Content c \<noteq> [] then ''\"content\":\"'' @ Content c @ ''\"'' else [],
      if Tts c then ''\"tts\": \"true\"'' else [],
      fst (EMBEDDED_Parse (Embedded c))]"

section \<open>Lemmas\<close>

lemma JSONRequest_unfold:
  "JSONRequest c =
     (''{ '' @ foldl append_frag [] (hook_frags c) @ '' }'', fst (snd (EMBEDDED_Parse (Embedded c))),
      c\<lparr>Embedded := snd (snd (EMBEDDED_Parse (Embedded c)))\<rparr>)"
  by (simp add: JSONRequest_def hook_frags_def Let_def split_def go_bool_def)

lemma JSONRequest_text:
  "fst (JSONRequest c) = ''{ '' @ sep_join (nonempty (hook_frags c)) @ '' }''"
  by (simp add: JSONRequest_unfold foldl_append_frag_Nil)

lemma JSONRequest_snd_snd:
  "snd (snd (JSONRequest c)) =
     c\<lparr>Embedded := (Embedded c)\<lparr>emb_URL := snd (URL_Parse (emb_URL (Embedded c)))\<rparr>\<rparr>"
  by (simp add: JSONRequest_unfold EMBEDDED_Parse_snd)

lemma SendWebHook_unfold:
  "SendWebHook new_request_ok client_do c =
     (if \<not> new_request_ok (webHookURL c) then Inl NilRequestDeref
      else (case client_do \<lparr>req_method = ''POST'', req_url = webHookURL c,
                            req_header = [(''Content-Type'', ''application/json'')],
                            req_body = fst (JSONRequest c)\<rparr> of
              Inl e \<Rightarrow> Inl (TransportPanic e)
            | Inr status \<Rightarrow> Inr status),
      snd (JSONRequest c))"
  by (simp add: SendWebHook_def JSONRequest_unfold split_def Let_def)

lemmas empty_hook_simps = JSONRequest_text hook_frags_def WebHook_def EMBEDDED_Parse_zero

section \<open>Main results\<close>

text \<open>
  C1: \<open>JSONRequest\<close> writes the non-empty fragments of username, avatar
  URL, content, TTS flag and embed, in that order, separated by single
  commas, inside \<open>{ \<close> and \<open> }\<close>.
\<close>

theorem JSONRequest_body:
  "fst (JSONRequest c) = ''{ '' @ sep_join (nonempty (hook_frags c)) @ '' }''"
  by (rule JSONRequest_text)

text \<open>
  C25: the only change \<open>JSONRequest\<close> makes to the hook through its pointer
  receiver is the one \<open>URL.Parse\<close> makes to the URL part of the embed.
\<close>

theorem JSONRequest_state:
  "snd (snd (JSONRequest c)) =
     c\<lparr>Embedded := (Embedded c)\<lparr>emb_URL := snd (URL_Parse (emb_URL (Embedded c)))\<rparr>\<rparr>"
  by (rule JSONRequest_snd_snd)

text \<open>
  C26: the mutation does not change the output: building the request again
  from the hook that \<open>JSONRequest\<close> leaves behind gives the same text.
\<close>

theorem JSONRequest_idempotent:
  "fst (JSONRequest (snd (snd (JSONRequest c)))) = fst (JSONRequest c)"
  by (simp add: JSONRequest_text JSONRequest_snd_snd hook_frags_def EMBEDDED_Parse_text embed_frags_def
      parseFields_def URL_Parse_idem)

text \<open>
  C27: when \<open>http.NewRequest\<close> accepts the hook's URL, \<open>SendWebHook\<close>
  sends one POST to that URL with the JSON content type and the text of
  \<open>JSONRequest\<close> as body, returns the response status, and panics with the
  transport error when the request fails.
\<close>

theorem SendWebHook_request:
  "new_request_ok (webHookURL c) \<Longrightarrow>
   fst (SendWebHook new_request_ok client_do c) =
     (case client_do \<lparr>req_method = ''POST'', req_url = webHookURL c,
                      req_header = [(''Content-Type'', ''application/json'')],
                      req_body = fst (JSONRequest c)\<rparr> of
        Inl e \<Rightarrow> Inl (TransportPanic e)
      | Inr status \<Rightarrow> Inr status)"
  by (simp add: SendWebHook_unfold)

theorem SendWebHook_request_witness:
  "(\<lambda>u. u = ''h'') (webHookURL (WebHook \<lparr>Username = [], AvatarURL = [], WebHookURL = ''h''\<rparr>)) \<and>
   fst (SendWebHook (\<lambda>u. u = ''h'') (\<lambda>r. Inr ''200 OK'' :: unit + string)
          (WebHook \<lparr>Username = [], AvatarURL = [], WebHookURL = ''h''\<rparr>)) =
     (case (\<lambda>r. Inr ''200 OK'' :: unit + string)
             \<lparr>req_method = ''POST'', req_url = webHookURL (WebHook \<lparr>Username = [], AvatarURL = [], WebHookURL = ''h''\<rparr>),
              req_header = [(''Content-Type'', ''application/json'')],
              req_body = fst (JSONRequest (WebHook \<lparr>Username = [], AvatarURL = [], WebHookURL = ''h''\<rparr>))\<rparr> of
        Inl e \<Rightarrow> Inl (TransportPanic e)
      | Inr status \<Rightarrow> Inr status)"
proof -
  have h: "(\<lambda>u. u = ''h'') (webHookURL (WebHook \<lparr>Username = [], AvatarURL = [], WebHookURL = ''h''\<rparr>))"
    by (simp add: WebHook_def)
  show ?thesis using h SendWebHook_request[of "\<lambda>u. u = ''h''", OF h] by blast
qed

text \<open>
  C28: when \<open>http.NewRequest\<close> rejects the URL, its error is discarded and
  \<open>SendWebHook\<close> panics dereferencing the nil request (line 48) before any
  request is sent.
\<close>

theorem SendWebHook_bad_url:
  "\<not> new_request_ok (webHookURL c) \<Longrightarrow> fst (SendWebHook new_request_ok client_do c) = Inl NilRequestDeref"
  by (simp add: SendWebHook_unfold)

theorem SendWebHook_bad_url_witness:
  "\<not> (\<lambda>u. u \<noteq> []) (webHookURL (WebHook \<lparr>Username = [], AvatarURL = [], WebHookURL = []\<rparr>)) \<and>
   fst (SendWebHook (\<lambda>u. u \<noteq> []) (\<lambda>r. Inr ''200 OK'' :: unit + string)
          (WebHook \<lparr>Username = [], AvatarURL = [], WebHookURL = []\<rparr>)) = Inl NilRequestDeref"
proof -
  have h: "\<not> (\<lambda>u. u \<noteq> []) (webHookURL (WebHook \<lparr>Username = [], AvatarURL = [], WebHookURL = []\<rparr>))"
    by (simp add: WebHook_def)
  show ?thesis using h SendWebHook_bad_url[of "\<lambda>u. u \<noteq> []", OF h] by blast
qed

text \<open>
  C29: the body is \<open>{  }\<close> (two spaces, from \<open>Sprintf(`{ %v }`, "")\<close>)
  exactly when the hook has no username, avatar URL, content or TTS flag
  and its embed is the zero value up to fields that are all zero: then
  every fragment is empty.  The specification writes this body as
  \<open>{}\<close> (section 3) and \<open>{ }\<close> (sections 4.3 and 8.8).
\<close>

theorem JSONRequest_empty_body:
  "fst (JSONRequest c) = ''{  }'' \<longleftrightarrow>
     username c = [] \<and> avatarURL c = [] \<and> Content c = [] \<and> \<not> Tts c \<and>
     (Embedded c)\<lparr>emb_Fields := []\<rparr> = EMBEDDED_zero \<and>
     list_all (\<lambda>f. f = \<lparr>field_Name = [], field_Value = [], field_Inline = False\<rparr>) (emb_Fields (Embedded c))"
  unfolding EMBEDDED_Parse_Nil_iff [symmetric] by (simp add: JSONRequest_text hook_frags_def)

end
