(* ===== verification/Json_Render.thy ===== *)
theory Json_Render
  imports Json_Parts Hook
begin

text \<open>
  What the body of \<open>JSONRequest\<close> denotes as JSON.  \<open>hook_doc\<close> is the
  document of the wire format (section 6 of the specification): the
  top-level keys \<open>username\<close>, \<open>avatar_url\<close>, \<open>content\<close>, \<open>tts\<close>,
  \<open>embeds\<close> and the embed keys, each present when its part is set.
  \<open>hook_strings\<close> lists the strings the caller supplies; the source
  writes them into string literals without escaping, so the results below
  hold for strings of plain characters (\<open>json_safe\<close>), and the
  counterexample at the end shows that they fail otherwise.
\<close>

section \<open>The documents of the embed and the body\<close>

definition embed_doc_parts :: "EMBEDDED \<Rightarrow> (string \<times> json) list list" where
  "embed_doc_parts e =
      [(let fs = [f \<leftarrow> emb_Fields e. field_doc f \<noteq> []]
        in if fs = [] then [] else [(''fields'', JArray (map (\<lambda>f. JObject (field_doc f)) fs))]),
       opt_str ''description'' (Description (emb_Description e)),
       opt_str ''title'' (Title (emb_Title e)),
       (if author_Name (emb_Author e) = [] \<and> author_URL (emb_Author e) = [] \<and> author_IconURL (emb_Author e) = []
        then [] else [(''author'', JObject (author_doc (emb_Author e)))]),
       (if Color (emb_Color e) = [] then [] else [(''color'', JString (color_text (emb_Color e)))]),
       (if url_Title (emb_URL e) = [] \<and> url_URL (emb_URL e) = [] then []
        else [(''title'', JString (if url_Title (emb_URL e) = [] then url_URL (emb_URL e) else url_Title (emb_URL e))),
              (''url'', JString (url_URL (emb_URL e)))]),
       (if image_URL (emb_Image e) = [] then [] else [(''image'', JObject [(''url'', JString (image_URL (emb_Image e)))])]),
       (if thumbnail_URL (emb_Thumbnail e) = [] then []
        else [(''thumbnail'', JObject [(''url'', JString (thumbnail_URL (emb_Thumbnail e)))])]),
       (if footer_doc (emb_Footer e) = [] then [] else [(''footer'', JObject (footer_doc (emb_Footer e)))]),
       (if Time (emb_Timestamp e) = [] then [] else [(''timestamp'', JString (timestamp_text (emb_Timestamp e)))])]"

definition embed_doc :: "EMBEDDED \<Rightarrow> (string \<times> json) list" where
  "embed_doc e = concat (embed_doc_parts e)"

definition hook_doc_parts :: "Hook \<Rightarrow> (string \<times> json) list list" where
  "hook_doc_parts c =
      [opt_str ''username'' (username c), opt_str ''avatar_url'' (avatarURL c), opt_str ''content'' (Content c),
       (if Tts c then [(''tts'', JString ''true'')] else []),
       (if embed_doc (Embedded c) = [] then [] else [(''embeds'', JArray [JObject (embed_doc (Embedded c))])])]"

definition hook_doc :: "Hook \<Rightarrow> (string \<times> json) list" where
  "hook_doc c = concat (hook_doc_parts c)"

definition embed_strings :: "EMBEDDED \<Rightarrow> string list" where
  "embed_strings e =
     concat (map (\<lambda>f. [field_Name f, field_Value f]) (emb_Fields e)) @
     [Description (emb_Description e), Title (emb_Title e),
      author_Name (emb_Author e), author_URL (emb_Author e), author_IconURL (emb_Author e),
      url_Title (emb_URL e), url_URL (emb_URL e), image_URL (emb_Image e), thumbnail_URL (emb_Thumbnail e),
      footer_Text (emb_Footer e), footer_IconURL (emb_Footer e)]"

definition hook_strings :: "Hook \<Rightarrow> string list" where
  "hook_strings c = [username c, avatarURL c, Content c] @ embed_strings (Embedded c)"

definition hook_safe :: "Hook \<Rightarrow> bool" where
  "hook_safe c \<longleftrightarrow> list_all json_safe (hook_strings c)"

section \<open>Lemmas\<close>

subsection \<open>The embed and the body\<close>

lemma embed_frags_json:
  assumes "list_all json_safe (embed_strings e)"
  shows "list_all2 (joinable json_members) (embed_frags e) (embed_doc_parts e)"
proof -
  have f: "list_all (\<lambda>f. json_safe (field_Name f) \<and> json_safe (field_Value f)) (emb_Fields e)"
    using assms by (auto simp: embed_strings_def list_all_iff)
  have s: "json_safe (Description (emb_Description e))" "json_safe (Title (emb_Title e))"
    "json_safe (author_Name (emb_Author e))" "json_safe (author_URL (emb_Author e))"
    "json_safe (author_IconURL (emb_Author e))" "json_safe (url_Title (emb_URL e))" "json_safe (url_URL (emb_URL e))"
    "json_safe (image_URL (emb_Image e))" "json_safe (thumbnail_URL (emb_Thumbnail e))"
    "json_safe (footer_Text (emb_Footer e))" "json_safe (footer_IconURL (emb_Footer e))"
    using assms by (simp_all add: embed_strings_def)
  show ?thesis
    unfolding embed_frags_def embed_doc_parts_def
    using parseFields_json[OF f] DESCRIPTION_json[OF s(1)] TITLE_json[OF s(2)] AUTHOR_json[OF s(3-5)]
      COLOR_json URL_json[OF s(6,7)] IMAGE_json[OF s(8)] THUMBNAIL_json[OF s(9)] FOOTER_json[OF s(10,11)]
      TIMESTAMP_json
    by (simp only: list_all2_Cons list_all2_Nil)
qed

lemma members_nil_impossible: "\<not> json_members s []"
  by (auto elim: json_members_NilE)

lemma embed_text_json:
  assumes "list_all json_safe (embed_strings e)"
  shows "joinable json_members (sep_join (nonempty (embed_frags e))) (embed_doc e)"
  unfolding embed_doc_def using embed_frags_json[OF assms]
  by (rule joinable_sep_join) (auto intro: json_members_append simp: members_nil_impossible)

lemma EMBEDDED_json:
  assumes "list_all json_safe (embed_strings e)"
  shows "joinable json_members (fst (EMBEDDED_Parse e))
     (if embed_doc e = [] then [] else [(''embeds'', JArray [JObject (embed_doc e)])])"
proof -
  define S where "S = sep_join (nonempty (embed_frags e))"
  have j: "joinable json_members S (embed_doc e)" unfolding S_def by (rule embed_text_json[OF assms])
  have SD: "S = [] \<longleftrightarrow> embed_doc e = []" using j members_nil_impossible by (rule joinable_Nil_iff)
  have e: "fst (EMBEDDED_Parse e) = (if S = [] then [] else ''\"embeds\": [{'' @ S @ ''}]'')"
    by (simp add: EMBEDDED_Parse_text S_def)
  have v: "S \<noteq> [] \<Longrightarrow> json_value (CHR ''['' # (CHR ''{'' # S @ ''}'') @ '']'') (JArray [JObject (embed_doc e)])"
    using j by (intro jg_arr json_elements_value jg_obj) (simp add: joinable_def)
  have d: "(if embed_doc e = [] then [] else [(''embeds'', JArray [JObject (embed_doc e)])]) =
      (if S = [] then [] else [(''embeds'', JArray [JObject (embed_doc e)])])"
    using SD by simp
  show ?thesis unfolding d
    by (rule joinable_member[where b = "S = []" and wa = "[]" and k = "''embeds''" and wb = "[]"
          and wc = "'' ''" and wd = "[]", OF _ _ _ _ _ _ _ v])
      (simp_all add: e)
qed

lemma hook_frags_json:
  assumes "hook_safe c"
  shows "list_all2 (joinable json_members) (hook_frags c) (hook_doc_parts c)"
proof -
  have s: "json_safe (username c)" "json_safe (avatarURL c)" "json_safe (Content c)"
    "list_all json_safe (embed_strings (Embedded c))"
    using assms by (simp_all add: hook_safe_def hook_strings_def)
  have u: "joinable json_members (if username c \<noteq> [] then ''\"username\":\"'' @ username c @ ''\"'' else [])
      (opt_str ''username'' (username c))"
    by (rule joinable_member_str[where wa = "[]" and wb = "[]" and wc = "[]" and wd = "[]"]) (simp_all add: s)
  have a: "joinable json_members (if avatarURL c \<noteq> [] then ''\"avatar_url\":\"'' @ avatarURL c @ ''\"'' else [])
      (opt_str ''avatar_url'' (avatarURL c))"
    by (rule joinable_member_str[where wa = "[]" and wb = "[]" and wc = "[]" and wd = "[]"]) (simp_all add: s)
  have n: "joinable json_members (if Content c \<noteq> [] then ''\"content\":\"'' @ Content c @ ''\"'' else [])
      (opt_str ''content'' (Content c))"
    by (rule joinable_member_str[where wa = "[]" and wb = "[]" and wc = "[]" and wd = "[]"]) (simp_all add: s)
  have t: "joinable json_members (if Tts c then ''\"tts\": \"true\"'' else [])
      (if Tts c then [(''tts'', JString ''true'')] else [])"
    by (rule joinable_member_v[where b = "\<not> Tts c" and wa = "[]" and k = "''tts''" and wb = "[]"
          and wc = "'' ''" and wd = "[]", OF _ _ _ _ _ _ _ json_value_str[OF json_safe_keys(21)]])
      simp_all
  show ?thesis
    unfolding hook_frags_def hook_doc_parts_def
    using u a n t EMBEDDED_json[OF s(4)] by (simp only: list_all2_Cons list_all2_Nil)
qed

lemma JSONRequest_json:
  assumes "hook_safe c"
  shows "json_value (fst (JSONRequest c)) (JObject (hook_doc c))"
proof -
  have "joinable json_members (sep_join (nonempty (hook_frags c))) (hook_doc c)"
    unfolding hook_doc_def using hook_frags_json[OF assms]
    by (rule joinable_sep_join) (auto intro: json_members_append simp: members_nil_impossible)
  then show ?thesis unfolding JSONRequest_text by (rule json_value_braced)
qed

subsection \<open>Quote parity of the body\<close>

lemma json_safe_no_bslash: "json_safe s \<Longrightarrow> bslash \<notin> set s"
  by (auto simp: json_safe_def json_plain_def list_all_iff)

lemma append_frag_no_bslash:
  "bslash \<notin> set a \<Longrightarrow> bslash \<notin> set f \<Longrightarrow> bslash \<notin> set (append_frag a f)"
  by (simp add: append_frag_def)

lemma sep_join_no_bslash: "(\<And>x. x \<in> set xs \<Longrightarrow> bslash \<notin> set x) \<Longrightarrow> bslash \<notin> set (sep_join xs)"
  by (induction xs rule: sep_join.induct) auto

lemma nquotes_sep_join: "nquotes (sep_join xs) = sum_list (map nquotes xs)"
  by (induction xs rule: sep_join.induct) simp_all

lemma sum_nquotes_nonempty: "sum_list (map nquotes (nonempty xs)) = sum_list (map nquotes xs)"
  by (induction xs) simp_all

lemma FIELDS_no_bslash:
  "json_safe (field_Name f) \<Longrightarrow> json_safe (field_Value f) \<Longrightarrow> bslash \<notin> set (FIELDS_Parse f)"
  by (simp add: FIELDS_Parse_def Let_def go_bool_def append_frag_no_bslash json_safe_no_bslash)

lemma embed_no_bslash:
  assumes "list_all json_safe (embed_strings e)"
  shows "bslash \<notin> set (fst (EMBEDDED_Parse e))"
proof -
  have f: "\<And>f. f \<in> set (emb_Fields e) \<Longrightarrow> json_safe (field_Name f) \<and> json_safe (field_Value f)"
    using assms by (auto simp: embed_strings_def list_all_iff)
  have s: "bslash \<notin> set (Description (emb_Description e))" "bslash \<notin> set (Title (emb_Title e))"
    "bslash \<notin> set (author_Name (emb_Author e))" "bslash \<notin> set (author_URL (emb_Author e))"
    "bslash \<notin> set (author_IconURL (emb_Author e))" "bslash \<notin> set (url_Title (emb_URL e))"
    "bslash \<notin> set (url_URL (emb_URL e))" "bslash \<notin> set (image_URL (emb_Image e))"
    "bslash \<notin> set (thumbnail_URL (emb_Thumbnail e))" "bslash \<notin> set (footer_Text (emb_Footer e))"
    "bslash \<notin> set (footer_IconURL (emb_Footer e))"
    using assms by (simp_all add: embed_strings_def json_safe_no_bslash)
  have p: "bslash \<notin> set (parseFields e)"
    using f by (auto simp: parseFields_text FIELDS_no_bslash intro!: sep_join_no_bslash)
  have c: "bslash \<notin> set (color_text (emb_Color e))" "bslash \<notin> set (timestamp_text (emb_Timestamp e))"
    by (simp_all add: json_safe_no_bslash)
  have parts: "bslash \<notin> set (DESCRIPTION_Parse (emb_Description e))" "bslash \<notin> set (TITLE_Parse (emb_Title e))"
    "bslash \<notin> set (AUTHOR_Parse (emb_Author e))" "bslash \<notin> set (fst (COLOR_Parse (emb_Color e)))"
    "bslash \<notin> set (fst (URL_Parse (emb_URL e)))" "bslash \<notin> set (IMAGE_Parse (emb_Image e))"
    "bslash \<notin> set (THUMBNAIL_Parse (emb_Thumbnail e))" "bslash \<notin> set (FOOTER_Parse (emb_Footer e))"
    "bslash \<notin> set (fst (TIMESTAMP_Parse (emb_Timestamp e)))"
    using s c by (simp_all add: DESCRIPTION_Parse_def TITLE_Parse_def AUTHOR_Parse_def Let_def fst_COLOR_Parse
        URL_Parse_def IMAGE_Parse_def THUMBNAIL_Parse_def FOOTER_Parse_def append_frag_no_bslash fst_TIMESTAMP_Parse)
  have "\<And>x. x \<in> set (embed_frags e) \<Longrightarrow> bslash \<notin> set x"
    using p parts unfolding embed_frags_def by auto
  then have "bslash \<notin> set (sep_join (nonempty (embed_frags e)))" by (intro sep_join_no_bslash) auto
  then show ?thesis by (simp add: EMBEDDED_Parse_text)
qed

lemma embed_quotes_even:
  assumes "list_all json_safe (embed_strings e)"
  shows "even (nquotes (fst (EMBEDDED_Parse e)))"
proof -
  have j: "joinable json_members (fst (EMBEDDED_Parse e))
     (if embed_doc e = [] then [] else [(''embeds'', JArray [JObject (embed_doc e)])])"
    by (rule EMBEDDED_json[OF assms])
  show ?thesis
  proof (cases "fst (EMBEDDED_Parse e) = []")
    case False
    then have "json_members (fst (EMBEDDED_Parse e))
       (if embed_doc e = [] then [] else [(''embeds'', JArray [JObject (embed_doc e)])])"
      using j by (simp add: joinable_def)
    then show ?thesis using json_quotes_even embed_no_bslash[OF assms] by blast
  qed simp
qed

section \<open>Main results\<close>

text \<open>
  C2: for every hook whose caller-supplied strings consist of plain
  characters (no double quote, no backslash, no control character), the
  body \<open>JSONRequest\<close> builds is a JSON text of RFC 8259, and it denotes
  the object \<open>hook_doc\<close> of the wire format: the keys username,
  avatar_url, content, tts and embeds, and inside the embed the keys of the
  ten parts in the source's order, each present exactly when its part is
  set.
\<close>

theorem JSONRequest_valid_json:
  "hook_safe c \<Longrightarrow> json_value (fst (JSONRequest c)) (JObject (hook_doc c))"
  by (rule JSONRequest_json)

theorem JSONRequest_valid_json_witness:
  "hook_safe ((WebHook \<lparr>Username = ''bot'', AvatarURL = [], WebHookURL = ''h''\<rparr>)\<lparr>Content := ''hi''\<rparr>) \<and>
   json_value (fst (JSONRequest ((WebHook \<lparr>Username = ''bot'', AvatarURL = [], WebHookURL = ''h''\<rparr>)\<lparr>Content := ''hi''\<rparr>)))
     (JObject (hook_doc ((WebHook \<lparr>Username = ''bot'', AvatarURL = [], WebHookURL = ''h''\<rparr>)\<lparr>Content := ''hi''\<rparr>)))"
proof -
  have h: "hook_safe ((WebHook \<lparr>Username = ''bot'', AvatarURL = [], WebHookURL = ''h''\<rparr>)\<lparr>Content := ''hi''\<rparr>)"
    by (simp add: hook_safe_def hook_strings_def embed_strings_def WebHook_def EMBEDDED_zero_def json_safe_lit)
  show ?thesis using h JSONRequest_valid_json[OF h] by blast
qed

text \<open>
  C3: the source does not escape the strings it splices into the body.
  Whenever the username, avatar URL and content contain no backslash and
  together an odd number of double quotes (for instance any content with
  one unescaped quote, sent under an identity without quotes), and the
  embed's strings are plain, the body is not a JSON text, whatever the
  TTS flag and the embed: every fragment adds an even number of quotes of
  its own, so the body has an odd number of quotes and no backslash,
  while every JSON text without a backslash has an even number.
\<close>

theorem JSONRequest_quote_not_json:
  "bslash \<notin> set (username c @ avatarURL c @ Content c) \<Longrightarrow> list_all json_safe (embed_strings (Embedded c)) \<Longrightarrow>
   odd (nquotes (username c @ avatarURL c @ Content c)) \<Longrightarrow> \<not> json_value (fst (JSONRequest c)) x"
proof
  assume b: "bslash \<notin> set (username c @ avatarURL c @ Content c)"
    and e: "list_all json_safe (embed_strings (Embedded c))"
    and o: "odd (nquotes (username c @ avatarURL c @ Content c))"
    and j: "json_value (fst (JSONRequest c)) x"
  have nb: "bslash \<notin> set (fst (JSONRequest c))"
    using b embed_no_bslash[OF e]
    by (auto simp: JSONRequest_text hook_frags_def intro!: sep_join_no_bslash)
  have q: "nquotes (fst (JSONRequest c)) =
      nquotes (username c @ avatarURL c @ Content c) + nquotes (fst (EMBEDDED_Parse (Embedded c))) +
      4 * (of_bool (username c \<noteq> []) + of_bool (avatarURL c \<noteq> []) + of_bool (Content c \<noteq> []) + of_bool (Tts c))"
    by (simp add: JSONRequest_text hook_frags_def nquotes_sep_join sum_nquotes_nonempty)
  have "even (nquotes (fst (JSONRequest c)))" by (rule json_value_quotes_even[OF j nb])
  then show False using q o embed_quotes_even[OF e] by simp
qed

theorem JSONRequest_quote_not_json_witness:
  "bslash \<notin> set (username ((WebHook \<lparr>Username = ''bot'', AvatarURL = [], WebHookURL = ''h''\<rparr>)\<lparr>Content := ''a\"b''\<rparr>) @
      avatarURL ((WebHook \<lparr>Username = ''bot'', AvatarURL = [], WebHookURL = ''h''\<rparr>)\<lparr>Content := ''a\"b''\<rparr>) @
      Content ((WebHook \<lparr>Username = ''bot'', AvatarURL = [], WebHookURL = ''h''\<rparr>)\<lparr>Content := ''a\"b''\<rparr>)) \<and>
   list_all json_safe (embed_strings (Embedded ((WebHook \<lparr>Username = ''bot'', AvatarURL = [], WebHookURL = ''h''\<rparr>)\<lparr>Content := ''a\"b''\<rparr>))) \<and>
   odd (nquotes (username ((WebHook \<lparr>Username = ''bot'', AvatarURL = [], WebHookURL = ''h''\<rparr>)\<lparr>Content := ''a\"b''\<rparr>) @
      avatarURL ((WebHook \<lparr>Username = ''bot'', AvatarURL = [], WebHookURL = ''h''\<rparr>)\<lparr>Content := ''a\"b''\<rparr>) @
      Content ((WebHook \<lparr>Username = ''bot'', AvatarURL = [], WebHookURL = ''h''\<rparr>)\<lparr>Content := ''a\"b''\<rparr>))) \<and>
   (\<forall>x. \<not> json_value (fst (JSONRequest ((WebHook \<lparr>Username = ''bot'', AvatarURL = [], WebHookURL = ''h''\<rparr>)\<lparr>Content := ''a\"b''\<rparr>))) x)"
proof -
  have a: "bslash \<notin> set (username ((WebHook \<lparr>Username = ''bot'', AvatarURL = [], WebHookURL = ''h''\<rparr>)\<lparr>Content := ''a\"b''\<rparr>) @
      avatarURL ((WebHook \<lparr>Username = ''bot'', AvatarURL = [], WebHookURL = ''h''\<rparr>)\<lparr>Content := ''a\"b''\<rparr>) @
      Content ((WebHook \<lparr>Username = ''bot'', AvatarURL = [], WebHookURL = ''h''\<rparr>)\<lparr>Content := ''a\"b''\<rparr>))"
    by (simp add: WebHook_def)
  have b: "list_all json_safe (embed_strings (Embedded ((WebHook \<lparr>Username = ''bot'', AvatarURL = [], WebHookURL = ''h''\<rparr>)\<lparr>Content := ''a\"b''\<rparr>)))"
    by (simp add: WebHook_def embed_strings_def EMBEDDED_zero_def json_safe_def)
  have c: "odd (nquotes (username ((WebHook \<lparr>Username = ''bot'', AvatarURL = [], WebHookURL = ''h''\<rparr>)\<lparr>Content := ''a\"b''\<rparr>) @
      avatarURL ((WebHook \<lparr>Username = ''bot'', AvatarURL = [], WebHookURL = ''h''\<rparr>)\<lparr>Content := ''a\"b''\<rparr>) @
      Content ((WebHook \<lparr>Username = ''bot'', AvatarURL = [], WebHookURL = ''h''\<rparr>)\<lparr>Content := ''a\"b''\<rparr>)))"
    by (simp add: WebHook_def)
  show ?thesis using a b c JSONRequest_quote_not_json[OF a b c] by blast
qed

text \<open>
  C10: an embed with both a title and a URL link renders two members named
  \<open>title\<close>: the body is still a JSON text, of the document
  \<open>hook_doc\<close>, but the embed object in it carries the key \<open>title\<close> twice,
  once from \<open>TITLE.Parse\<close> and once from \<open>URL.Parse\<close> (the open question
  of spec section 9; RFC 8259 says the names of an object should be unique).
\<close>

theorem JSONRequest_duplicate_title:
  "hook_safe c \<Longrightarrow> Title (emb_Title (Embedded c)) \<noteq> [] \<Longrightarrow> url_URL (emb_URL (Embedded c)) \<noteq> [] \<Longrightarrow>
   json_value (fst (JSONRequest c)) (JObject (hook_doc c)) \<and>
   (''embeds'', JArray [JObject (embed_doc (Embedded c))]) \<in> set (hook_doc c) \<and>
   length (filter (\<lambda>kv. fst kv = ''title'') (embed_doc (Embedded c))) = 2"
proof -
  assume s: "hook_safe c" and t: "Title (emb_Title (Embedded c)) \<noteq> []"
    and u: "url_URL (emb_URL (Embedded c)) \<noteq> []"
  have n: "length (filter (\<lambda>kv. fst kv = ''title'') (embed_doc (Embedded c))) = 2"
    using t u by (simp add: embed_doc_def embed_doc_parts_def opt_str_def Let_def)
  then have "embed_doc (Embedded c) \<noteq> []" by auto
  then have "(''embeds'', JArray [JObject (embed_doc (Embedded c))]) \<in> set (hook_doc c)"
    by (simp add: hook_doc_def hook_doc_parts_def)
  with n show ?thesis using JSONRequest_json[OF s] by blast
qed

theorem JSONRequest_duplicate_title_witness:
  "hook_safe ((WebHook \<lparr>Username = [], AvatarURL = [], WebHookURL = ''h''\<rparr>)\<lparr>Embedded :=
      EMBEDDED_zero\<lparr>emb_Title := \<lparr>Title = ''T''\<rparr>, emb_URL := \<lparr>url_Title = [], url_URL = ''u''\<rparr>\<rparr>\<rparr>) \<and>
   Title (emb_Title (Embedded ((WebHook \<lparr>Username = [], AvatarURL = [], WebHookURL = ''h''\<rparr>)\<lparr>Embedded :=
      EMBEDDED_zero\<lparr>emb_Title := \<lparr>Title = ''T''\<rparr>, emb_URL := \<lparr>url_Title = [], url_URL = ''u''\<rparr>\<rparr>\<rparr>))) \<noteq> [] \<and>
   url_URL (emb_URL (Embedded ((WebHook \<lparr>Username = [], AvatarURL = [], WebHookURL = ''h''\<rparr>)\<lparr>Embedded :=
      EMBEDDED_zero\<lparr>emb_Title := \<lparr>Title = ''T''\<rparr>, emb_URL := \<lparr>url_Title = [], url_URL = ''u''\<rparr>\<rparr>\<rparr>))) \<noteq> [] \<and>
   length (filter (\<lambda>kv. fst kv = ''title'') (embed_doc (Embedded ((WebHook \<lparr>Username = [], AvatarURL = [], WebHookURL = ''h''\<rparr>)\<lparr>Embedded :=
      EMBEDDED_zero\<lparr>emb_Title := \<lparr>Title = ''T''\<rparr>, emb_URL := \<lparr>url_Title = [], url_URL = ''u''\<rparr>\<rparr>\<rparr>)))) = 2"
proof -
  have a: "hook_safe ((WebHook \<lparr>Username = [], AvatarURL = [], WebHookURL = ''h''\<rparr>)\<lparr>Embedded :=
      EMBEDDED_zero\<lparr>emb_Title := \<lparr>Title = ''T''\<rparr>, emb_URL := \<lparr>url_Title = [], url_URL = ''u''\<rparr>\<rparr>\<rparr>)"
    by (simp add: hook_safe_def hook_strings_def embed_strings_def WebHook_def EMBEDDED_zero_def json_safe_lit)
  show ?thesis using JSONRequest_duplicate_title[OF a] a by simp
qed

end
