(* ===== verification/Lifecycle.thy ===== *)
theory Lifecycle
  imports Hook
begin

text \<open>
  The life of a \<open>Hook\<close> as a state machine.  A hook is made by
  \<open>Identity.WebHook\<close>.  Outside the package the caller can name only the
  exported fields \<open>Content\<close>, \<open>Tts\<close> and \<open>Embedded\<close> (Go's visibility
  rule: \<open>username\<close>, \<open>avatarURL\<close> and \<open>webHookURL\<close> start with a
  lower-case letter), so it cannot write the identity fields one by one;
  it writes the exported fields and calls the methods \<open>JSONRequest\<close>,
  \<open>SendWebHook\<close> and \<open>Close\<close>, each of which may change the hook
  through its pointer receiver.  \<open>hook_step\<close> is one such operation and
  \<open>hook_reachable\<close> the hooks a run of them can produce from an identity;
  the transport \<open>new_request_ok\<close>, \<open>client_do\<close> is fixed for the run.
  A caller can also overwrite the whole struct (\<open>*h = Hook{}\<close> or
  \<open>*h = *other\<close>); that is not one of the operations here: it replaces
  the hook by another value, whose life starts afresh from that value,
  and the invariants below are about the life of the hook \<open>WebHook\<close>
  made.
\<close>

datatype hook_op =
  SetContent string
| SetTts bool
| SetEmbedded EMBEDDED
| BuildJSON
| Send
| CloseHook

definition hook_step ::
  "(string \<Rightarrow> bool) \<Rightarrow> (http_request \<Rightarrow> 'e + string) \<Rightarrow> Hook \<Rightarrow> hook_op \<Rightarrow> Hook" where
  "hook_step new_request_ok client_do c op =
     (case op of
        SetContent s \<Rightarrow> c\<lparr>Content := s\<rparr>
      | SetTts b \<Rightarrow> c\<lparr>Tts := b\<rparr>
      | SetEmbedded e \<Rightarrow> c\<lparr>Embedded := e\<rparr>
      | BuildJSON \<Rightarrow> snd (snd (JSONRequest c))
      | Send \<Rightarrow> snd (snd (SendWebHook new_request_ok client_do c))
      | CloseHook \<Rightarrow> Close c)"

inductive hook_reachable ::
  "(string \<Rightarrow> bool) \<Rightarrow> (http_request \<Rightarrow> 'e + string) \<Rightarrow> Identity \<Rightarrow> Hook \<Rightarrow> bool"
  for new_request_ok client_do i where
  start: "hook_reachable new_request_ok client_do i (WebHook i)"
| step: "hook_reachable new_request_ok client_do i c \<Longrightarrow>
     hook_reachable new_request_ok client_do i (hook_step new_request_ok client_do c op)"

definition identity_of :: "Hook \<Rightarrow> Identity" where
  "identity_of c = \<lparr>Username = username c, AvatarURL = avatarURL c, WebHookURL = webHookURL c\<rparr>"

section \<open>Lemmas\<close>

lemma identity_of_WebHook [simp]: "identity_of (WebHook i) = i"
  by (simp add: identity_of_def WebHook_def)

lemma identity_of_hook_step [simp]: "identity_of (hook_step nr cd c op) = identity_of c"
  by (cases op) (simp_all add: hook_step_def identity_of_def JSONRequest_snd_snd SendWebHook_unfold Close_def)

lemma hook_reachable_identity: "hook_reachable nr cd i c \<Longrightarrow> identity_of c = i"
  by (induction rule: hook_reachable.induct) simp_all

section \<open>Main results\<close>

text \<open>
  C7: the identity a hook is made with is an invariant of its life: in
  every hook reachable from \<open>WebHook i\<close>, by any sequence of writes to the
  exported fields and calls of the package's methods, the username, avatar
  URL and webhook URL are those of \<open>i\<close>.
\<close>

theorem hook_identity_invariant:
  "hook_reachable new_request_ok client_do i c \<Longrightarrow>
   username c = Username i \<and> avatarURL c = AvatarURL i \<and> webHookURL c = WebHookURL i"
  using hook_reachable_identity[of new_request_ok client_do i c] by (auto simp: identity_of_def)

theorem hook_identity_invariant_witness:
  "hook_reachable (\<lambda>u. u = ''h'') (\<lambda>r. Inr ''200 OK'' :: unit + string) \<lparr>Username = ''bot'', AvatarURL = [], WebHookURL = ''h''\<rparr>
     (hook_step (\<lambda>u. u = ''h'') (\<lambda>r. Inr ''200 OK'' :: unit + string)
        (WebHook \<lparr>Username = ''bot'', AvatarURL = [], WebHookURL = ''h''\<rparr>) (SetContent ''hi'')) \<and>
   username (hook_step (\<lambda>u. u = ''h'') (\<lambda>r. Inr ''200 OK'' :: unit + string)
        (WebHook \<lparr>Username = ''bot'', AvatarURL = [], WebHookURL = ''h''\<rparr>) (SetContent ''hi'')) =
     Username \<lparr>Username = ''bot'', AvatarURL = [], WebHookURL = ''h''\<rparr> \<and>
   avatarURL (hook_step (\<lambda>u. u = ''h'') (\<lambda>r. Inr ''200 OK'' :: unit + string)
        (WebHook \<lparr>Username = ''bot'', AvatarURL = [], WebHookURL = ''h''\<rparr>) (SetContent ''hi'')) =
     AvatarURL \<lparr>Username = ''bot'', AvatarURL = [], WebHookURL = ''h''\<rparr> \<and>
   webHookURL (hook_step (\<lambda>u. u = ''h'') (\<lambda>r. Inr ''200 OK'' :: unit + string)
        (WebHook \<lparr>Username = ''bot'', AvatarURL = [], WebHookURL = ''h''\<rparr>) (SetContent ''hi'')) =
     WebHookURL \<lparr>Username = ''bot'', AvatarURL = [], WebHookURL = ''h''\<rparr>"
proof -
  have h: "hook_reachable (\<lambda>u. u = ''h'') (\<lambda>r. Inr ''200 OK'' :: unit + string)
     \<lparr>Username = ''bot'', AvatarURL = [], WebHookURL = ''h''\<rparr>
     (hook_step (\<lambda>u. u = ''h'') (\<lambda>r. Inr ''200 OK'' :: unit + string)
        (WebHook \<lparr>Username = ''bot'', AvatarURL = [], WebHookURL = ''h''\<rparr>) (SetContent ''hi''))"
    by (rule hook_reachable.step[OF hook_reachable.start])
  show ?thesis using h hook_identity_invariant[OF h] by blast
qed

text \<open>
  C8: every send from a hook reachable from \<open>WebHook i\<close> goes to the
  webhook URL of \<open>i\<close>: when \<open>http.NewRequest\<close> accepts that URL,
  \<open>SendWebHook\<close> posts the current body there with the JSON content type,
  whatever the caller did to the hook before.
\<close>

theorem hook_send_target:
  "hook_reachable new_request_ok client_do i c \<Longrightarrow> new_request_ok (WebHookURL i) \<Longrightarrow>
   fst (SendWebHook new_request_ok client_do c) =
     (case client_do \<lparr>req_method = ''POST'', req_url = WebHookURL i,
                      req_header = [(''Content-Type'', ''application/json'')],
                      req_body = fst (JSONRequest c)\<rparr> of
        Inl e \<Rightarrow> Inl (TransportPanic e)
      | Inr status \<Rightarrow> Inr status)"
  using hook_reachable_identity[of new_request_ok client_do i c]
  by (auto simp: identity_of_def SendWebHook_unfold)

theorem hook_send_target_witness:
  "hook_reachable (\<lambda>u. u = ''h'') (\<lambda>r. Inr ''200 OK'' :: unit + string) \<lparr>Username = [], AvatarURL = [], WebHookURL = ''h''\<rparr>
     (WebHook \<lparr>Username = [], AvatarURL = [], WebHookURL = ''h''\<rparr>) \<and>
   (\<lambda>u. u = ''h'') (WebHookURL \<lparr>Username = [], AvatarURL = [], WebHookURL = ''h''\<rparr>) \<and>
   fst (SendWebHook (\<lambda>u. u = ''h'') (\<lambda>r. Inr ''200 OK'' :: unit + string)
          (WebHook \<lparr>Username = [], AvatarURL = [], WebHookURL = ''h''\<rparr>)) =
     (case (\<lambda>r. Inr ''200 OK'' :: unit + string)
             \<lparr>req_method = ''POST'', req_url = WebHookURL \<lparr>Username = [], AvatarURL = [], WebHookURL = ''h''\<rparr>,
              req_header = [(''Content-Type'', ''application/json'')],
              req_body = fst (JSONRequest (WebHook \<lparr>Username = [], AvatarURL = [], WebHookURL = ''h''\<rparr>))\<rparr> of
        Inl e \<Rightarrow> Inl (TransportPanic e)
      | Inr status \<Rightarrow> Inr status)"
proof -
  have h1: "hook_reachable (\<lambda>u. u = ''h'') (\<lambda>r. Inr ''200 OK'' :: unit + string)
      \<lparr>Username = [], AvatarURL = [], WebHookURL = ''h''\<rparr> (WebHook \<lparr>Username = [], AvatarURL = [], WebHookURL = ''h''\<rparr>)"
    by (rule hook_reachable.start)
  have h2: "(\<lambda>u. u = ''h'') (WebHookURL \<lparr>Username = [], AvatarURL = [], WebHookURL = ''h''\<rparr>)" by simp
  show ?thesis using h1 h2 hook_send_target[OF h1 h2] by blast
qed

end
