(* ===== verification/Session.thy ===== *)
theory Session
  imports Json_Render Lifecycle
begin

text \<open>
  Sessions: a caller's program as an explicit sequence of operations on
  one hook, and the requests it puts on the wire.  \<open>posted\<close> is the
  request \<open>SendWebHook\<close> hands to \<open>client.Do\<close> (or none, when
  \<open>http.NewRequest\<close> rejects the URL and the method panics before
  sending); \<open>hook_session\<close> performs the operations in order and
  collects the posted requests.  The results here compose the lifecycle
  of \<open>Lifecycle\<close> with the JSON contract of \<open>Json_Render\<close>.
\<close>

definition posted :: "(string \<Rightarrow> bool) \<Rightarrow> Hook \<Rightarrow> http_request option" where
  "posted new_request_ok c =
     (let (jsonStr, logs, c) = JSONRequest c
      in if \<not> new_request_ok (webHookURL c) then None
         else Some \<lparr>req_method = ''POST'', req_url = webHookURL c,
                    req_header = [(''Content-Type'', ''application/json'')], req_body = jsonStr\<rparr>)"

definition op_posts :: "(string \<Rightarrow> bool) \<Rightarrow> Hook \<Rightarrow> hook_op \<Rightarrow> http_request list" where
  "op_posts new_request_ok c op =
     (case op of Send \<Rightarrow> (case posted new_request_ok c of None \<Rightarrow> [] | Some r \<Rightarrow> [r]) | _ \<Rightarrow> [])"

fun hook_session ::
  "(string \<Rightarrow> bool) \<Rightarrow> (http_request \<Rightarrow> 'e + string) \<Rightarrow> Hook \<Rightarrow> hook_op list \<Rightarrow> Hook \<times> http_request list" where
  "hook_session new_request_ok client_do c [] = (c, [])"
| "hook_session new_request_ok client_do c (op # ops) =
     (let (c', wire) = hook_session new_request_ok client_do (hook_step new_request_ok client_do c op) ops
      in (c', op_posts new_request_ok c op @ wire))"

text \<open>An operation whose caller-supplied strings need no JSON escaping.\<close>

definition op_safe :: "hook_op \<Rightarrow> bool" where
  "op_safe op =
     (case op of SetContent s \<Rightarrow> json_safe s
      | SetEmbedded e \<Rightarrow> list_all json_safe (embed_strings e)
      | _ \<Rightarrow> True)"

section \<open>Lemmas\<close>

lemma posted_eq:
  "posted nr c =
     (if nr (webHookURL c)
      then Some \<lparr>req_method = ''POST'', req_url = webHookURL c,
                 req_header = [(''Content-Type'', ''application/json'')], req_body = fst (JSONRequest c)\<rparr>
      else None)"
  by (simp add: posted_def JSONRequest_unfold)

lemma SendWebHook_posted:
  "fst (SendWebHook nr cd c) =
     (case posted nr c of None \<Rightarrow> Inl NilRequestDeref
      | Some r \<Rightarrow> (case cd r of Inl e \<Rightarrow> Inl (TransportPanic e) | Inr status \<Rightarrow> Inr status))"
  by (simp add: SendWebHook_unfold posted_eq)

lemma snd_hook_session_Cons [simp]:
  "snd (hook_session nr cd c (op # ops)) = op_posts nr c op @ snd (hook_session nr cd (hook_step nr cd c op) ops)"
  by (simp add: split_def Let_def)

declare hook_session.simps(2) [simp del]

lemma webHookURL_hook_step [simp]: "webHookURL (hook_step nr cd c op) = webHookURL c"
  using identity_of_hook_step[of nr cd c op] by (simp add: identity_of_def)

lemma URL_Parse_strings:
  "url_URL (snd (URL_Parse u)) = url_URL u \<and> url_Title (snd (URL_Parse u)) \<in> {url_Title u, url_URL u}"
  by (simp add: URL_Parse_def Let_def)

lemma hook_safe_JSONRequest: "hook_safe c \<Longrightarrow> hook_safe (snd (snd (JSONRequest c)))"
  using URL_Parse_strings[of "emb_URL (Embedded c)"]
  by (auto simp: hook_safe_def hook_strings_def embed_strings_def JSONRequest_snd_snd)

lemma hook_safe_step: "op_safe op \<Longrightarrow> hook_safe c \<Longrightarrow> hook_safe (hook_step nr cd c op)"
  by (cases op)
     (simp_all add: op_safe_def hook_step_def hook_safe_JSONRequest SendWebHook_unfold Close_def,
      simp_all add: hook_safe_def hook_strings_def)

lemma op_posts_json:
  "hook_safe c \<Longrightarrow> r \<in> set (op_posts nr c op) \<Longrightarrow>
   req_method r = ''POST'' \<and> req_url r = webHookURL c \<and> (\<exists>x. json_value (req_body r) x)"
  by (auto simp: op_posts_def posted_eq split: hook_op.splits if_splits intro: JSONRequest_json)

lemma session_wire:
  "hook_safe c \<Longrightarrow> list_all op_safe ops \<Longrightarrow> r \<in> set (snd (hook_session nr cd c ops)) \<Longrightarrow>
   req_method r = ''POST'' \<and> req_url r = webHookURL c \<and> (\<exists>x. json_value (req_body r) x)"
proof (induction ops arbitrary: c)
  case Nil
  then show ?case by simp
next
  case (Cons op ops)
  from Cons.prems(3) consider "r \<in> set (op_posts nr c op)"
    | "r \<in> set (snd (hook_session nr cd (hook_step nr cd c op) ops))"
    by auto
  then show ?case
  proof cases
    case 1
    show ?thesis by (rule op_posts_json[OF Cons.prems(1) 1])
  next
    case 2
    have s: "hook_safe (hook_step nr cd c op)" using Cons.prems(1,2) by (simp add: hook_safe_step)
    show ?thesis using Cons.IH[OF s _ 2] Cons.prems(2) by simp
  qed
qed

lemma webHookURL_WebHook [simp]: "webHookURL (WebHook i) = WebHookURL i"
  by (simp add: WebHook_def)

lemmas session_eval_simps = empty_hook_simps op_posts_def posted_eq hook_step_def op_safe_def
  hook_safe_def hook_strings_def embed_strings_def json_safe_lit

section \<open>Main results\<close>

text \<open>
  C4: every request a session puts on the wire, when the identity's
  strings and every string the caller writes need no escaping, is a
  \<open>POST\<close> to the identity's webhook URL whose body is a well-formed JSON
  text: the contract of spec section 4.3 holds for every message the
  program sends, whatever the caller does between the sends.
\<close>

theorem session_wire_json:
  "hook_safe (WebHook i) \<Longrightarrow> list_all op_safe ops \<Longrightarrow>
   r \<in> set (snd (hook_session new_request_ok client_do (WebHook i) ops)) \<Longrightarrow>
   req_method r = ''POST'' \<and> req_url r = WebHookURL i \<and> (\<exists>x. json_value (req_body r) x)"
  using session_wire[where c = "WebHook i"] by simp

theorem session_wire_json_witness:
  "hook_safe (WebHook \<lparr>Username = ''bot'', AvatarURL = [], WebHookURL = ''h''\<rparr>) \<and>
   list_all op_safe [SetContent ''hi'', Send] \<and>
   \<lparr>req_method = ''POST'', req_url = ''h'', req_header = [(''Content-Type'', ''application/json'')],
    req_body = ''{ \"username\":\"bot\",\"content\":\"hi\" }''\<rparr>
     \<in> set (snd (hook_session (\<lambda>u. u = ''h'') (\<lambda>r. Inr ''200 OK'' :: unit + string)
          (WebHook \<lparr>Username = ''bot'', AvatarURL = [], WebHookURL = ''h''\<rparr>) [SetContent ''hi'', Send])) \<and>
   (\<exists>x. json_value ''{ \"username\":\"bot\",\"content\":\"hi\" }'' x)"
proof -
  have a: "hook_safe (WebHook \<lparr>Username = ''bot'', AvatarURL = [], WebHookURL = ''h''\<rparr>)"
    by (simp add: session_eval_simps EMBEDDED_zero_def)
  have b: "list_all op_safe [SetContent ''hi'', Send]" by (simp add: op_safe_def json_safe_lit)
  have c: "\<lparr>req_method = ''POST'', req_url = ''h'', req_header = [(''Content-Type'', ''application/json'')],
    req_body = ''{ \"username\":\"bot\",\"content\":\"hi\" }''\<rparr>
     \<in> set (snd (hook_session (\<lambda>u. u = ''h'') (\<lambda>r. Inr ''200 OK'' :: unit + string)
          (WebHook \<lparr>Username = ''bot'', AvatarURL = [], WebHookURL = ''h''\<rparr>) [SetContent ''hi'', Send]))"
    by (simp add: session_eval_simps)
  show ?thesis using a b c session_wire_json[OF a b c] by simp
qed

text \<open>
  C9: a valid send is always reachable again: from every hook reachable
  from \<open>WebHook i\<close>, whatever the caller wrote into it (unescaped quotes
  included), clearing the content, the TTS flag and the embed and then
  calling \<open>SendWebHook\<close> puts exactly one request on the wire, a request
  to the identity's URL whose body is well-formed JSON, provided the
  identity's own strings need no escaping and \<open>http.NewRequest\<close>
  accepts its URL.
\<close>

theorem session_recoverable:
  "hook_reachable new_request_ok client_do i c \<Longrightarrow> hook_safe (WebHook i) \<Longrightarrow>
   new_request_ok (WebHookURL i) \<Longrightarrow>
   \<exists>ops r. snd (hook_session new_request_ok client_do c ops) = [r] \<and>
     req_url r = WebHookURL i \<and> (\<exists>x. json_value (req_body r) x)"
proof -
  assume r: "hook_reachable new_request_ok client_do i c" and s: "hook_safe (WebHook i)"
    and u: "new_request_ok (WebHookURL i)"
  have id: "username c = Username i" "avatarURL c = AvatarURL i" "webHookURL c = WebHookURL i"
    using hook_reachable_identity[OF r] unfolding identity_of_def by auto
  define c1 where "c1 = c\<lparr>Content := [], Tts := False, Embedded := EMBEDDED_zero\<rparr>"
  have safe: "hook_safe c1" using s id by (simp add: c1_def hook_safe_def hook_strings_def WebHook_def)
  have w: "snd (hook_session new_request_ok client_do c [SetContent [], SetTts False, SetEmbedded EMBEDDED_zero, Send]) =
      [\<lparr>req_method = ''POST'', req_url = WebHookURL i,
        req_header = [(''Content-Type'', ''application/json'')], req_body = fst (JSONRequest c1)\<rparr>]"
    using u id by (simp add: op_posts_def posted_eq hook_step_def c1_def)
  show ?thesis using w JSONRequest_json[OF safe] by fastforce
qed

theorem session_recoverable_witness:
  "hook_reachable (\<lambda>u. u = ''h'') (\<lambda>r. Inr ''200 OK'' :: unit + string) \<lparr>Username = ''bot'', AvatarURL = [], WebHookURL = ''h''\<rparr>
     (hook_step (\<lambda>u. u = ''h'') (\<lambda>r. Inr ''200 OK'' :: unit + string)
        (WebHook \<lparr>Username = ''bot'', AvatarURL = [], WebHookURL = ''h''\<rparr>) (SetContent ''a\"b'')) \<and>
   hook_safe (WebHook \<lparr>Username = ''bot'', AvatarURL = [], WebHookURL = ''h''\<rparr>) \<and>
   (\<lambda>u. u = ''h'') (WebHookURL \<lparr>Username = ''bot'', AvatarURL = [], WebHookURL = ''h''\<rparr>) \<and>
   (\<exists>ops r. snd (hook_session (\<lambda>u. u = ''h'') (\<lambda>r. Inr ''200 OK'' :: unit + string)
       (hook_step (\<lambda>u. u = ''h'') (\<lambda>r. Inr ''200 OK'' :: unit + string)
          (WebHook \<lparr>Username = ''bot'', AvatarURL = [], WebHookURL = ''h''\<rparr>) (SetContent ''a\"b'')) ops) = [r] \<and>
     req_url r = WebHookURL \<lparr>Username = ''bot'', AvatarURL = [], WebHookURL = ''h''\<rparr> \<and> (\<exists>x. json_value (req_body r) x))"
proof -
  have a: "hook_reachable (\<lambda>u. u = ''h'') (\<lambda>r. Inr ''200 OK'' :: unit + string) \<lparr>Username = ''bot'', AvatarURL = [], WebHookURL = ''h''\<rparr>
     (hook_step (\<lambda>u. u = ''h'') (\<lambda>r. Inr ''200 OK'' :: unit + string)
        (WebHook \<lparr>Username = ''bot'', AvatarURL = [], WebHookURL = ''h''\<rparr>) (SetContent ''a\"b''))"
    by (rule hook_reachable.step[OF hook_reachable.start])
  have b: "hook_safe (WebHook \<lparr>Username = ''bot'', AvatarURL = [], WebHookURL = ''h''\<rparr>)"
    by (simp add: session_eval_simps EMBEDDED_zero_def)
  have c: "(\<lambda>u. u = ''h'') (WebHookURL \<lparr>Username = ''bot'', AvatarURL = [], WebHookURL = ''h''\<rparr>)" by simp
  show ?thesis using a b c session_recoverable[OF a b c] by blast
qed

end
