(* ===== verification/Spec2Isabelle.thy ===== *)
theory Spec2Isabelle
  imports Session
begin

text \<open>
  \<^bold>\<open>A verification development of the Discord webhook client
  \<^verbatim>\<open>src/webhook.go\<close>.\<close>

  \<^medskip>\<^bold>\<open>The program.\<close>  One Go file builds the JSON body of a Discord
  webhook message and posts it.  An \<open>Identity\<close> (username, avatar URL,
  webhook URL) makes a \<open>Hook\<close> (\<open>Identity.WebHook\<close>); the caller fills in
  the content, the TTS flag and an \<open>EMBEDDED\<close> record of ten parts (colour,
  author, title, URL, description, fields, image, thumbnail, footer,
  timestamp).  \<open>Hook.JSONRequest\<close> renders the body: each part has a
  \<open>Parse\<close> method that renders nothing for the zero struct and a JSON
  fragment otherwise; \<open>EMBEDDED.Parse\<close> and \<open>JSONRequest\<close> join the
  non-empty fragments with commas, by a loop the source writes out inline at
  every join.  Two parts call the standard library: \<open>COLOR.Parse\<close> reads
  the colour with \<open>strconv.ParseInt(c, 16, 25)\<close>, and
  \<open>TIMESTAMP.Parse\<close> reads and re-prints the time with \<open>time.Parse\<close> and
  \<open>Format\<close> of the layout \<open>"2006-01-02 03:04:05.0000"\<close>; both log a
  failed parse and go on.  \<open>URL.Parse\<close> has a pointer receiver and writes
  the URL into an empty title, and this write reaches the hook.
  \<open>Hook.SendWebHook\<close> posts the body with \<^verbatim>\<open>net/http\<close> and returns the
  response status.

  \<^medskip>\<^bold>\<open>The theories.\<close>
  \<^item> \<open>Prelude\<close>: Go strings as \<^typ>\<open>string\<close>; the comma-join step
    \<open>append_frag\<close> (the inline loop of lines 63-93, 124-132, 143-211,
    326-336, 385-389) and its reference \<open>sep_join\<close> of the non-empty
    fragments; the error monad \<open>sbind\<close> on \<open>'e + 'a\<close>; the \<open>%v\<close>
    rendering of integers (\<open>dec_digits\<close>, \<open>go_itoa\<close>) and booleans
    (\<open>go_bool\<close>), Go's zero-padded \<open>appendInt\<close> (\<open>append_int\<close>) and
    the decimal read-back \<open>dec_value\<close>.
  \<^item> \<open>Strconv\<close>: \<open>strconv.ParseUint\<close>/\<open>ParseInt\<close> of Go's standard
    library on 64-bit words, with the \<open>cutoff\<close> and wrap-around tests of
    the original (\<open>parse_uint_digits\<close>, \<open>ParseUint\<close>, \<open>ParseInt\<close>), the
    unbounded reference loop \<open>scan_ref\<close>, and the contracts
    \<open>uint_spec\<close>/\<open>int_spec\<close>.
  \<^item> \<open>Gotime\<close>: \<open>time.Parse\<close> (\<open>time_parse\<close>) and \<open>Time.Format\<close>
    (\<open>time_format\<close>) specialised to the one layout the program uses,
    with Go's helpers \<open>skip\<close>, \<open>getnum\<close>, \<open>atoi\<close>
    (\<open>time_atoi\<close>), \<open>parseNanoseconds\<close>, \<open>daysIn\<close>; a time is
    the record \<open>gotime\<close> of its civil fields.  The ranges of the
    fields \<open>time.Parse\<close> returns are derived from those of its helpers
    (\<open>time_atoi_bound\<close>, \<open>getnum_Inr\<close>, \<open>parse_nanoseconds_Inr\<close>,
    \<open>time_parse_Inr\<close>).
  \<^item> \<open>Embed_Parts\<close>: one record and one \<open>*_Parse\<close> function per part
    (lines 218-411).  \<open>COLOR_Parse\<close> and \<open>TIMESTAMP_Parse\<close> return
    the fragment and the \<open>log_entry\<close> list they print; \<open>URL_Parse\<close>
    returns the fragment and the updated struct.
  \<^item> \<open>Embed\<close>: \<open>EMBEDDED\<close>, \<open>parseFields\<close> and \<open>EMBEDDED_Parse\<close>
    (lines 98-216), which returns the text, the log and the updated embed;
    \<open>embed_frags\<close> lists its ten fragments in source order.
  \<^item> \<open>Hook\<close>: \<open>Identity\<close>, \<open>Hook\<close>, \<open>WebHook\<close>, \<open>Close\<close>,
    \<open>JSONRequest\<close> (text, log, updated hook) and \<open>SendWebHook\<close>
    (lines 12-95); \<open>hook_frags\<close> lists the body's fragments.
    The HTTP layer is an interface: \<open>SendWebHook\<close> takes
    \<open>new_request_ok\<close> (whether \<open>http.NewRequest\<close> accepts the URL) and
    \<open>client_do\<close> (the response status or a transport error of any type);
    Go panics are values of \<open>'e panic\<close>.
  \<^item> \<open>Lifecycle\<close>: the life of a hook as a state machine.
    \<open>hook_op\<close> has one constructor per operation a caller outside the
    package can perform on a \<open>*Hook\<close>: write \<open>Content\<close>, \<open>Tts\<close> or
    \<open>Embedded\<close> (the identity fields are unexported, so they cannot be
    written one by one), or call \<open>JSONRequest\<close>, \<open>SendWebHook\<close> or
    \<open>Close\<close>; \<open>hook_step\<close> performs one, keeping the hook each method
    leaves behind, and the inductive \<open>hook_reachable\<close> collects the hooks
    every sequence of them produces from \<open>WebHook i\<close>, for a fixed
    transport.  Assigning the whole struct (\<open>*h = Hook{}\<close>,
    \<open>*h = *other\<close>) replaces the hook by another value and is not one of
    these operations.
  \<^item> \<open>Json\<close>: the contract of spec section 4.3, the JSON grammar of
    RFC 8259 as mutually inductive predicates \<open>json_value\<close>,
    \<open>json_members\<close>, \<open>json_member\<close>, \<open>json_elements\<close>,
    \<open>json_element\<close> relating a text to the \<open>json\<close> tree it denotes,
    with executable recognisers for white space, string contents and
    numbers; and the invariant that a JSON text without a backslash has an
    even number of double quotes.
  \<^item> \<open>Json_Parts\<close>: what each part's fragment denotes: the documents
    of the parts, the strings that need no escaping (\<open>json_safe\<close>),
    and the proof that every part, and the fields array, parse to their
    members; \<open>joinable_sep_join\<close> carries this through the comma join.
  \<^item> \<open>Json_Render\<close>: the document a hook denotes (\<open>hook_doc\<close>,
    \<open>embed_doc\<close>: the keys of spec section 6, each present when its
    part is set, the colour as its decimal and the timestamp as
    re-printed), and the proof that the embed and the body parse to
    their documents.
  \<^item> \<open>Session\<close>: a caller's program as an explicit list of
    \<open>hook_op\<close>s.  \<open>posted\<close> is the request \<open>SendWebHook\<close> hands to
    \<open>client.Do\<close> (lines 46-48), proved to be what \<open>SendWebHook\<close>
    sends; \<open>hook_session\<close> runs the operations in order and returns
    the final hook and the wire, the requests sent in order.

  \<^medskip>\<^bold>\<open>What is proved.\<close>  Each theory ends with its main results, each
  after a text naming its claim.
  \<^item> Rendering: the inline join loop equals the reference join
    (\<open>Prelude.foldl_append_frag\<close>); \<open>JSONRequest\<close>,
    \<open>EMBEDDED.Parse\<close> and \<open>parseFields\<close> emit the non-empty fragments
    in source order, comma separated, with their wrappers; the body is
    \<open>"{  }"\<close> exactly when every fragment is empty
    (\<open>Hook.JSONRequest_empty_body\<close>).
  \<^item> Per part: the author's URL and icon are written only after a name;
    \<open>URL.Parse\<close> backfills the title; a field renders nothing exactly
    when it is zero; colours of up to six hex digits render their decimal
    value, malformed ones \<open>0\<close> with a syntax error, and values of
    \<open>0x1000000\<close> or more are clamped to \<open>16777215\<close>; the printed colour
    always lies in the signed 25-bit range.
  \<^item> Standard library: \<open>ParseUint\<close> and \<open>ParseInt\<close> on 64-bit words
    refine their contracts on every base \<open>2..36\<close> and bit size
    \<open>1..64\<close> (no wrap-around escapes the overflow tests);
    \<open>time.Parse\<close> inverts \<open>Format\<close> on well-formed times.
  \<^item> Timestamps: a formatted timestamp survives \<open>TIMESTAMP.Parse\<close>;
    every parse error yields the zero time \<open>0001-01-01 12:00:00.0000\<close>
    with a log line; the layout's \<open>03\<close> is a 12-hour clock, so hour
    \<open>00\<close> is printed as \<open>12\<close> and hours \<open>13..99\<close> are rejected;
    whatever the input, the part writes the \<open>Format\<close> of a well-formed
    time, and feeding that text back reproduces the fragment without a
    log line (\<open>TIMESTAMP.Parse\<close> is idempotent).
  \<^item> Well-formedness: when the strings the caller supplies (all but the
    colour and the timestamp, which are re-printed) contain no quote,
    backslash or control character, the body is a JSON text by the RFC 8259
    grammar and denotes \<open>hook_doc\<close>
    (\<open>Json_Render.JSONRequest_valid_json\<close>).  Conversely, whenever the
    username, avatar URL and content hold no backslash and an odd number
    of double quotes in all (any content with one unescaped quote under a
    plain identity), the body has an odd number of quotes and no JSON
    value derives it, whatever the TTS flag and the plain embed
    (\<open>Json_Render.JSONRequest_quote_not_json\<close>, by the parity invariant
    of \<open>Json\<close>), so the specification's "always well-formed JSON"
    fails for such strings.
    With both a title and a URL link, the body is JSON whose embed object
    has two members named \<open>title\<close>
    (\<open>Json_Render.JSONRequest_duplicate_title\<close>).
  \<^item> Lifecycle: by rule induction over \<open>hook_reachable\<close>, the identity
    a hook is made with survives every sequence of writes and method
    calls, and every send goes to the identity's webhook URL.
  \<^item> Sessions: every request a session of safe writes sends is a
    \<open>POST\<close> of well-formed JSON to the identity's URL, so the JSON
    contract holds for every message the program sends, whatever the
    caller does between sends (\<open>Session.session_wire_json\<close>).  Sending
    valid JSON is
    always reachable again: from any reachable hook, whatever was written
    into it, clearing content, TTS flag and embed and sending posts one
    well-formed request (\<open>Session.session_recoverable\<close>).
  \<^item> Effects: \<open>JSONRequest\<close> changes the hook only through the URL
    title, and rendering again gives the same text; \<open>SendWebHook\<close>
    posts the body to the hook's URL, panics on a transport error, and
    panics dereferencing a nil request when the URL is rejected.

  \<^medskip>\<^bold>\<open>Bounds.\<close>  \<open>COLOR.Parse\<close> uses base 16 and bit size 25, so the
  colour theorems fix those; the \<open>Strconv\<close> refinement holds for every
  base and bit size Go accepts other than base 0.  The timestamp theorems
  are about four-digit years (the layout's \<open>2006\<close> chunk reads exactly
  four bytes).  No loop needs fuel: every loop of the source and of the
  modelled library is structural recursion over the input string, and
  \<open>skip\<close> terminates by the length of the layout literal.  So no
  theorem states termination: every definition is total by construction.
  The program has no waiting, retry or concurrency, and each operation of
  a session completes in one step; the liveness it has is of the kind
  EF of temporal logic, that a good state stays reachable
  (\<open>Session.session_recoverable\<close>).

  \<^medskip>\<^bold>\<open>Not modelled.\<close>  The HTTP client, TLS and the response body
  (an interface here); the text of log lines (their error values are
  kept); the effect of \<open>Close\<close> on the caller's variable (it assigns
  nil to its own copy of the pointer, so on the hook it is the identity,
  which is how it is modelled); the decoding of escapes inside JSON string
  literals (the grammar checks them, and the documents keep string
  contents as written); base 0 of \<open>ParseUint\<close> (prefixes and underscores), which
  the program never uses; \<open>time\<close>'s location handling and \<open>Date\<close>
  normalisation, which are the identity on the in-range fields
  \<open>Parse\<close> returns; the overflow check of Go's \<open>leadingInt\<close> in
  \<open>atoi\<close>, unreachable on the at most four bytes the layout passes it;
  the text of \<open>time.ParseError\<close>: a failed \<open>atoi\<close> or \<open>skip\<close> is
  the generic parse error \<open>ErrBad\<close>, and only the error kinds Go
  distinguishes (range, day, extra text) are kept apart; assignment of a
  whole \<open>Hook\<close> struct by the caller, which starts the life of another
  value rather than changing the one \<open>WebHook\<close> made.
\<close>

end
